(* ===== verification/Blinex_Prelude.thy ===== *)
theory Blinex_Prelude
  imports
    Main
    "HOL-Library.AList"
    "HOL-Library.Word"
    "HOL-Library.Sublist"
begin

text \<open>
  The shared vocabulary of the development: Go strings and the functions of package
  \<^verbatim>\<open>strings\<close> that the sources call, Go maps, clock readings and durations, decimal
  printing, and the generic notion of a reachable state with the interface that turns a
  one-step preservation lemma into an invariant of every reachable state.

  A Go string is a list of bytes, which is what \<^typ>\<open>string\<close> is. A Go map is an
  association list with distinct keys; the order of the list is the order in which a
  \<^verbatim>\<open>range\<close> loop happens to visit the entries. Go leaves that order open, and every lemma
  below is about an arbitrary list, that is about every order.
\<close>

named_theorems go_maps \<open>rewriting of lookups in updated Go maps\<close>
named_theorems go_eval \<open>definitions to unfold when a closed term is evaluated\<close>
named_theorems go_wf_intros \<open>well-formedness of Go maps is kept by the map operations\<close>


section \<open>Go maps\<close>

type_synonym ('k, 'v) gomap = "('k \<times> 'v) list"

definition go_wf :: "('k, 'v) gomap \<Rightarrow> bool" where
  "go_wf m \<longleftrightarrow> distinct (map fst m)"

definition go_get :: "('k, 'v) gomap \<Rightarrow> 'k \<Rightarrow> 'v option" where
  "go_get m k = map_of m k"

definition go_put :: "'k \<Rightarrow> 'v \<Rightarrow> ('k, 'v) gomap \<Rightarrow> ('k, 'v) gomap" where
  "go_put k v m = AList.update k v m"

definition go_del :: "'k \<Rightarrow> ('k, 'v) gomap \<Rightarrow> ('k, 'v) gomap" where
  "go_del k m = AList.delete k m"

definition go_values :: "('k, 'v) gomap \<Rightarrow> 'v list" where
  "go_values m = map snd m"

definition go_keys :: "('k, 'v) gomap \<Rightarrow> 'k list" where
  "go_keys m = map fst m"

lemma go_get_Nil [simp, go_maps]: "go_get [] k = None"
  by (simp add: go_get_def)

lemma go_get_put [go_maps]: "go_get (go_put k v m) k' = (if k' = k then Some v else go_get m k')"
  by (simp add: go_get_def go_put_def update_conv)

lemma go_get_put_same [simp]: "go_get (go_put k v m) k = Some v"
  by (simp add: go_get_put)

lemma go_get_del [go_maps]: "go_get (go_del k m) k' = (if k' = k then None else go_get m k')"
  by (simp add: go_get_def go_del_def delete_conv)

lemma go_get_del_same [simp]: "go_get (go_del k m) k = None"
  by (simp add: go_get_del)

lemma go_wf_Nil [simp, go_wf_intros]: "go_wf []"
  by (simp add: go_wf_def)

lemma go_wf_put [simp, go_wf_intros]: "go_wf m \<Longrightarrow> go_wf (go_put k v m)"
  by (simp add: go_wf_def go_put_def distinct_update)

lemma go_wf_del [simp, go_wf_intros]: "go_wf m \<Longrightarrow> go_wf (go_del k m)"
  by (simp add: go_wf_def go_del_def distinct_delete)

lemma go_wf_filter [simp, go_wf_intros]: "go_wf m \<Longrightarrow> go_wf (filter P m)"
  by (simp add: go_wf_def distinct_map_filter)

lemma go_get_in_set: "go_wf m \<Longrightarrow> (go_get m k = Some v \<longleftrightarrow> (k, v) \<in> set m)"
  by (auto simp: go_wf_def go_get_def)

lemma go_get_SomeD: "go_get m k = Some v \<Longrightarrow> (k, v) \<in> set m"
  by (auto simp: go_get_def dest: map_of_SomeD)

lemma go_get_None_iff: "go_get m k = None \<longleftrightarrow> k \<notin> set (go_keys m)"
  by (simp add: go_get_def go_keys_def map_of_eq_None_iff)

lemma go_values_iff: "go_wf m \<Longrightarrow> v \<in> set (go_values m) \<longleftrightarrow> (\<exists>k. go_get m k = Some v)"
  by (force simp: go_values_def go_get_in_set)

lemma go_get_filter:
  "go_wf m \<Longrightarrow> go_get (filter P m) k =
     (case go_get m k of None \<Rightarrow> None | Some v \<Rightarrow> if P (k, v) then Some v else None)"
  unfolding go_wf_def go_get_def
  by (induction m) (auto split: option.splits if_splits simp: map_of_eq_None_iff image_iff)

lemma length_go_put_le: "length (go_put k v m) \<le> Suc (length m)"
  unfolding go_put_def by (induction m) auto

lemma go_get_map_snd:
  "go_get (map (\<lambda>(k, v). (k, f k v)) m) k = map_option (f k) (go_get m k)"
  unfolding go_get_def by (induction m) auto

lemma go_wf_map_snd [simp]: "go_wf (map (\<lambda>(k, v). (k, f k v)) m) \<longleftrightarrow> go_wf m"
  by (simp add: go_wf_def comp_def split_def)

subsection \<open>Maps keyed by a field of their values\<close>

definition keyed :: "('v \<Rightarrow> 'k) \<Rightarrow> ('k, 'v) gomap \<Rightarrow> bool" where
  "keyed f m \<longleftrightarrow> go_wf m \<and> (\<forall>(k, v) \<in> set m. f v = k)"

lemma keyed_wf: "keyed f m \<Longrightarrow> go_wf m"
  by (simp add: keyed_def)

lemma keyedD: "keyed f m \<Longrightarrow> go_get m k = Some v \<Longrightarrow> f v = k"
  by (auto simp: keyed_def dest: go_get_SomeD)

lemma keyed_iff: "keyed f m \<longleftrightarrow> go_wf m \<and> (\<forall>k v. go_get m k = Some v \<longrightarrow> f v = k)"
  by (auto simp: keyed_def go_get_in_set)

lemma keyed_Nil [simp, intro]: "keyed f []"
  by (simp add: keyed_def)

lemma keyed_put [simp, intro]: "keyed f m \<Longrightarrow> f v = k \<Longrightarrow> keyed f (go_put k v m)"
  by (auto simp: keyed_iff go_get_put)

lemma keyed_del [simp, intro]: "keyed f m \<Longrightarrow> keyed f (go_del k m)"
  by (auto simp: keyed_iff go_get_del)

lemma keyed_filter [simp, intro]: "keyed f m \<Longrightarrow> keyed f (filter P m)"
  by (auto simp: keyed_def)

lemma keyed_values: "keyed f m \<Longrightarrow> map f (go_values m) = map fst m"
  by (auto simp: keyed_def go_values_def)

lemma keyed_values_distinct: "keyed f m \<Longrightarrow> distinct (map f (go_values m))"
  by (simp add: keyed_values) (simp add: keyed_def go_wf_def)

lemma find_in_map: "go_wf m \<Longrightarrow> find P m = Some (k, v) \<Longrightarrow> go_get m k = Some v \<and> P (k, v)"
  by (auto simp: find_Some_iff go_get_in_set)


section \<open>Go strings\<close>

subsection \<open>Prefixes and suffixes\<close>

definition has_prefix :: "string \<Rightarrow> string \<Rightarrow> bool" where
  "has_prefix s p \<longleftrightarrow> take (length p) s = p"

definition trim_prefix :: "string \<Rightarrow> string \<Rightarrow> string" where
  "trim_prefix s p = (if has_prefix s p then drop (length p) s else s)"

definition trim_suffix :: "string \<Rightarrow> string \<Rightarrow> string" where
  "trim_suffix s p =
     (if length p \<le> length s \<and> drop (length s - length p) s = p
      then take (length s - length p) s else s)"

lemma has_prefix_iff: "has_prefix s p \<longleftrightarrow> (\<exists>r. s = p @ r)"
  unfolding has_prefix_def by (metis append_eq_conv_conj append_take_drop_id)

lemma has_prefix_append [simp]: "has_prefix (p @ r) p"
  by (simp add: has_prefix_def)

lemma trim_prefix_append [simp]: "trim_prefix (p @ r) p = r"
  by (simp add: trim_prefix_def)

lemma trim_suffix_append [simp]: "trim_suffix (r @ p) p = r"
  by (simp add: trim_suffix_def)

lemma trim_suffix_cases:
  obtains "trim_suffix s p = s" | "s = trim_suffix s p @ p"
  unfolding trim_suffix_def by (metis append_take_drop_id)


subsection \<open>Case mapping and trimming\<close>

text \<open>
  \<^verbatim>\<open>strings.ToLower\<close> on the ASCII letters; other bytes are left alone. The names the
  sources lower-case (protocol names, domain names, DNS suffixes) are ASCII.
\<close>

definition lower_char :: "char \<Rightarrow> char" where
  "lower_char c =
     (if 65 \<le> (of_char c :: nat) \<and> (of_char c :: nat) \<le> 90 then char_of (of_char c + 32 :: nat) else c)"

definition to_lower :: "string \<Rightarrow> string" where
  "to_lower s = map lower_char s"

text \<open>The bytes \<^verbatim>\<open>strings.TrimSpace\<close> and \<^verbatim>\<open>strings.Fields\<close> treat as ASCII white space.\<close>

definition is_space :: "char \<Rightarrow> bool" where
  "is_space c \<longleftrightarrow> (of_char c :: nat) \<in> set [9, 10, 11, 12, 13, 32]"

definition trim_with :: "(char \<Rightarrow> bool) \<Rightarrow> string \<Rightarrow> string" where
  "trim_with P s = rev (dropWhile P (rev (dropWhile P s)))"

definition trim_space :: "string \<Rightarrow> string" where
  "trim_space s = trim_with is_space s"

lemma of_char_lower:
  "(of_char (lower_char c) :: nat) =
     (if 65 \<le> (of_char c :: nat) \<and> (of_char c :: nat) \<le> 90 then of_char c + 32 else of_char c)"
  by (simp add: lower_char_def)

lemma lower_char_idem [simp]: "lower_char (lower_char c) = lower_char c"
  by (simp add: lower_char_def)

lemma to_lower_idem [simp]: "to_lower (to_lower s) = to_lower s"
  by (simp add: to_lower_def)

lemma to_lower_append [simp]: "to_lower (s @ t) = to_lower s @ to_lower t"
  by (simp add: to_lower_def)

lemma to_lower_Nil_iff [simp]: "to_lower s = [] \<longleftrightarrow> s = []"
  by (simp add: to_lower_def)

lemma length_to_lower [simp]: "length (to_lower s) = length s"
  by (simp add: to_lower_def)

lemma lower_char_eq_special:
  assumes "\<not> (97 \<le> (of_char d :: nat) \<and> (of_char d :: nat) \<le> 122)"
    and "\<not> (65 \<le> (of_char d :: nat) \<and> (of_char d :: nat) \<le> 90)"
  shows "lower_char c = d \<longleftrightarrow> c = d"
proof
  assume "lower_char c = d"
  then have "(of_char (lower_char c) :: nat) = of_char d" by simp
  then have "(of_char c :: nat) = of_char d"
    using assms by (auto simp: of_char_lower split: if_splits)
  then show "c = d" by (simp add: of_char_eq_iff)
next
  assume "c = d"
  then show "lower_char c = d" using assms by (auto simp: lower_char_def)
qed

lemma trim_with_Nil [simp]: "trim_with P [] = []"
  by (simp add: trim_with_def)

lemma trim_with_set: "set (trim_with P s) \<subseteq> set s"
  unfolding trim_with_def by (auto dest!: set_dropWhileD)

lemma trim_with_hd: "trim_with P s \<noteq> [] \<Longrightarrow> \<not> P (hd (trim_with P s))"
proof -
  assume ne: "trim_with P s \<noteq> []"
  define t where "t = dropWhile P s"
  have t: "trim_with P s = rev (dropWhile P (rev t))" by (simp add: trim_with_def t_def)
  then have "t \<noteq> []" using ne by auto
  then have hd_t: "\<not> P (hd t)" unfolding t_def by (rule hd_dropWhile)
  have "prefix (trim_with P s) t"
    unfolding t using suffix_dropWhile [of P "rev t"] by (simp add: suffix_to_prefix)
  then have "hd (trim_with P s) = hd t" using ne by (auto simp: prefix_def)
  with hd_t show ?thesis by simp
qed

lemma trim_with_last: "trim_with P s \<noteq> [] \<Longrightarrow> \<not> P (last (trim_with P s))"
  unfolding trim_with_def by (metis hd_dropWhile last_rev rev_is_Nil_conv)

lemma trim_with_Nil_iff: "trim_with P s = [] \<longleftrightarrow> (\<forall>c \<in> set s. P c)"
proof
  assume "trim_with P s = []"
  then have "\<forall>c \<in> set (dropWhile P s). P c" by (simp add: trim_with_def)
  then have "dropWhile P s = []" by (metis hd_dropWhile hd_in_set)
  then show "\<forall>c \<in> set s. P c" by simp
next
  assume "\<forall>c \<in> set s. P c"
  then show "trim_with P s = []" by (auto simp: trim_with_def dest: set_dropWhileD)
qed


subsection \<open>Splitting and joining\<close>

text \<open>\<^verbatim>\<open>strings.Split\<close> on a one-byte separator and \<^verbatim>\<open>strings.Join\<close>.\<close>

fun split_on :: "char \<Rightarrow> string \<Rightarrow> string list" where
  "split_on c [] = [[]]"
| "split_on c (x # xs) =
     (if x = c then [] # split_on c xs
      else (case split_on c xs of [] \<Rightarrow> [[x]] | f # fs \<Rightarrow> (x # f) # fs))"

fun join_with :: "string \<Rightarrow> string list \<Rightarrow> string" where
  "join_with sep [] = []"
| "join_with sep [x] = x"
| "join_with sep (x # y # ys) = x @ sep @ join_with sep (y # ys)"

lemma split_on_nonempty [simp]: "split_on c s \<noteq> []"
  by (cases "(c, s)" rule: split_on.cases) (auto split: list.splits)

lemma split_on_no_sep: "f \<in> set (split_on c s) \<Longrightarrow> c \<notin> set f"
proof (induction s arbitrary: f)
  case (Cons x xs)
  then show ?case by (cases "split_on c xs") (auto split: if_splits)
qed simp

lemma split_on_absent: "c \<notin> set s \<Longrightarrow> split_on c s = [s]"
  by (induction s) auto

lemma split_on_append: "c \<notin> set s \<Longrightarrow> split_on c (s @ c # t) = s # split_on c t"
  by (induction s) auto

lemma join_split [simp]: "join_with [c] (split_on c s) = s"
proof (induction s)
  case (Cons x xs)
  then show ?case
    by (cases "split_on c xs" rule: remdups_adj.cases) auto
qed simp

lemma split_join:
  "xs \<noteq> [] \<Longrightarrow> (\<And>f. f \<in> set xs \<Longrightarrow> c \<notin> set f) \<Longrightarrow> split_on c (join_with [c] xs) = xs"
  by (induction "[c]" xs rule: join_with.induct) (auto simp: split_on_absent split_on_append)


lemma split_on_append_sep: "split_on c (x @ c # y) = split_on c x @ split_on c y"
  by (induction x) (auto split: list.splits)

lemma join_with_append:
  "xs \<noteq> [] \<Longrightarrow> ys \<noteq> [] \<Longrightarrow> join_with sep (xs @ ys) = join_with sep xs @ sep @ join_with sep ys"
proof (induction sep xs rule: join_with.induct)
  case (2 sep x)
  then show ?case by (cases ys) auto
qed auto

subsection \<open>Fields\<close>

text \<open>\<^verbatim>\<open>strings.Fields\<close>: the maximal runs of bytes that are not white space.\<close>

function str_fields :: "string \<Rightarrow> string list" where
  "str_fields s =
     (let t = dropWhile is_space s in
      if t = [] then [] else takeWhile (\<lambda>c. \<not> is_space c) t # str_fields (dropWhile (\<lambda>c. \<not> is_space c) t))"
  by auto
termination
proof (relation "measure length")
  fix s t
  assume t: "t = dropWhile is_space s" "t \<noteq> []"
  then have "\<not> is_space (hd t)" by (simp add: hd_dropWhile)
  then have "length (dropWhile (\<lambda>c. \<not> is_space c) t) < length t"
    using t(2) by (cases t) (auto simp: le_imp_less_Suc length_dropWhile_le)
  also have "\<dots> \<le> length s" by (simp add: t(1) length_dropWhile_le)
  finally show "(dropWhile (\<lambda>c. \<not> is_space c) t, s) \<in> measure length" by simp
qed simp

declare str_fields.simps [simp del, go_eval]

lemma str_fields_chars: "f \<in> set (str_fields s) \<Longrightarrow> f \<noteq> [] \<and> (\<forall>c \<in> set f. \<not> is_space c)"
proof (induction s rule: str_fields.induct)
  case (1 s)
  define t where "t = dropWhile is_space s"
  show ?case
  proof (cases "t = []")
    case True
    with "1.prems" show ?thesis by (simp add: str_fields.simps [of s] t_def)
  next
    case False
    then have "\<not> is_space (hd t)" unfolding t_def by (rule hd_dropWhile)
    with False have ne: "takeWhile (\<lambda>c. \<not> is_space c) t \<noteq> []"
      by (cases t) auto
    have "str_fields s = takeWhile (\<lambda>c. \<not> is_space c) t # str_fields (dropWhile (\<lambda>c. \<not> is_space c) t)"
      using False by (subst str_fields.simps) (simp only: t_def Let_def if_False)
    with "1.prems" have "f = takeWhile (\<lambda>c. \<not> is_space c) t
        \<or> f \<in> set (str_fields (dropWhile (\<lambda>c. \<not> is_space c) t))" by simp
    then show ?thesis
    proof
      assume "f = takeWhile (\<lambda>c. \<not> is_space c) t"
      with ne show ?thesis by (auto dest: set_takeWhileD)
    next
      assume "f \<in> set (str_fields (dropWhile (\<lambda>c. \<not> is_space c) t))"
      with "1.IH" [OF t_def False] show ?thesis by simp
    qed
  qed
qed

lemma str_fields_nonempty: "\<exists>c \<in> set s. \<not> is_space c \<Longrightarrow> str_fields s \<noteq> []"
  by (auto simp: str_fields.simps [of s] Let_def)

section \<open>Decimal printing\<close>

text \<open>The verb \<^verbatim>\<open>%d\<close> of package \<^verbatim>\<open>fmt\<close> on a natural number.\<close>

definition digit_char :: "nat \<Rightarrow> char" where
  "digit_char d = char_of (48 + d)"

fun itoa :: "nat \<Rightarrow> string" where
  "itoa n = (if n < 10 then [digit_char n] else itoa (n div 10) @ [digit_char (n mod 10)])"

declare itoa.simps [simp del]

definition is_digit :: "char \<Rightarrow> bool" where
  "is_digit c \<longleftrightarrow> 48 \<le> (of_char c :: nat) \<and> (of_char c :: nat) \<le> 57"

definition digit_val :: "char \<Rightarrow> nat" where
  "digit_val c = of_char c - 48"

definition atoi :: "string \<Rightarrow> nat" where
  "atoi s = foldl (\<lambda>n c. 10 * n + digit_val c) 0 s"

lemma digit_char_props [simp]:
  "d < 10 \<Longrightarrow> is_digit (digit_char d)" "d < 10 \<Longrightarrow> digit_val (digit_char d) = d"
  by (simp_all add: digit_char_def is_digit_def digit_val_def)

lemma itoa_nonempty [simp]: "itoa n \<noteq> []"
  by (subst itoa.simps) simp

lemma itoa_digits: "c \<in> set (itoa n) \<Longrightarrow> is_digit c"
proof (induction n rule: itoa.induct)
  case (1 n)
  then show ?case by (cases "n < 10") (auto simp: itoa.simps [of n])
qed

lemma atoi_snoc: "atoi (s @ [c]) = 10 * atoi s + digit_val c"
  by (simp add: atoi_def)

lemma atoi_itoa [simp]: "atoi (itoa n) = n"
proof (induction n rule: itoa.induct)
  case (1 n)
  show ?case
  proof (cases "n < 10")
    case True
    then show ?thesis by (simp add: itoa.simps [of n] atoi_def)
  next
    case False
    with 1 show ?thesis by (simp add: itoa.simps [of n] atoi_snoc)
  qed
qed

lemma itoa_inject [simp]: "itoa a = itoa b \<longleftrightarrow> a = b"
  by (metis atoi_itoa)


section \<open>Clock readings and durations\<close>

text \<open>
  A \<^verbatim>\<open>time.Time\<close> is the number of nanoseconds since Go's zero time, so the zero value
  is 0; a \<^verbatim>\<open>time.Duration\<close> is a signed 64-bit count of nanoseconds. \<^verbatim>\<open>t.Sub(u)\<close>
  saturates at the ends of the duration range.
\<close>

type_synonym gtime = int
type_synonym duration = int

definition second :: duration where "second = 1000000000"
definition minute :: duration where "minute = 60 * second"
definition hour :: duration where "hour = 60 * minute"

definition max_duration :: duration where "max_duration = 2 ^ 63 - 1"
definition min_duration :: duration where "min_duration = - (2 ^ 63)"

definition time_sub :: "gtime \<Rightarrow> gtime \<Rightarrow> duration" where
  "time_sub t u = max min_duration (min max_duration (t - u))"

text \<open>The zero of Unix time, January 1 1970, in nanoseconds after Go's zero time.\<close>

definition unix_epoch :: gtime where "unix_epoch = 62135596800 * second"

lemmas time_defs = second_def minute_def hour_def max_duration_def min_duration_def unix_epoch_def

lemma time_sub_less [simp]:
  "min_duration < d \<Longrightarrow> d \<le> max_duration \<Longrightarrow> time_sub t u < d \<longleftrightarrow> t - u < d"
  by (auto simp: time_sub_def)

lemma time_sub_gt:
  "min_duration \<le> d \<Longrightarrow> d < max_duration \<Longrightarrow> d < time_sub t u \<longleftrightarrow> d < t - u"
  by (auto simp: time_sub_def)

lemma time_sub_ge:
  "min_duration < d \<Longrightarrow> d \<le> max_duration \<Longrightarrow> d \<le> time_sub t u \<longleftrightarrow> d \<le> t - u"
  by (auto simp: time_sub_def)


section \<open>Evaluation\<close>

text \<open>
  The library definitions a concrete run needs; each component adds its own. Closed terms
  are evaluated by \<open>simp add: go_eval\<close>, inside the kernel.
\<close>

declare
  go_get_def [go_eval] go_put_def [go_eval] go_del_def [go_eval] go_values_def [go_eval]
  go_keys_def [go_eval] has_prefix_def [go_eval] trim_prefix_def [go_eval]
  trim_suffix_def [go_eval] lower_char_def [go_eval] to_lower_def [go_eval]
  is_space_def [go_eval] trim_with_def [go_eval] trim_space_def [go_eval]
  digit_char_def [go_eval] itoa.simps [go_eval] is_digit_def [go_eval]
  digit_val_def [go_eval] atoi_def [go_eval]
  AList.delete_eq [go_eval] Let_def [go_eval]

lemma replicate_numeral_eval [go_eval]: "replicate (numeral k) x = x # replicate (pred_numeral k) x"
  by (simp add: numeral_eq_Suc)

declare bit_Suc_0_iff [go_eval]

lemma char_of_numeral_eval [go_eval]:
  "char_of (numeral k :: nat) =
     Char (bit (numeral k :: nat) 0) (bit (numeral k :: nat) 1) (bit (numeral k :: nat) 2)
       (bit (numeral k :: nat) 3) (bit (numeral k :: nat) 4) (bit (numeral k :: nat) 5)
       (bit (numeral k :: nat) 6) (bit (numeral k :: nat) 7)"
  by (simp only: char_of_def)

section \<open>Reachable states and invariants\<close>

inductive reach :: "('s \<Rightarrow> bool) \<Rightarrow> ('s \<Rightarrow> 's \<Rightarrow> bool) \<Rightarrow> 's \<Rightarrow> bool" for init and step where
  reach_init: "init s \<Longrightarrow> reach init step s"
| reach_step: "reach init step s \<Longrightarrow> step s t \<Longrightarrow> reach init step t"

text \<open>
  The interface between a component's step relation and its invariant: a predicate that
  holds in every initial state and is kept by every step holds in every reachable state.
\<close>

locale invariant_system =
  fixes init :: "'s \<Rightarrow> bool"
    and step :: "'s \<Rightarrow> 's \<Rightarrow> bool"
    and inv :: "'s \<Rightarrow> bool"
  assumes inv_init: "init s \<Longrightarrow> inv s"
    and inv_step: "step s t \<Longrightarrow> inv s \<Longrightarrow> inv t"
begin

lemma reachable_inv: "reach init step s \<Longrightarrow> inv s"
  by (induction rule: reach.induct) (auto intro: inv_init inv_step)

lemma reachable_step_inv: "reach init step s \<Longrightarrow> step s t \<Longrightarrow> inv t"
  by (blast intro: reachable_inv reach_step)

end

end
