(* ===== verification/Net_Addr.thy ===== *)
theory Net_Addr
  imports Blinex_Prelude
begin

text \<open>
  The parts of Go's packages \<^verbatim>\<open>net\<close> and \<^verbatim>\<open>net/netip\<close> that the sources use: parsing
  and printing of addresses, prefixes and CIDR blocks, prefix containment, and the address
  classes. The two packages do not accept the same prefixes, and the model keeps them apart:
  \<^item> \<open>parse_addr\<close>, \<open>parse_prefix\<close>, \<open>prefix_contains\<close>: \<^verbatim>\<open>netip.ParseAddr\<close>,
    \<^verbatim>\<open>netip.ParsePrefix\<close>, \<^verbatim>\<open>netip.Prefix.Contains\<close>;
  \<^item> \<open>parse_ip\<close>, \<open>parse_cidr\<close>, \<open>ipnet_contains\<close>: \<^verbatim>\<open>net.ParseIP\<close>,
    \<^verbatim>\<open>net.ParseCIDR\<close>, \<^verbatim>\<open>net.IPNet.Contains\<close>.
\<close>

unbundle bit_operations_syntax

type_synonym byte = "8 word"
type_synonym u16 = "16 word"
type_synonym u32 = "32 word"
type_synonym u128 = "128 word"

text \<open>A valid \<^verbatim>\<open>netip.Addr\<close>: an IPv4 address, or an IPv6 address with its zone.\<close>

datatype addr = V4 u32 | V6 u128 string

datatype prefix = Prefix addr nat

text \<open>A \<^verbatim>\<open>net.IPNet\<close>: base address and number of leading one bits of the mask.\<close>

datatype ipnet = IPNet4 u32 nat | IPNet6 u128 nat


section \<open>Parsing\<close>

definition parse_octet :: "string \<Rightarrow> nat option" where
  "parse_octet s =
     (if s \<noteq> [] \<and> list_all is_digit s \<and> (length s = 1 \<or> hd s \<noteq> CHR ''0'') \<and> atoi s \<le> 255
      then Some (atoi s) else None)"

definition quad :: "nat \<Rightarrow> nat \<Rightarrow> nat \<Rightarrow> nat \<Rightarrow> u32" where
  "quad a b c d = word_of_nat (a * 16777216 + b * 65536 + c * 256 + d)"

definition parse_v4 :: "string \<Rightarrow> u32 option" where
  "parse_v4 s =
     (case split_on CHR ''.'' s of
        [a, b, c, d] \<Rightarrow>
          (case (parse_octet a, parse_octet b, parse_octet c, parse_octet d) of
             (Some a, Some b, Some c, Some d) \<Rightarrow> Some (quad a b c d)
           | _ \<Rightarrow> None)
      | _ \<Rightarrow> None)"

definition hex_val :: "char \<Rightarrow> nat option" where
  "hex_val c =
     (let n = of_char c :: nat in
      if 48 \<le> n \<and> n \<le> 57 then Some (n - 48)
      else if 97 \<le> n \<and> n \<le> 102 then Some (n - 87)
      else if 65 \<le> n \<and> n \<le> 70 then Some (n - 55)
      else None)"

definition is_hex :: "char \<Rightarrow> bool" where
  "is_hex c \<longleftrightarrow> hex_val c \<noteq> None"

definition hex_run_val :: "string \<Rightarrow> nat" where
  "hex_run_val s = foldl (\<lambda>n c. 16 * n + the (hex_val c)) 0 s"

text \<open>
  The main loop of \<^verbatim>\<open>netip.parseIPv6\<close>. The first argument is the number of 16-bit
  groups still missing, \<open>e\<close> the position of an ellipsis seen so far, \<open>gs\<close> the groups
  read; the result is the groups, the ellipsis and the unread rest of the text.
\<close>

fun v6_loop :: "nat \<Rightarrow> nat option \<Rightarrow> nat list \<Rightarrow> string \<Rightarrow> (nat list \<times> nat option \<times> string) option" where
  "v6_loop 0 e gs s = Some (gs, e, s)"
| "v6_loop (Suc n) e gs s =
     (let h = takeWhile is_hex s; r = dropWhile is_hex s in
      if h = [] \<or> 4 < length h then None
      else if r \<noteq> [] \<and> hd r = CHR ''.'' then
        (if e = None \<and> length gs \<noteq> 6 then None
         else if n = 0 then None
         else (case parse_v4 s of
                 None \<Rightarrow> None
               | Some w \<Rightarrow> Some (gs @ [unat w div 65536, unat w mod 65536], e, [])))
      else
        (let gs' = gs @ [hex_run_val h] in
         case r of
           [] \<Rightarrow> Some (gs', e, [])
         | [c] \<Rightarrow> None
         | c # d # r' \<Rightarrow>
             if c \<noteq> CHR '':'' then None
             else if d = CHR '':'' then
               (if e \<noteq> None then None
                else if r' = [] then Some (gs', Some (length gs'), [])
                else v6_loop n (Some (length gs')) gs' r')
             else v6_loop n e gs' (d # r')))"

definition v6_of_groups :: "nat list \<Rightarrow> u128" where
  "v6_of_groups gs = word_of_nat (foldl (\<lambda>n g. 65536 * n + g) 0 gs)"

definition v6_finish :: "nat list \<times> nat option \<times> string \<Rightarrow> u128 option" where
  "v6_finish r =
     (case r of (gs, e, rest) \<Rightarrow>
        if rest \<noteq> [] then None
        else if length gs < 8 then
          (case e of
             None \<Rightarrow> None
           | Some k \<Rightarrow> Some (v6_of_groups (take k gs @ replicate (8 - length gs) 0 @ drop k gs)))
        else if e \<noteq> None then None
        else Some (v6_of_groups gs))"

definition parse_v6 :: "string \<Rightarrow> addr option" where
  "parse_v6 s =
     (let a = takeWhile (\<lambda>c. c \<noteq> CHR ''%'') s; z = dropWhile (\<lambda>c. c \<noteq> CHR ''%'') s;
          zone = drop 1 z in
      if z \<noteq> [] \<and> zone = [] then None
      else if has_prefix a ''::'' then
        (let a' = drop 2 a in
         if a' = [] then Some (V6 0 zone)
         else map_option (\<lambda>w. V6 w zone) (Option.bind (v6_loop 8 (Some 0) [] a') v6_finish))
      else map_option (\<lambda>w. V6 w zone) (Option.bind (v6_loop 8 None [] a) v6_finish))"

definition parse_addr :: "string \<Rightarrow> addr option" where
  "parse_addr s =
     (case dropWhile (\<lambda>c. c \<noteq> CHR ''.'' \<and> c \<noteq> CHR '':'' \<and> c \<noteq> CHR ''%'') s of
        [] \<Rightarrow> None
      | c # _ \<Rightarrow>
          if c = CHR ''.'' then map_option V4 (parse_v4 s)
          else if c = CHR '':'' then parse_v6 s
          else None)"

definition bit_len :: "addr \<Rightarrow> nat" where
  "bit_len a = (case a of V4 _ \<Rightarrow> 32 | V6 _ _ \<Rightarrow> 128)"

definition zone_of :: "addr \<Rightarrow> string" where
  "zone_of a = (case a of V4 _ \<Rightarrow> [] | V6 _ z \<Rightarrow> z)"

text \<open>\<^verbatim>\<open>netip.ParsePrefix\<close>: the last slash splits, and the length has no sign and no leading zero.\<close>

definition parse_prefix :: "string \<Rightarrow> prefix option" where
  "parse_prefix s =
     (if CHR ''/'' \<notin> set s then None
      else
        (let bits = rev (takeWhile (\<lambda>c. c \<noteq> CHR ''/'') (rev s));
             a = take (length s - length bits - 1) s in
         case parse_addr a of
           None \<Rightarrow> None
         | Some ip \<Rightarrow>
             if zone_of ip \<noteq> [] then None
             else if 1 < length bits \<and> hd bits = CHR ''0'' then None
             else if bits = [] \<or> \<not> list_all is_digit bits then None
             else if bit_len ip < atoi bits then None
             else Some (Prefix ip (atoi bits))))"

text \<open>\<^verbatim>\<open>net.ParseIP\<close>: an address without a zone.\<close>

definition parse_ip :: "string \<Rightarrow> addr option" where
  "parse_ip s =
     (case parse_addr s of
        None \<Rightarrow> None
      | Some a \<Rightarrow> if zone_of a = [] then Some a else None)"

definition mask4 :: "nat \<Rightarrow> u32" where
  "mask4 n = NOT (mask (32 - n))"

definition mask6 :: "nat \<Rightarrow> u128" where
  "mask6 n = NOT (mask (128 - n))"

definition ipnet_of :: "addr \<Rightarrow> nat \<Rightarrow> ipnet" where
  "ipnet_of a n = (case a of V4 w \<Rightarrow> IPNet4 (w AND mask4 n) n | V6 w _ \<Rightarrow> IPNet6 (w AND mask6 n) n)"

text \<open>\<^verbatim>\<open>net.ParseCIDR\<close>: the first slash splits, and leading zeros of the length are accepted.\<close>

definition parse_cidr :: "string \<Rightarrow> (addr \<times> ipnet) option" where
  "parse_cidr s =
     (if CHR ''/'' \<notin> set s then None
      else
        (let a = takeWhile (\<lambda>c. c \<noteq> CHR ''/'') s; m = drop (length a + 1) s in
         case parse_addr a of
           None \<Rightarrow> None
         | Some ip \<Rightarrow>
             if zone_of ip \<noteq> [] then None
             else if m = [] \<or> \<not> list_all is_digit m \<or> bit_len ip < atoi m then None
             else Some (ip, ipnet_of ip (atoi m))))"


section \<open>Containment and address classes\<close>

definition is_4in6 :: "u128 \<Rightarrow> bool" where
  "is_4in6 w \<longleftrightarrow> drop_bit 32 w = 0xffff"

definition to4 :: "addr \<Rightarrow> u32 option" where
  "to4 a = (case a of V4 w \<Rightarrow> Some w | V6 w _ \<Rightarrow> if is_4in6 w then Some (ucast w) else None)"

definition prefix_contains :: "prefix \<Rightarrow> addr \<Rightarrow> bool" where
  "prefix_contains p a =
     (case p of Prefix b n \<Rightarrow>
        (case (b, a) of
           (V4 v, V4 w) \<Rightarrow> drop_bit (32 - n) (w XOR v) = 0
         | (V6 v _, V6 w z) \<Rightarrow> z = [] \<and> (w XOR v) AND mask6 n = 0
         | _ \<Rightarrow> False))"

definition ipnet_contains :: "ipnet \<Rightarrow> addr \<Rightarrow> bool" where
  "ipnet_contains n a =
     (case n of
        IPNet4 b k \<Rightarrow> (case to4 a of Some w \<Rightarrow> w AND mask4 k = b AND mask4 k | None \<Rightarrow> False)
      | IPNet6 b k \<Rightarrow>
          if is_4in6 b then
            (case to4 a of
               Some w \<Rightarrow> w AND ucast (mask6 k) = ucast b AND ucast (mask6 k)
             | None \<Rightarrow> False)
          else
            (case (to4 a, a) of
               (None, V6 w _) \<Rightarrow> w AND mask6 k = b AND mask6 k
             | _ \<Rightarrow> False))"

definition unmap :: "addr \<Rightarrow> addr" where
  "unmap a = (case to4 a of Some w \<Rightarrow> V4 w | None \<Rightarrow> a)"

definition is_loopback :: "addr \<Rightarrow> bool" where
  "is_loopback a = (case unmap a of V4 w \<Rightarrow> drop_bit 24 w = 127 | V6 w _ \<Rightarrow> w = 1)"

definition is_unspecified :: "addr \<Rightarrow> bool" where
  "is_unspecified a \<longleftrightarrow> a = V4 0 \<or> a = V6 0 []"

definition is_link_local_unicast :: "addr \<Rightarrow> bool" where
  "is_link_local_unicast a =
     (case unmap a of V4 w \<Rightarrow> drop_bit 16 w = 0xa9fe | V6 w _ \<Rightarrow> drop_bit 118 w = 0x3fa)"

definition is_multicast :: "addr \<Rightarrow> bool" where
  "is_multicast a =
     (case unmap a of V4 w \<Rightarrow> drop_bit 28 w = 0xe | V6 w _ \<Rightarrow> drop_bit 120 w = 0xff)"

definition is_private :: "addr \<Rightarrow> bool" where
  "is_private a =
     (case unmap a of
        V4 w \<Rightarrow> drop_bit 24 w = 10 \<or> drop_bit 20 w = 0xac1 \<or> drop_bit 16 w = 0xc0a8
      | V6 w _ \<Rightarrow> drop_bit 121 w = 0x7e)"

text \<open>\<^verbatim>\<open>net.IP.String\<close> and \<^verbatim>\<open>netip.Addr.String\<close> on an IPv4 address.\<close>

definition show_v4 :: "u32 \<Rightarrow> string" where
  "show_v4 w =
     join_with ''.''
       (map itoa [unat w div 16777216, unat w div 65536 mod 256, unat w div 256 mod 256, unat w mod 256])"


declare v6_loop.simps [simp del]


section \<open>Lemmas\<close>

subsection \<open>Printing and parsing back\<close>

lemma itoa_hd_zero: "itoa n = CHR ''0'' # r \<Longrightarrow> n = 0"
proof (induction n arbitrary: r rule: itoa.induct)
  case (1 n)
  show ?case
  proof (cases "n < 10")
    case True
    then have "digit_char n = CHR ''0''" using "1.prems" by (simp add: itoa.simps [of n])
    then have "digit_val (digit_char n) = 0" by (simp add: digit_val_def)
    with True show ?thesis by simp
  next
    case False
    then obtain r' where "itoa (n div 10) = CHR ''0'' # r'"
      using "1.prems" by (cases "itoa (n div 10)") (auto simp: itoa.simps [of n])
    with 1 False have "n div 10 = 0" by blast
    with False show ?thesis by simp
  qed
qed

lemma itoa_0: "itoa 0 = ''0''"
  by code_simp

lemma parse_octet_itoa [simp]: "n \<le> 255 \<Longrightarrow> parse_octet (itoa n) = Some n"
proof -
  assume le: "n \<le> 255"
  have "length (itoa n) = 1 \<or> hd (itoa n) \<noteq> CHR ''0''"
  proof (cases "itoa n")
    case (Cons c r)
    then show ?thesis using itoa_hd_zero [of n r] itoa_0 by (cases "c = CHR ''0''") auto
  qed simp
  then show ?thesis
    using le itoa_digits by (auto simp: parse_octet_def list_all_iff)
qed

lemma itoa_no_dot: "CHR ''.'' \<notin> set (itoa n)"
  using itoa_digits [of "CHR ''.''" n] by (auto simp: is_digit_def)

lemma bytes_sum:
  fixes n :: nat
  shows "n div 16777216 * 16777216 + n div 65536 mod 256 * 65536 + n div 256 mod 256 * 256 + n mod 256 = n"
proof -
  define m where "m = n div 256"
  define k where "k = m div 256"
  have div: "n div 65536 = k" "n div 16777216 = k div 256"
    by (simp_all add: m_def k_def flip: div_mult2_eq)
  have sum: "j * 16777216 + c * 65536 + b * 256 + a = n"
    if "n = m * 256 + a" "m = k * 256 + b" "k = j * 256 + c" for a b c j
    using that by simp
  show ?thesis
    unfolding div m_def [symmetric]
    by (rule sum) (simp_all add: m_def k_def div_mult_mod_eq)
qed

lemma quad_bytes:
  "quad (unat w div 16777216) (unat w div 65536 mod 256) (unat w div 256 mod 256) (unat w mod 256) = w"
  by (simp only: quad_def bytes_sum) simp

lemma parse_v4_show_v4 [simp]: "parse_v4 (show_v4 w) = Some w"
proof -
  let ?b = "[unat w div 16777216, unat w div 65536 mod 256, unat w div 256 mod 256, unat w mod 256]"
  have split: "split_on CHR ''.'' (show_v4 w) = map itoa ?b"
    unfolding show_v4_def by (rule split_join) (auto simp: itoa_no_dot)
  have "unat w < 4294967296" using unsigned_less [of w, where 'a = nat] by simp
  then have "unat w div 16777216 \<le> 255" by simp
  then show ?thesis unfolding parse_v4_def split by (simp add: quad_bytes)
qed

lemma show_v4_inject [simp]: "show_v4 v = show_v4 w \<longleftrightarrow> v = w"
  by (metis parse_v4_show_v4 option.inject)

subsection \<open>Host and port\<close>

definition has_char :: "char \<Rightarrow> string \<Rightarrow> bool" where
  "has_char c s \<longleftrightarrow> c \<in> set s"

text \<open>\<^verbatim>\<open>net.SplitHostPort\<close>. The string is cut at its last colon.\<close>

definition SplitHostPort :: "string \<Rightarrow> (string \<times> string) option" where
  "SplitHostPort s =
     (if \<not> has_char CHR '':'' s then None
      else
        (let port = rev (takeWhile (\<lambda>c. c \<noteq> CHR '':'') (rev s));
             before = take (length s - length port - 1) s
         in if hd s = CHR ''['' then
              (let inner = takeWhile (\<lambda>c. c \<noteq> CHR '']'') s;
                   after = drop (length inner + 1) s
               in if \<not> has_char CHR '']'' s then None
                  else if after = [] \<or> length inner + 1 \<noteq> length before then None
                  else if has_char CHR ''['' (tl s) \<or> has_char CHR '']'' after then None
                  else Some (tl inner, port))
            else if has_char CHR '':'' before then None
            else if has_char CHR ''['' s \<or> has_char CHR '']'' s then None
            else Some (before, port)))"

subsection \<open>Evaluation\<close>

lemmas v6_loop_numeral [go_eval] =
  v6_loop.simps(2) [of "pred_numeral k" for k, folded numeral_eq_Suc]

declare
  v6_loop.simps [go_eval] parse_octet_def [go_eval] quad_def [go_eval] parse_v4_def [go_eval] hex_val_def [go_eval]
  is_hex_def [go_eval] hex_run_val_def [go_eval] v6_of_groups_def [go_eval]
  v6_finish_def [go_eval] parse_v6_def [go_eval] parse_addr_def [go_eval] bit_len_def [go_eval]
  zone_of_def [go_eval] parse_prefix_def [go_eval] parse_ip_def [go_eval] mask4_def [go_eval]
  mask6_def [go_eval] ipnet_of_def [go_eval] parse_cidr_def [go_eval] is_4in6_def [go_eval]
  to4_def [go_eval] prefix_contains_def [go_eval] ipnet_contains_def [go_eval] unmap_def [go_eval]
  is_loopback_def [go_eval] is_unspecified_def [go_eval] is_link_local_unicast_def [go_eval]
  is_multicast_def [go_eval] is_private_def [go_eval] show_v4_def [go_eval] mask_numeral [go_eval]
  has_char_def [go_eval] SplitHostPort_def [go_eval]


subsection \<open>Addresses with ports\<close>

text \<open>\<^verbatim>\<open>netip.ParseAddrPort\<close>: the last colon splits, and brackets go with IPv6 exactly.\<close>

definition ParseAddrPort :: "string \<Rightarrow> (addr \<times> u16) option" where
  "ParseAddrPort s =
     (if CHR '':'' \<notin> set s then None
      else
        (let port = rev (takeWhile (\<lambda>c. c \<noteq> CHR '':'') (rev s));
             ip = take (length s - length port - 1) s;
             v6 = (ip \<noteq> [] \<and> hd ip = CHR ''['')
         in if ip = [] \<or> port = [] then None
            else if v6 \<and> (length ip < 2 \<or> last ip \<noteq> CHR '']'') then None
            else if \<not> list_all is_digit port \<or> 65535 < atoi port then None
            else
              (case parse_addr (if v6 then butlast (tl ip) else ip) of
                 None \<Rightarrow> None
               | Some (V4 w) \<Rightarrow> if v6 then None else Some (V4 w, of_nat (atoi port))
               | Some (V6 w z) \<Rightarrow> if v6 then Some (V6 w z, of_nat (atoi port)) else None)))"


subsection \<open>Hexadecimal text\<close>

definition hex_digit :: "nat \<Rightarrow> char" where
  "hex_digit n = ''0123456789abcdef'' ! n"

definition EncodeToString :: "byte list \<Rightarrow> string" where
  "EncodeToString b = concat (map (\<lambda>x. [hex_digit (unat x div 16), hex_digit (unat x mod 16)]) b)"

declare ParseAddrPort_def [go_eval] hex_digit_def [go_eval] EncodeToString_def [go_eval]


subsection \<open>Printed addresses\<close>

lemma show_v4_scan:
  "\<exists>t. dropWhile (\<lambda>c. c \<noteq> CHR ''.'' \<and> c \<noteq> CHR '':'' \<and> c \<noteq> CHR ''%'') (show_v4 w) = CHR ''.'' # t"
proof -
  let ?P = "\<lambda>c. c \<noteq> CHR ''.'' \<and> c \<noteq> CHR '':'' \<and> c \<noteq> CHR ''%''"
  have "\<And>c n. c \<in> set (itoa n) \<Longrightarrow> ?P c" by (auto dest!: itoa_digits simp: is_digit_def)
  then show ?thesis by (simp add: show_v4_def dropWhile_append2)
qed

lemma parse_addr_show_v4 [simp]: "parse_addr (show_v4 w) = Some (V4 w)"
  using show_v4_scan [of w] by (auto simp: parse_addr_def)

lemma parse_ip_show_v4 [simp]: "parse_ip (show_v4 w) = Some (V4 w)"
  by (simp add: parse_ip_def zone_of_def)

lemma show_v4_Cons: "\<exists>c r. show_v4 w = c # r \<and> is_digit c"
proof (cases "itoa (unat w div 16777216)")
  case (Cons c r)
  then show ?thesis using itoa_digits [of c "unat w div 16777216"] by (simp add: show_v4_def)
qed simp

lemma ParseAddrPort_v4:
  "ParseAddrPort (show_v4 w @ CHR '':'' # itoa p) = (if p \<le> 65535 then Some (V4 w, of_nat p) else None)"
proof -
  let ?s = "show_v4 w @ CHR '':'' # itoa p"
  have digits: "\<forall>c \<in> set (itoa p). c \<noteq> CHR '':''" by (auto dest!: itoa_digits simp: is_digit_def)
  have port: "takeWhile (\<lambda>c. c \<noteq> CHR '':'') (rev ?s) = rev (itoa p)"
    using digits takeWhile_append2 [of "rev (itoa p)" "\<lambda>c. c \<noteq> CHR '':''" "CHR '':'' # rev (show_v4 w)"] by simp
  obtain c r where c: "show_v4 w = c # r" "is_digit c" using show_v4_Cons by blast
  have hd: "hd (show_v4 w) \<noteq> CHR ''[''" "show_v4 w \<noteq> []" using c by (auto simp: is_digit_def)
  have all: "list_all is_digit (itoa p)" using itoa_digits by (auto simp: list_all_iff)
  show ?thesis unfolding ParseAddrPort_def port Let_def using hd all by simp
qed

end
