(* ===== verification/Domain.thy ===== *)
theory Domain
  imports Net_Addr
begin

text \<open>
  The data of the management server (\<^verbatim>\<open>management/internal/domain\<close>) and the messages of
  \<^verbatim>\<open>gen/common/v1\<close> it sends to the agents, with \<^verbatim>\<open>ToDNSLabel\<close>, which turns a host
  name into the label of a Magic DNS record. Each struct is a record with the fields of the
  source, prefixed by a short tag because field names are global.
\<close>

section \<open>Records\<close>

record Account =
  acc_ID :: string
  acc_Name :: string
  acc_CreatedAt :: gtime

record SetupKey =
  sk_ID :: string
  sk_AccountID :: string
  sk_Key :: string
  sk_Name :: string
  sk_Ephemeral :: bool
  sk_UsedCount :: int
  sk_AutoGroups :: "string list"
  sk_CreatedAt :: gtime
  sk_ExpiresAt :: gtime

record Group =
  g_ID :: string
  g_AccountID :: string
  g_Name :: string
  g_CreatedAt :: gtime

record Peer =
  p_ID :: string
  p_AccountID :: string
  p_WGPubKey :: string
  p_IP :: string
  p_LocalIP :: string
  p_PublicIP :: string
  p_Country :: string
  p_Hostname :: string
  p_OS :: string
  p_Kernel :: string
  p_Version :: string
  p_DNSLabel :: string
  p_Groups :: "string list"
  p_AllowedIPs :: "string list"
  p_AdvertisedRoutes :: "string list"
  p_ExitNode :: string
  p_Connected :: bool
  p_LastSeen :: gtime
  p_CreatedAt :: gtime

text \<open>The zero value of the struct, from which a composite literal starts.\<close>

definition zero_Peer :: Peer where
  "zero_Peer =
     \<lparr>p_ID = [], p_AccountID = [], p_WGPubKey = [], p_IP = [], p_LocalIP = [], p_PublicIP = [],
      p_Country = [], p_Hostname = [], p_OS = [], p_Kernel = [], p_Version = [], p_DNSLabel = [],
      p_Groups = [], p_AllowedIPs = [], p_AdvertisedRoutes = [], p_ExitNode = [],
      p_Connected = False, p_LastSeen = 0, p_CreatedAt = 0\<rparr>"

declare zero_Peer_def [go_eval]

record Rule =
  r_ID :: string
  r_AccountID :: string
  r_Name :: string
  r_Src :: string
  r_Dst :: string
  r_Protocol :: string
  r_Port :: int
  r_Action :: string
  r_Enabled :: bool
  r_Priority :: int
  r_CreatedAt :: gtime

definition DefaultGroupName :: string where
  "DefaultGroupName = ''Default''"

text \<open>The messages of \<^verbatim>\<open>common.v1\<close>; port and priority of a rule are 32-bit there.\<close>

record pb_Peer =
  pb_Id :: string
  pb_WgPubKey :: string
  pb_Ip :: string
  pb_Hostname :: string
  pb_Os :: string
  pb_AllowedIps :: "string list"
  pb_DnsLabel :: string
  pb_LocalIp :: string
  pb_PublicIp :: string
  pb_Country :: string

record pb_Route =
  rt_Id :: string
  rt_Network :: string
  rt_Gateway :: string
  rt_Metric :: int
  rt_Enabled :: bool

record pb_Rule =
  ru_Id :: string
  ru_Name :: string
  ru_Src :: string
  ru_Dst :: string
  ru_Protocol :: string
  ru_Port :: int
  ru_Action :: string
  ru_Enabled :: bool
  ru_Priority :: int

record pb_PeerMeta =
  m_Hostname :: string
  m_Os :: string
  m_Kernel :: string
  m_CoreVersion :: string
  m_LocalIp :: string

text \<open>Go's conversion \<^verbatim>\<open>int32(x)\<close>: the low 32 bits, read as two's complement.\<close>

definition int32 :: "int \<Rightarrow> int" where
  "int32 x = signed_take_bit 31 x"

text \<open>Go's conversion \<^verbatim>\<open>uint16(x)\<close>.\<close>

definition uint16 :: "int \<Rightarrow> u16" where
  "uint16 x = word_of_int x"

lemma int32_id [simp]: "- (2 ^ 31) \<le> x \<Longrightarrow> x < 2 ^ 31 \<Longrightarrow> int32 x = x"
  unfolding int32_def by (rule signed_take_bit_int_eq_self) simp_all


section \<open>DNS labels\<close>

text \<open>
  Decoding of UTF-8 the way Go ranges over a string: a byte that does not start a
  well-formed sequence is one replacement rune U+FFFD.
\<close>

definition cont :: "nat \<Rightarrow> bool" where
  "cont b \<longleftrightarrow> 0x80 \<le> b \<and> b \<le> 0xBF"

fun multi_rune :: "nat list \<Rightarrow> (nat \<times> nat) option" where
  "multi_rune (a # b # c # d # _) =
     (if 0xC2 \<le> a \<and> a \<le> 0xDF \<and> cont b then Some ((a - 0xC0) * 64 + (b - 0x80), 1)
      else if 0xE0 \<le> a \<and> a \<le> 0xEF \<and> cont b \<and> cont c \<and> (a = 0xE0 \<longrightarrow> 0xA0 \<le> b) \<and> (a = 0xED \<longrightarrow> b \<le> 0x9F)
        then Some ((a - 0xE0) * 4096 + (b - 0x80) * 64 + (c - 0x80), 2)
      else if 0xF0 \<le> a \<and> a \<le> 0xF4 \<and> cont b \<and> cont c \<and> cont d \<and> (a = 0xF0 \<longrightarrow> 0x90 \<le> b) \<and> (a = 0xF4 \<longrightarrow> b \<le> 0x8F)
        then Some ((a - 0xF0) * 262144 + (b - 0x80) * 4096 + (c - 0x80) * 64 + (d - 0x80), 3)
      else None)"
| "multi_rune [a, b, c] =
     (if 0xC2 \<le> a \<and> a \<le> 0xDF \<and> cont b then Some ((a - 0xC0) * 64 + (b - 0x80), 1)
      else if 0xE0 \<le> a \<and> a \<le> 0xEF \<and> cont b \<and> cont c \<and> (a = 0xE0 \<longrightarrow> 0xA0 \<le> b) \<and> (a = 0xED \<longrightarrow> b \<le> 0x9F)
        then Some ((a - 0xE0) * 4096 + (b - 0x80) * 64 + (c - 0x80), 2)
      else None)"
| "multi_rune [a, b] =
     (if 0xC2 \<le> a \<and> a \<le> 0xDF \<and> cont b then Some ((a - 0xC0) * 64 + (b - 0x80), 1) else None)"
| "multi_rune _ = None"

fun runes :: "nat list \<Rightarrow> nat list" where
  "runes [] = []"
| "runes (a # s) =
     (if a < 0x80 then a # runes s
      else (case multi_rune (a # s) of
              None \<Rightarrow> 0xFFFD # runes s
            | Some (r, k) \<Rightarrow> r # runes (drop k s)))"

text \<open>
  \<^verbatim>\<open>unicode.ToLower\<close>, as far as the label can see it: the ASCII letters, and the two
  other letters (U+0130 and U+212A) whose lower case is an ASCII letter. Every other letter
  has a lower case outside ASCII, and the next step replaces it by a hyphen either way.
\<close>

definition rune_lower :: "nat \<Rightarrow> nat" where
  "rune_lower r =
     (if 65 \<le> r \<and> r \<le> 90 then r + 32
      else if r = 0x130 then 0x69
      else if r = 0x212A then 0x6B
      else r)"

definition label_rune :: "nat \<Rightarrow> char" where
  "label_rune r =
     (if (97 \<le> r \<and> r \<le> 122) \<or> (48 \<le> r \<and> r \<le> 57) \<or> r = 45 then char_of r else CHR ''-'')"

text \<open>The argument \<open>uuid8\<close> is the first eight characters of a fresh UUID.\<close>

definition ToDNSLabel :: "string \<Rightarrow> string \<Rightarrow> string" where
  "ToDNSLabel uuid8 hostname =
     (let label = map (label_rune \<circ> rune_lower) (runes (map of_char hostname));
          label = trim_with (\<lambda>c. c = CHR ''-'') label
      in if label = [] then ''peer-'' @ uuid8 else label)"

definition label_char :: "char \<Rightarrow> bool" where
  "label_char c \<longleftrightarrow>
     (let n = of_char c :: nat in (97 \<le> n \<and> n \<le> 122) \<or> (48 \<le> n \<and> n \<le> 57) \<or> n = 45)"

text \<open>What the comment of \<^verbatim>\<open>ToDNSLabel\<close> promises of its result.\<close>

definition dns_label :: "string \<Rightarrow> bool" where
  "dns_label s \<longleftrightarrow> s \<noteq> [] \<and> list_all label_char s \<and> hd s \<noteq> CHR ''-'' \<and> last s \<noteq> CHR ''-''"


subsection \<open>Lemmas\<close>

lemma label_rune_char: "label_char (label_rune r)"
  by (auto simp: label_rune_def label_char_def Let_def)

lemma trim_hyphens_label:
  assumes "\<And>c. c \<in> set s \<Longrightarrow> label_char c"
    and "trim_with (\<lambda>c. c = CHR ''-'') s \<noteq> []"
  shows "dns_label (trim_with (\<lambda>c. c = CHR ''-'') s)"
  using assms trim_with_set [of "\<lambda>c. c = CHR ''-''" s]
    trim_with_hd [OF assms(2)] trim_with_last [OF assms(2)]
  by (auto simp: dns_label_def list_all_iff)

lemma runes_ascii: "(\<And>b. b \<in> set s \<Longrightarrow> b < 0x80) \<Longrightarrow> runes s = s"
  by (induction s) auto

lemma label_rune_of_label_char:
  assumes "label_char c"
  shows "label_rune (rune_lower (of_char c)) = c"
proof -
  from assms have "rune_lower (of_char c) = of_char c"
    by (auto simp: label_char_def rune_lower_def Let_def)
  with assms have "label_rune (rune_lower (of_char c)) = char_of (of_char c :: nat)"
    by (simp only: label_rune_def label_char_def Let_def if_True)
  then show ?thesis by simp
qed

lemma label_runes_id: "list_all label_char s \<Longrightarrow> map (label_rune \<circ> rune_lower) (runes (map of_char s)) = s"
proof -
  assume s: "list_all label_char s"
  then have "runes (map of_char s) = map of_char s"
    by (intro runes_ascii) (auto simp: list_all_iff label_char_def Let_def dest!: bspec)
  with s show ?thesis by (simp add: list_all_iff label_rune_of_label_char map_idI)
qed

lemma trim_with_id: "s \<noteq> [] \<Longrightarrow> \<not> P (hd s) \<Longrightarrow> \<not> P (last s) \<Longrightarrow> trim_with P s = s"
proof -
  assume s: "s \<noteq> []" "\<not> P (hd s)" "\<not> P (last s)"
  then have "dropWhile P s = s" by (cases s) auto
  moreover from s have "dropWhile P (rev s) = rev s" by (cases s rule: rev_cases) auto
  ultimately show ?thesis by (simp add: trim_with_def)
qed

declare
  DefaultGroupName_def [go_eval] int32_def [go_eval] uint16_def [go_eval] cont_def [go_eval]
  rune_lower_def [go_eval] label_rune_def [go_eval] ToDNSLabel_def [go_eval]
  label_char_def [go_eval] dns_label_def [go_eval]


section \<open>Properties\<close>



text \<open>
  A well-formed label is left as it is, so renaming a device to its own label changes
  nothing, and a label of any length can be reached: the sanitizer does not bound it.
\<close>

theorem ToDNSLabel_fixpoint:
  assumes "dns_label l"
  shows "ToDNSLabel uuid8 l = l"
  using assms by (simp add: ToDNSLabel_def dns_label_def label_runes_id trim_with_id)

theorem ToDNSLabel_fixpoint_witness:
  "ToDNSLabel ''0a1b2c3d'' (replicate 64 CHR ''a'') = replicate 64 CHR ''a''"
  using ToDNSLabel_fixpoint [of "replicate 64 CHR ''a''"]
  by (simp add: dns_label_def label_char_def list_all_iff)

end
