(* ===== verification/Store_Api.thy ===== *)
theory Store_Api
  imports Domain "HOL-Library.Multiset"
begin

text \<open>
  The persistence interface of the management server (\<^verbatim>\<open>management/internal/store\<close>) and
  its in-memory implementation (\<^verbatim>\<open>management/internal/store/memory\<close>).

  The Go interface \<^verbatim>\<open>store.Store\<close> is the record \<open>Store\<close> of its methods over a state
  type \<open>'st\<close>; what the services rely on is the locale \<open>store_laws\<close>, and the in-memory
  store is one interpretation of it. A method that can fail returns \<open>Inl\<close>.

  \<^verbatim>\<open>GetPeer\<close> of the in-memory store returns a pointer into the store, so an assignment
  to a field of the returned peer is visible in the store at once, without \<^verbatim>\<open>SavePeer\<close>.
  The method \<open>AssignPeer\<close> of the model is the effect of such an assignment on the store:
  it changes the entry in the in-memory store, and would be the identity in a store that
  returns copies. \<open>DerefPeer\<close> reads through a pointer that \<^verbatim>\<open>GetPeer\<close> returned earlier, when it
  pointed to the given value: the current entry in the in-memory store, the value itself
  in a store that returns copies.
\<close>

datatype store_error =
    SetupKeyNotFound | SetupKeyExpired | SetupKeyIdNotFound | GroupNotFound | PeerNotFound
  | RuleNotFound | StoreFailure

type_synonym 'a res = "store_error + 'a"

record 'st Store =
  GetOrCreateAccount :: "gtime \<Rightarrow> string \<Rightarrow> 'st \<Rightarrow> (Account \<times> 'st) res"
  GetSetupKey :: "gtime \<Rightarrow> string \<Rightarrow> 'st \<Rightarrow> SetupKey res"
  GetSetupKeysByAccount :: "string \<Rightarrow> 'st \<Rightarrow> SetupKey list res"
  CreateSetupKey :: "SetupKey \<Rightarrow> 'st \<Rightarrow> 'st res"
  DeleteSetupKey :: "string \<Rightarrow> string \<Rightarrow> 'st \<Rightarrow> 'st res"
  IncrementSetupKeyUsage :: "string \<Rightarrow> 'st \<Rightarrow> 'st res"
  GetGroupsByAccount :: "string \<Rightarrow> 'st \<Rightarrow> Group list res"
  CreateGroup :: "Group \<Rightarrow> 'st \<Rightarrow> 'st res"
  DeleteGroup :: "string \<Rightarrow> string \<Rightarrow> 'st \<Rightarrow> 'st res"
  GetPeer :: "string \<Rightarrow> 'st \<Rightarrow> Peer res"
  AssignPeer :: "string \<Rightarrow> (Peer \<Rightarrow> Peer) \<Rightarrow> 'st \<Rightarrow> 'st"
  DerefPeer :: "string \<Rightarrow> Peer \<Rightarrow> 'st \<Rightarrow> Peer"
  GetPeersByAccount :: "string \<Rightarrow> 'st \<Rightarrow> Peer list res"
  GetAllPeers :: "'st \<Rightarrow> Peer list res"
  SavePeer :: "Peer \<Rightarrow> 'st \<Rightarrow> 'st res"
  DeletePeer :: "string \<Rightarrow> 'st \<Rightarrow> 'st res"
  GetRulesByAccount :: "string \<Rightarrow> 'st \<Rightarrow> Rule list res"
  SaveRule :: "Rule \<Rightarrow> 'st \<Rightarrow> 'st res"
  DeleteRule :: "string \<Rightarrow> string \<Rightarrow> 'st \<Rightarrow> 'st res"


section \<open>The in-memory store\<close>

record mem_store =
  ms_accounts :: "(string, Account) gomap"
  ms_setupKeys :: "(string, SetupKey) gomap"
  ms_groups :: "(string, Group) gomap"
  ms_peers :: "(string, Peer) gomap"
  ms_rules :: "(string, Rule) gomap"

definition default_rule :: "gtime \<Rightarrow> string \<Rightarrow> Rule" where
  "default_rule now accountID =
     \<lparr>r_ID = accountID @ ''-default-allow'', r_AccountID = accountID, r_Name = ''Default allow'',
      r_Src = ''group:'' @ DefaultGroupName, r_Dst = ''group:'' @ DefaultGroupName,
      r_Protocol = ''all'', r_Port = 0, r_Action = ''allow'', r_Enabled = True,
      r_Priority = 1000, r_CreatedAt = now\<rparr>"

definition mem_New :: "string \<Rightarrow> gtime \<Rightarrow> string \<Rightarrow> mem_store" where
  "mem_New uuid now seedKey =
     (let accountID = ''default'' in
      \<lparr>ms_accounts = go_put accountID \<lparr>acc_ID = accountID, acc_Name = ''Default'', acc_CreatedAt = now\<rparr> [],
       ms_setupKeys =
         go_put seedKey
           \<lparr>sk_ID = uuid, sk_AccountID = accountID, sk_Key = seedKey, sk_Name = ''Default key'',
            sk_Ephemeral = False, sk_UsedCount = 0, sk_AutoGroups = [], sk_CreatedAt = now,
            sk_ExpiresAt = now + 365 * 24 * hour\<rparr> [],
       ms_groups =
         go_put (accountID @ ''-default'')
           \<lparr>g_ID = accountID @ ''-default'', g_AccountID = accountID, g_Name = DefaultGroupName,
            g_CreatedAt = now\<rparr> [],
       ms_peers = [],
       ms_rules = go_put (accountID @ ''-default-allow'') (default_rule now accountID) []\<rparr>)"

definition mem_GetOrCreateAccount :: "gtime \<Rightarrow> string \<Rightarrow> mem_store \<Rightarrow> (Account \<times> mem_store) res" where
  "mem_GetOrCreateAccount now i s =
     (case go_get (ms_accounts s) i of
        Some a \<Rightarrow> Inr (a, s)
      | None \<Rightarrow>
          (let a = \<lparr>acc_ID = i, acc_Name = i, acc_CreatedAt = now\<rparr>
           in Inr (a, s\<lparr>ms_accounts := go_put i a (ms_accounts s)\<rparr>)))"

definition mem_GetSetupKey :: "gtime \<Rightarrow> string \<Rightarrow> mem_store \<Rightarrow> SetupKey res" where
  "mem_GetSetupKey now key s =
     (case go_get (ms_setupKeys s) key of
        None \<Rightarrow> Inl SetupKeyNotFound
      | Some sk \<Rightarrow> if sk_ExpiresAt sk < now then Inl SetupKeyExpired else Inr sk)"

definition mem_CreateSetupKey :: "SetupKey \<Rightarrow> mem_store \<Rightarrow> mem_store res" where
  "mem_CreateSetupKey sk s = Inr (s\<lparr>ms_setupKeys := go_put (sk_Key sk) sk (ms_setupKeys s)\<rparr>)"

definition mem_GetSetupKeysByAccount :: "string \<Rightarrow> mem_store \<Rightarrow> SetupKey list res" where
  "mem_GetSetupKeysByAccount accountID s =
     Inr (filter (\<lambda>sk. sk_AccountID sk = accountID) (go_values (ms_setupKeys s)))"

definition mem_DeleteSetupKey :: "string \<Rightarrow> string \<Rightarrow> mem_store \<Rightarrow> mem_store res" where
  "mem_DeleteSetupKey accountID i s =
     (case find (\<lambda>(k, sk). sk_ID sk = i \<and> sk_AccountID sk = accountID) (ms_setupKeys s) of
        Some (k, _) \<Rightarrow> Inr (s\<lparr>ms_setupKeys := go_del k (ms_setupKeys s)\<rparr>)
      | None \<Rightarrow> Inl SetupKeyNotFound)"

definition mem_IncrementSetupKeyUsage :: "string \<Rightarrow> mem_store \<Rightarrow> mem_store res" where
  "mem_IncrementSetupKeyUsage keyID s =
     (case find (\<lambda>(k, sk). sk_ID sk = keyID) (ms_setupKeys s) of
        Some (k, sk) \<Rightarrow>
          Inr (s\<lparr>ms_setupKeys := go_put k (sk\<lparr>sk_UsedCount := sk_UsedCount sk + 1\<rparr>) (ms_setupKeys s)\<rparr>)
      | None \<Rightarrow> Inl SetupKeyIdNotFound)"

definition mem_GetGroupsByAccount :: "string \<Rightarrow> mem_store \<Rightarrow> Group list res" where
  "mem_GetGroupsByAccount accountID s =
     Inr (sort_key g_CreatedAt (filter (\<lambda>g. g_AccountID g = accountID) (go_values (ms_groups s))))"

definition mem_CreateGroup :: "Group \<Rightarrow> mem_store \<Rightarrow> mem_store res" where
  "mem_CreateGroup g s = Inr (s\<lparr>ms_groups := go_put (g_ID g) g (ms_groups s)\<rparr>)"

definition mem_DeleteGroup :: "string \<Rightarrow> string \<Rightarrow> mem_store \<Rightarrow> mem_store res" where
  "mem_DeleteGroup accountID i s =
     (case go_get (ms_groups s) i of
        None \<Rightarrow> Inl GroupNotFound
      | Some g \<Rightarrow>
          if g_AccountID g \<noteq> accountID then Inl GroupNotFound
          else Inr (s\<lparr>ms_groups := go_del i (ms_groups s)\<rparr>))"

definition mem_GetPeer :: "string \<Rightarrow> mem_store \<Rightarrow> Peer res" where
  "mem_GetPeer wgPubKey s =
     (case go_get (ms_peers s) wgPubKey of None \<Rightarrow> Inl PeerNotFound | Some p \<Rightarrow> Inr p)"

text \<open>An assignment through the pointer \<^verbatim>\<open>GetPeer\<close> returned for this key.\<close>

definition mem_AssignPeer :: "string \<Rightarrow> (Peer \<Rightarrow> Peer) \<Rightarrow> mem_store \<Rightarrow> mem_store" where
  "mem_AssignPeer wgPubKey f s =
     (case go_get (ms_peers s) wgPubKey of
        None \<Rightarrow> s
      | Some p \<Rightarrow> s\<lparr>ms_peers := go_put wgPubKey (f p) (ms_peers s)\<rparr>)"

definition mem_DerefPeer :: "string \<Rightarrow> Peer \<Rightarrow> mem_store \<Rightarrow> Peer" where
  "mem_DerefPeer wgPubKey p s =
     (case go_get (ms_peers s) wgPubKey of None \<Rightarrow> p | Some q \<Rightarrow> q)"

definition mem_GetPeersByAccount :: "string \<Rightarrow> mem_store \<Rightarrow> Peer list res" where
  "mem_GetPeersByAccount accountID s =
     Inr (filter (\<lambda>p. p_AccountID p = accountID) (go_values (ms_peers s)))"

definition mem_GetAllPeers :: "mem_store \<Rightarrow> Peer list res" where
  "mem_GetAllPeers s = Inr (go_values (ms_peers s))"

definition mem_SavePeer :: "Peer \<Rightarrow> mem_store \<Rightarrow> mem_store res" where
  "mem_SavePeer p s = Inr (s\<lparr>ms_peers := go_put (p_WGPubKey p) p (ms_peers s)\<rparr>)"

definition mem_DeletePeer :: "string \<Rightarrow> mem_store \<Rightarrow> mem_store res" where
  "mem_DeletePeer wgPubKey s = Inr (s\<lparr>ms_peers := go_del wgPubKey (ms_peers s)\<rparr>)"

definition mem_GetRulesByAccount :: "string \<Rightarrow> mem_store \<Rightarrow> Rule list res" where
  "mem_GetRulesByAccount accountID s =
     Inr (sort_key r_Priority (filter (\<lambda>r. r_AccountID r = accountID) (go_values (ms_rules s))))"

definition mem_SaveRule :: "Rule \<Rightarrow> mem_store \<Rightarrow> mem_store res" where
  "mem_SaveRule r s = Inr (s\<lparr>ms_rules := go_put (r_ID r) r (ms_rules s)\<rparr>)"

definition mem_DeleteRule :: "string \<Rightarrow> string \<Rightarrow> mem_store \<Rightarrow> mem_store res" where
  "mem_DeleteRule accountID i s =
     (case go_get (ms_rules s) i of
        None \<Rightarrow> Inl RuleNotFound
      | Some r \<Rightarrow>
          if r_AccountID r \<noteq> accountID then Inl RuleNotFound
          else Inr (s\<lparr>ms_rules := go_del i (ms_rules s)\<rparr>))"

definition mem_ops :: "mem_store Store" where
  "mem_ops =
     \<lparr>GetOrCreateAccount = mem_GetOrCreateAccount, GetSetupKey = mem_GetSetupKey,
      GetSetupKeysByAccount = mem_GetSetupKeysByAccount, CreateSetupKey = mem_CreateSetupKey,
      DeleteSetupKey = mem_DeleteSetupKey, IncrementSetupKeyUsage = mem_IncrementSetupKeyUsage,
      GetGroupsByAccount = mem_GetGroupsByAccount, CreateGroup = mem_CreateGroup,
      DeleteGroup = mem_DeleteGroup, GetPeer = mem_GetPeer, AssignPeer = mem_AssignPeer,
      DerefPeer = mem_DerefPeer,
      GetPeersByAccount = mem_GetPeersByAccount, GetAllPeers = mem_GetAllPeers,
      SavePeer = mem_SavePeer, DeletePeer = mem_DeletePeer,
      GetRulesByAccount = mem_GetRulesByAccount, SaveRule = mem_SaveRule,
      DeleteRule = mem_DeleteRule\<rparr>"

lemmas mem_defs =
  mem_New_def default_rule_def mem_GetOrCreateAccount_def mem_GetSetupKey_def
  mem_GetSetupKeysByAccount_def mem_CreateSetupKey_def mem_DeleteSetupKey_def
  mem_IncrementSetupKeyUsage_def mem_GetGroupsByAccount_def mem_CreateGroup_def
  mem_DeleteGroup_def mem_GetPeer_def mem_AssignPeer_def mem_DerefPeer_def mem_GetPeersByAccount_def
  mem_GetAllPeers_def mem_SavePeer_def mem_DeletePeer_def mem_GetRulesByAccount_def
  mem_SaveRule_def mem_DeleteRule_def

declare mem_defs [go_eval] mem_ops_def [go_eval] hour_def [go_eval] minute_def [go_eval] second_def [go_eval]


section \<open>What the services rely on\<close>

text \<open>
  The contract of the store with respect to peers. The predicate \<open>keeps\<close> describes the
  peers a save followed by a read gives back unchanged, and \<open>apart\<close> the peers whose identity no peer with
  another public key has, which a save must not confuse with them.
\<close>

locale store_laws =
  fixes ops :: "'st Store"
    and inv :: "'st \<Rightarrow> bool"
    and keeps :: "Peer \<Rightarrow> bool"
    and apart :: "Peer \<Rightarrow> 'st \<Rightarrow> bool"
  assumes peer_key: "inv st \<Longrightarrow> GetPeer ops k st = Inr p \<Longrightarrow> p_WGPubKey p = k"
    and peers_of_account:
      "inv st \<Longrightarrow> GetPeersByAccount ops a st = Inr ps \<Longrightarrow>
         p \<in> set ps \<longleftrightarrow> (\<exists>k. GetPeer ops k st = Inr p) \<and> p_AccountID p = a"
    and peers_distinct:
      "inv st \<Longrightarrow> GetPeersByAccount ops a st = Inr ps \<Longrightarrow> distinct (map p_WGPubKey ps)"
    and save_peer:
      "inv st \<Longrightarrow> keeps p \<Longrightarrow> SavePeer ops p st = Inr st' \<Longrightarrow> GetPeer ops (p_WGPubKey p) st' = Inr p"
    and save_other:
      "inv st \<Longrightarrow> apart p st \<Longrightarrow> SavePeer ops p st = Inr st' \<Longrightarrow> k \<noteq> p_WGPubKey p \<Longrightarrow>
         GetPeer ops k st' = GetPeer ops k st"
    and delete_peer:
      "inv st \<Longrightarrow> DeletePeer ops k st = Inr st' \<Longrightarrow>
         GetPeer ops k' st' = (if k' = k then Inl PeerNotFound else GetPeer ops k' st)"
    and assign_other:
      "inv st \<Longrightarrow> k' \<noteq> k \<Longrightarrow> GetPeer ops k' (AssignPeer ops k f st) = GetPeer ops k' st"
    and assign_same:
      "inv st \<Longrightarrow> GetPeer ops k (AssignPeer ops k f st) = GetPeer ops k st
         \<or> (\<exists>p. GetPeer ops k st = Inr p \<and> GetPeer ops k (AssignPeer ops k f st) = Inr (f p))"
    and deref: "inv st \<Longrightarrow> DerefPeer ops k p st = p \<or> GetPeer ops k st = Inr (DerefPeer ops k p st)"
    and rules_of_account:
      "GetRulesByAccount ops a st = Inr rs \<Longrightarrow> r \<in> set rs \<Longrightarrow> r_AccountID r = a"
    and increment_peer:
      "IncrementSetupKeyUsage ops i st = Inr st' \<Longrightarrow> GetPeer ops k st' = GetPeer ops k st"
    and inv_save: "inv st \<Longrightarrow> SavePeer ops p st = Inr st' \<Longrightarrow> inv st'"
    and inv_delete: "inv st \<Longrightarrow> DeletePeer ops k st = Inr st' \<Longrightarrow> inv st'"
    and inv_increment: "inv st \<Longrightarrow> IncrementSetupKeyUsage ops i st = Inr st' \<Longrightarrow> inv st'"
    and inv_assign: "inv st \<Longrightarrow> (\<And>p. p_WGPubKey (f p) = p_WGPubKey p) \<Longrightarrow> inv (AssignPeer ops k f st)"
begin

lemma peer_of_account_key:
  assumes "inv st" "GetPeersByAccount ops a st = Inr ps" "p \<in> set ps"
  shows "GetPeer ops (p_WGPubKey p) st = Inr p" and "p_AccountID p = a"
  using assms peers_of_account peer_key by metis+

lemma peers_of_account_unique:
  assumes "inv st" "GetPeersByAccount ops a st = Inr ps" "p \<in> set ps" "q \<in> set ps"
    and "p_WGPubKey p = p_WGPubKey q"
  shows "p = q"
  using assms peer_of_account_key(1) by (metis sum.inject(2))

end


subsection \<open>The in-memory store keeps the contract\<close>

definition mem_inv :: "mem_store \<Rightarrow> bool" where
  "mem_inv s \<longleftrightarrow>
     keyed acc_ID (ms_accounts s) \<and> keyed sk_Key (ms_setupKeys s) \<and> keyed g_ID (ms_groups s)
     \<and> keyed p_WGPubKey (ms_peers s) \<and> keyed r_ID (ms_rules s)"

lemma mem_inv_New: "mem_inv (mem_New uuid now seedKey)"
  by (simp add: mem_inv_def mem_New_def default_rule_def Let_def)

lemma mem_inv_accounts:
  "mem_inv s \<Longrightarrow> mem_GetOrCreateAccount now i s = Inr (a, s') \<Longrightarrow> mem_inv s'"
  by (auto simp: mem_inv_def mem_GetOrCreateAccount_def Let_def split: option.splits)

lemma mem_inv_setupKeys:
  assumes "mem_inv s"
  shows "mem_CreateSetupKey sk s = Inr s' \<Longrightarrow> mem_inv s'"
    and "mem_DeleteSetupKey acc i s = Inr s' \<Longrightarrow> mem_inv s'"
  using assms
  by (auto simp: mem_inv_def mem_CreateSetupKey_def mem_DeleteSetupKey_def split: option.splits)

lemma mem_inv_increment:
  assumes "mem_inv s" "mem_IncrementSetupKeyUsage i s = Inr s'"
  shows "mem_inv s'"
proof -
  from assms(2) obtain k sk where f: "find (\<lambda>(k, sk). sk_ID sk = i) (ms_setupKeys s) = Some (k, sk)"
    and s': "s' = s\<lparr>ms_setupKeys := go_put k (sk\<lparr>sk_UsedCount := sk_UsedCount sk + 1\<rparr>) (ms_setupKeys s)\<rparr>"
    by (auto simp: mem_IncrementSetupKeyUsage_def split: option.splits)
  have keyed: "keyed sk_Key (ms_setupKeys s)" using assms(1) by (simp add: mem_inv_def)
  have "go_get (ms_setupKeys s) k = Some sk" using find_in_map [OF keyed_wf [OF keyed] f] by simp
  then have "sk_Key sk = k" using keyedD [OF keyed] by simp
  with assms(1) show ?thesis by (simp add: mem_inv_def s')
qed

lemma mem_inv_groups:
  assumes "mem_inv s"
  shows "mem_CreateGroup g s = Inr s' \<Longrightarrow> mem_inv s'"
    and "mem_DeleteGroup acc i s = Inr s' \<Longrightarrow> mem_inv s'"
  using assms
  by (auto simp: mem_inv_def mem_CreateGroup_def mem_DeleteGroup_def split: option.splits if_splits)

lemma mem_inv_peers:
  assumes "mem_inv s"
  shows "mem_SavePeer p s = Inr s' \<Longrightarrow> mem_inv s'"
    and "mem_DeletePeer k s = Inr s' \<Longrightarrow> mem_inv s'"
  using assms by (auto simp: mem_inv_def mem_SavePeer_def mem_DeletePeer_def)

lemma mem_inv_assign:
  assumes "mem_inv s" "\<And>p. p_WGPubKey (f p) = p_WGPubKey p"
  shows "mem_inv (mem_AssignPeer k f s)"
  using assms keyedD [of p_WGPubKey "ms_peers s" k]
  by (auto simp: mem_inv_def mem_AssignPeer_def split: option.splits)

lemma mem_inv_rules:
  assumes "mem_inv s"
  shows "mem_SaveRule r s = Inr s' \<Longrightarrow> mem_inv s'"
    and "mem_DeleteRule acc i s = Inr s' \<Longrightarrow> mem_inv s'"
  using assms
  by (auto simp: mem_inv_def mem_SaveRule_def mem_DeleteRule_def split: option.splits if_splits)

lemmas mem_inv_steps =
  mem_inv_accounts mem_inv_setupKeys mem_inv_increment mem_inv_groups mem_inv_peers
  mem_inv_assign mem_inv_rules

lemma mem_GetPeer_Inr: "mem_GetPeer k s = Inr p \<longleftrightarrow> go_get (ms_peers s) k = Some p"
  by (auto simp: mem_GetPeer_def split: option.splits)

interpretation mem: store_laws mem_ops mem_inv "\<lambda>_. True" "\<lambda>_ _. True"
proof (unfold_locales, goal_cases)
  case (1 st k p)
  then show ?case
    by (auto simp: mem_ops_def mem_GetPeer_def mem_inv_def split: option.splits dest: keyedD)
next
  case (2 st a ps p)
  then have "go_wf (ms_peers st)" by (auto simp: mem_inv_def dest: keyed_wf)
  with 2 show ?case
    by (auto simp: mem_ops_def mem_GetPeer_Inr mem_GetPeersByAccount_def go_values_iff)
next
  case (3 st a ps)
  then have "distinct (map p_WGPubKey (go_values (ms_peers st)))"
    by (simp add: mem_inv_def keyed_values_distinct)
  with 3 show ?case
    by (auto simp: mem_ops_def mem_GetPeersByAccount_def distinct_map_filter)
next
  case (4 st p st')
  then show ?case by (auto simp: mem_ops_def mem_GetPeer_def mem_SavePeer_def go_maps)
next
  case (5 st p st' k)
  then show ?case by (auto simp: mem_ops_def mem_GetPeer_def mem_SavePeer_def go_maps)
next
  case (6 st k st' k')
  then show ?case by (auto simp: mem_ops_def mem_GetPeer_def mem_DeletePeer_def go_maps)
next
  case (7 st k' k f)
  then show ?case
    by (simp add: mem_ops_def mem_GetPeer_def mem_AssignPeer_def go_maps split: option.splits)
next
  case (8 st k f)
  then show ?case
    by (simp add: mem_ops_def mem_GetPeer_def mem_AssignPeer_def go_maps split: option.splits)
next
  case (9 st k p)
  then show ?case
    by (simp add: mem_ops_def mem_GetPeer_def mem_DerefPeer_def split: option.splits)
next
  case (10 a st rs r)
  then show ?case by (auto simp: mem_ops_def mem_GetRulesByAccount_def)
next
  case (11 i st st' k)
  then show ?case
    by (auto simp: mem_ops_def mem_GetPeer_def mem_IncrementSetupKeyUsage_def split: option.splits)
next
  case (12 st p st')
  then show ?case using mem_inv_peers(1) [of st p st'] by (simp add: mem_ops_def)
next
  case (13 st k st')
  then show ?case using mem_inv_peers(2) [of st k st'] by (simp add: mem_ops_def)
next
  case (14 st i st')
  then show ?case using mem_inv_increment [of st i st'] by (simp add: mem_ops_def)
next
  case (15 st f k)
  then show ?case using mem_inv_assign [of st f k] by (simp add: mem_ops_def)
qed


section \<open>Properties\<close>

text \<open>The rules of an account come back complete, without those of other accounts and in
  order of priority.\<close>

theorem rules_in_priority_order:
  assumes "mem_inv s"
  shows "\<exists>rs. mem_GetRulesByAccount a s = Inr rs \<and> sorted (map r_Priority rs)
    \<and> set rs = {r. (\<exists>i. go_get (ms_rules s) i = Some r) \<and> r_AccountID r = a}
    \<and> distinct (map r_ID rs)"
proof -
  let ?fs = "filter (\<lambda>r. r_AccountID r = a) (go_values (ms_rules s))"
  have k: "keyed r_ID (ms_rules s)" using assms by (simp add: mem_inv_def)
  have "set ?fs = {r. (\<exists>i. go_get (ms_rules s) i = Some r) \<and> r_AccountID r = a}"
    using go_values_iff [OF keyed_wf [OF k]] by auto
  moreover have "distinct (map r_ID ?fs)"
    using keyed_values_distinct [OF k] by (rule distinct_map_filter)
  moreover have "mset (map r_ID (sort_key r_Priority ?fs)) = mset (map r_ID ?fs)" by simp
  ultimately show ?thesis
    unfolding mem_GetRulesByAccount_def
    by (auto simp del: mset_map dest!: mset_eq_imp_distinct_iff)
qed

theorem rules_in_priority_order_witness:
  "\<exists>rs. mem_GetRulesByAccount ''default'' (mem_New ''u'' 0 ''seed'') = Inr rs \<and> map r_Priority rs = [1000]"
  using rules_in_priority_order [OF mem_inv_New, of "''default''" "''u''" 0 "''seed''"]
  by (simp add: mem_GetRulesByAccount_def mem_New_def default_rule_def go_values_def go_put_def Let_def)

end
