(* ===== verification/Ipam.thy ===== *)
theory Ipam
  imports Domain
begin

text \<open>
  Address allocation of the management server (\<^verbatim>\<open>management/internal/grpcserver/ipam.go\<close>).
  Addresses are 32-bit words and the arithmetic on them wraps around, as in the source. The
  mutex makes every method atomic, so a run of the allocator is a sequence of the steps
  \<^verbatim>\<open>Allocate\<close> and \<^verbatim>\<open>Release\<close> after start-up (\<^verbatim>\<open>NewIPAM\<close>, \<^verbatim>\<open>PreloadPeers\<close>).
\<close>

section \<open>Model\<close>

record IPAM =
  ipam_network :: ipnet
  ipam_next :: u32
  ipam_leased :: "(string, u32) gomap"

datatype ipam_error = PoolExhausted

text \<open>\<^verbatim>\<open>binary.BigEndian.Uint32\<close> of the base address and of the mask: their first four bytes.\<close>

definition net_base :: "ipnet \<Rightarrow> u32" where
  "net_base n = (case n of IPNet4 w _ \<Rightarrow> w | IPNet6 w _ \<Rightarrow> ucast (drop_bit 96 w))"

definition net_mask :: "ipnet \<Rightarrow> u32" where
  "net_mask n = (case n of IPNet4 _ k \<Rightarrow> mask4 k | IPNet6 _ k \<Rightarrow> ucast (drop_bit 96 (mask6 k)))"

definition hostToIP :: "u32 \<Rightarrow> string" where
  "hostToIP host = show_v4 host"

definition NewIPAM :: "string \<Rightarrow> IPAM option" where
  "NewIPAM cidr =
     (case parse_cidr cidr of
        None \<Rightarrow> None
      | Some (_, network) \<Rightarrow>
          Some \<lparr>ipam_network = network, ipam_next = net_base network + 1, ipam_leased = []\<rparr>)"

definition broadcast :: "IPAM \<Rightarrow> u32" where
  "broadcast i = net_base (ipam_network i) OR NOT (net_mask (ipam_network i))"

definition Allocate :: "string \<Rightarrow> IPAM \<Rightarrow> (ipam_error + string) \<times> IPAM" where
  "Allocate wgPubKey i =
     (case go_get (ipam_leased i) wgPubKey of
        Some host \<Rightarrow> (Inr (hostToIP host), i)
      | None \<Rightarrow>
          if broadcast i \<le> ipam_next i then (Inl PoolExhausted, i)
          else
            (let host = ipam_next i in
             (Inr (hostToIP host),
              i\<lparr>ipam_next := ipam_next i + 1,
                ipam_leased := go_put wgPubKey host (ipam_leased i)\<rparr>)))"

definition Release :: "string \<Rightarrow> IPAM \<Rightarrow> IPAM" where
  "Release wgPubKey i = i\<lparr>ipam_leased := go_del wgPubKey (ipam_leased i)\<rparr>"

definition preload_peer :: "Peer \<Rightarrow> IPAM \<Rightarrow> IPAM" where
  "preload_peer p i =
     (if p_IP p = [] then i
      else (case parse_ip (p_IP p) of
              None \<Rightarrow> i
            | Some ip \<Rightarrow>
                (case to4 ip of
                   None \<Rightarrow> i
                 | Some host \<Rightarrow>
                     (let i' = i\<lparr>ipam_leased := go_put (p_WGPubKey p) host (ipam_leased i)\<rparr> in
                      if ipam_next i' \<le> host then i'\<lparr>ipam_next := host + 1\<rparr> else i'))))"

definition PreloadPeers :: "Peer list \<Rightarrow> IPAM \<Rightarrow> IPAM" where
  "PreloadPeers peers i = fold preload_peer peers i"

declare
  net_base_def [go_eval] net_mask_def [go_eval] hostToIP_def [go_eval] NewIPAM_def [go_eval]
  broadcast_def [go_eval] Allocate_def [go_eval] Release_def [go_eval] preload_peer_def [go_eval]
  PreloadPeers_def [go_eval]



section \<open>The contract of an address pool\<close>

text \<open>What a client of the allocator relies on: a key holds at most one address, no two keys
  hold the same one, and an allocation returns the address the key holds afterwards.\<close>

datatype 'k pool_op = Take 'k | Give 'k

locale lease_pool =
  fixes alloc :: "'k \<Rightarrow> 's \<Rightarrow> ('e + 'a) \<times> 's"
    and free :: "'k \<Rightarrow> 's \<Rightarrow> 's"
    and holds :: "'s \<Rightarrow> 'k \<Rightarrow> 'a option"
    and inv :: "'s \<Rightarrow> bool"
  assumes alloc_inv: "inv s \<Longrightarrow> inv (snd (alloc k s))"
    and free_inv: "inv s \<Longrightarrow> inv (free k s)"
    and alloc_held: "holds s k = Some a \<Longrightarrow> alloc k s = (Inr a, s)"
    and alloc_holds: "alloc k s = (Inr a, s') \<Longrightarrow> holds s' = (holds s)(k \<mapsto> a)"
    and alloc_fail: "alloc k s = (Inl e, s') \<Longrightarrow> s' = s"
    and free_holds: "holds (free k s) = (holds s)(k := None)"
    and one_holder: "inv s \<Longrightarrow> holds s k = Some a \<Longrightarrow> holds s k' = Some a \<Longrightarrow> k = k'"
begin

primrec run_pool :: "'k pool_op list \<Rightarrow> 's \<Rightarrow> 's" where
  "run_pool [] s = s"
| "run_pool (x # xs) s =
     run_pool xs (case x of Take k \<Rightarrow> snd (alloc k s) | Give k \<Rightarrow> free k s)"

lemma alloc_keeps_holder: "holds s k = Some a \<Longrightarrow> holds (snd (alloc k' s)) k = Some a"
  by (cases "k = k'"; cases "alloc k' s"; cases "fst (alloc k' s)")
     (auto simp: alloc_held dest: alloc_holds alloc_fail)

lemma run_keeps_holder:
  "holds s k = Some a \<Longrightarrow> Give k \<notin> set xs \<Longrightarrow> holds (run_pool xs s) k = Some a"
proof (induction xs arbitrary: s)
  case (Cons x xs)
  then show ?case
    by (cases x) (simp_all add: free_holds alloc_keeps_holder fun_upd_apply)
qed simp

lemma run_inv: "inv s \<Longrightarrow> inv (run_pool xs s)"
  by (induction xs arbitrary: s) (auto simp: alloc_inv free_inv split: pool_op.splits)

lemma alloc_again:
  "alloc k s = (Inr a, s') \<Longrightarrow> Give k \<notin> set xs \<Longrightarrow> fst (alloc k (run_pool xs s')) = Inr a"
  by (drule alloc_holds, drule fun_cong [of _ _ k])
     (simp add: run_keeps_holder alloc_held)

lemma alloc_fresh:
  assumes "inv s" "holds s k' = Some b" "alloc k s = (Inr a, s')" "k \<noteq> k'"
  shows "a \<noteq> b"
proof
  assume "a = b"
  moreover have "holds s' = (holds s)(k \<mapsto> a)" using assms(3) by (rule alloc_holds)
  ultimately have "holds s' k = Some b" "holds s' k' = Some b" using assms by auto
  moreover have "inv s'" using alloc_inv [OF assms(1), of k] assms(3) by simp
  ultimately show False using one_holder assms(4) by blast
qed

end


section \<open>The allocator implements the contract\<close>

definition leases_distinct :: "IPAM \<Rightarrow> bool" where
  "leases_distinct i \<longleftrightarrow>
     (\<forall>k k' h. go_get (ipam_leased i) k = Some h \<longrightarrow> go_get (ipam_leased i) k' = Some h \<longrightarrow> k = k')"

definition leases_below :: "IPAM \<Rightarrow> bool" where
  "leases_below i \<longleftrightarrow> (\<forall>k h. go_get (ipam_leased i) k = Some h \<longrightarrow> h < ipam_next i)"

definition ipam_inv :: "IPAM \<Rightarrow> bool" where
  "ipam_inv i \<longleftrightarrow> leases_distinct i \<and> leases_below i"

definition lease_of :: "IPAM \<Rightarrow> string \<Rightarrow> string option" where
  "lease_of i k = map_option hostToIP (go_get (ipam_leased i) k)"

lemmas ipam_inv_defs = ipam_inv_def leases_distinct_def leases_below_def

lemma word_less_succ: "(a :: u32) < b \<Longrightarrow> a < a + 1"
  by unat_arith

lemma ipam_inv_put:
  assumes "ipam_inv i" "\<And>k' h'. go_get (ipam_leased i) k' = Some h' \<Longrightarrow> k' = k \<or> h' \<noteq> h"
    "ipam_next i \<le> n" "h < n"
  shows "ipam_inv (i\<lparr>ipam_next := n, ipam_leased := go_put k h (ipam_leased i)\<rparr>)"
proof -
  have "\<And>k' h'. go_get (ipam_leased i) k' = Some h' \<Longrightarrow> h' < n"
    using assms(1,3) unfolding ipam_inv_defs by (meson order_less_le_trans)
  then show ?thesis
    using assms unfolding ipam_inv_defs by (auto simp: go_get_put split: if_splits)
qed

lemma ipam_inv_Allocate: "ipam_inv i \<Longrightarrow> ipam_inv (snd (Allocate k i))"
proof (cases "go_get (ipam_leased i) k = None \<and> \<not> broadcast i \<le> ipam_next i")
  case True
  assume inv: "ipam_inv i"
  from True have "ipam_next i < broadcast i" by (simp add: not_le)
  hence lt: "ipam_next i < ipam_next i + 1" by (rule word_less_succ)
  from inv have below: "\<And>k' h'. go_get (ipam_leased i) k' = Some h' \<Longrightarrow> h' < ipam_next i"
    by (auto simp: ipam_inv_defs)
  have "ipam_inv (i\<lparr>ipam_next := ipam_next i + 1,
                    ipam_leased := go_put k (ipam_next i) (ipam_leased i)\<rparr>)"
    using inv lt below by (intro ipam_inv_put) auto
  with True show ?thesis by (simp add: Allocate_def Let_def)
qed (auto simp: Allocate_def Let_def split: option.splits)

lemma ipam_inv_Release: "ipam_inv i \<Longrightarrow> ipam_inv (Release k i)"
  by (auto simp: ipam_inv_defs Release_def go_get_del split: if_splits)

lemma hostToIP_inject [simp]: "hostToIP a = hostToIP b \<longleftrightarrow> a = b"
  by (simp add: hostToIP_def show_v4_inject)

lemma lease_of_Allocate:
  "Allocate k i = (Inr a, i') \<Longrightarrow> lease_of i' = (lease_of i)(k \<mapsto> a)"
  by (auto simp: Allocate_def Let_def lease_of_def go_get_put fun_eq_iff
      split: option.splits if_splits)

lemma lease_of_one_holder:
  "ipam_inv i \<Longrightarrow> lease_of i k = Some a \<Longrightarrow> lease_of i k' = Some a \<Longrightarrow> k = k'"
  by (auto simp: lease_of_def ipam_inv_defs)

lemma Allocate_held: "lease_of i k = Some a \<Longrightarrow> Allocate k i = (Inr a, i)"
  by (auto simp: lease_of_def Allocate_def)

lemma Allocate_fail: "Allocate k i = (Inl e, i') \<Longrightarrow> i' = i"
  by (auto simp: Allocate_def Let_def split: option.splits if_splits)

lemma lease_of_Release: "lease_of (Release k i) = (lease_of i)(k := None)"
  by (simp add: Release_def lease_of_def go_get_del fun_eq_iff)

interpretation pool: lease_pool Allocate Release lease_of ipam_inv
  by unfold_locales
     (fact ipam_inv_Allocate ipam_inv_Release Allocate_held lease_of_Allocate Allocate_fail
       lease_of_Release lease_of_one_holder)+


section \<open>Runs of the allocator\<close>

inductive ipam_step :: "IPAM \<Rightarrow> IPAM \<Rightarrow> bool" where
  step_Allocate: "ipam_step i (snd (Allocate k i))"
| step_Release: "ipam_step i (Release k i)"

text \<open>A pool as it is configured: a CIDR that does not start at 255.255.255.255, where
  \<^verbatim>\<open>base + 1\<close> wraps around to 0.0.0.0.\<close>

definition ipam_start :: "IPAM \<Rightarrow> bool" where
  "ipam_start i \<longleftrightarrow> (\<exists>cidr. NewIPAM cidr = Some i) \<and> net_base (ipam_network i) \<noteq> -1"

definition pool_inv :: "IPAM \<Rightarrow> bool" where
  "pool_inv i \<longleftrightarrow> ipam_inv i \<and> net_base (ipam_network i) < ipam_next i
     \<and> (\<forall>k h. go_get (ipam_leased i) k = Some h \<longrightarrow>
              net_base (ipam_network i) < h \<and> h < broadcast i)"

lemma word_succ_gt: "(a :: u32) \<noteq> -1 \<Longrightarrow> a < a + 1"
  using inc_less_eq_triv_imp not_le by blast

lemma broadcast_update [simp]:
  "broadcast (i\<lparr>ipam_next := n\<rparr>) = broadcast i" "broadcast (i\<lparr>ipam_leased := l\<rparr>) = broadcast i"
  by (simp_all add: broadcast_def)

lemma pool_inv_start: "ipam_start i \<Longrightarrow> pool_inv i"
  by (auto simp: ipam_start_def pool_inv_def NewIPAM_def ipam_inv_defs word_succ_gt
      split: option.splits)

lemma pool_inv_Allocate: "pool_inv i \<Longrightarrow> pool_inv (snd (Allocate k i))"
  using ipam_inv_Allocate [of i k]
  by (auto simp: pool_inv_def Allocate_def Let_def go_get_put not_le
      split: option.splits if_splits intro: order_less_trans word_less_succ)

lemma pool_inv_Release: "pool_inv i \<Longrightarrow> pool_inv (Release k i)"
  using ipam_inv_Release [of i k]
  by (auto simp: pool_inv_def Release_def go_get_del)

interpretation ipam: invariant_system ipam_start ipam_step pool_inv
  by unfold_locales
     (auto elim: ipam_step.cases simp: pool_inv_start pool_inv_Allocate pool_inv_Release)

text \<open>The counter never goes back, so it bounds every address ever handed out.\<close>

lemma ipam_step_next: "ipam_step i j \<Longrightarrow> ipam_next i \<le> ipam_next j"
  by (auto elim!: ipam_step.cases
      simp: Allocate_def Release_def Let_def not_le order_less_imp_le word_less_succ
      split: option.splits if_splits)

lemma ipam_run_next: "ipam_step\<^sup>*\<^sup>* i j \<Longrightarrow> ipam_next i \<le> ipam_next j"
  by (induction rule: rtranclp_induct) (auto dest: ipam_step_next)

lemma Allocate_fresh:
  "go_get (ipam_leased i) k = None \<Longrightarrow> Allocate k i = (Inr a, i') \<Longrightarrow> a = hostToIP (ipam_next i)"
  by (auto simp: Allocate_def Let_def split: if_splits)


section \<open>Restart\<close>

definition peer_host :: "Peer \<Rightarrow> u32 option" where
  "peer_host p = (if p_IP p = [] then None else Option.bind (parse_ip (p_IP p)) to4)"

lemma preload_peer_alt:
  "preload_peer p i =
     (case peer_host p of
        None \<Rightarrow> i
      | Some h \<Rightarrow> i\<lparr>ipam_next := (if ipam_next i \<le> h then h + 1 else ipam_next i),
                   ipam_leased := go_put (p_WGPubKey p) h (ipam_leased i)\<rparr>)"
  by (auto simp: preload_peer_def peer_host_def Let_def split: option.splits)

lemma ipam_inv_preload_peer:
  assumes "ipam_inv i" "peer_host p \<noteq> Some (-1)"
    "\<And>k h. go_get (ipam_leased i) k = Some h \<Longrightarrow> k = p_WGPubKey p \<or> peer_host p \<noteq> Some h"
  shows "ipam_inv (preload_peer p i)"
proof (cases "peer_host p")
  case (Some h)
  then have "h < h + 1" using assms(2) by (auto intro: word_succ_gt)
  then have "ipam_next i \<le> (if ipam_next i \<le> h then h + 1 else ipam_next i)"
    and "h < (if ipam_next i \<le> h then h + 1 else ipam_next i)"
    by (auto simp: not_le)
  then show ?thesis
    unfolding preload_peer_alt Some option.case
    using assms Some by (intro ipam_inv_put) auto
qed (use assms in \<open>simp add: preload_peer_alt\<close>)

lemma PreloadPeers_lease:
  "go_get (ipam_leased (PreloadPeers ps i)) k = Some h \<Longrightarrow>
     go_get (ipam_leased i) k = Some h \<or> (\<exists>p \<in> set ps. p_WGPubKey p = k \<and> peer_host p = Some h)"
  unfolding PreloadPeers_def
  by (induction ps arbitrary: i)
     (fastforce simp: preload_peer_alt go_get_put split: option.splits if_splits)+

lemma PreloadPeers_keeps:
  "k \<notin> p_WGPubKey ` set ps \<Longrightarrow>
     go_get (ipam_leased (PreloadPeers ps i)) k = go_get (ipam_leased i) k"
  unfolding PreloadPeers_def
  by (induction ps arbitrary: i) (auto simp: preload_peer_alt go_get_put split: option.splits)

lemma PreloadPeers_restores:
  "distinct (map p_WGPubKey ps) \<Longrightarrow> p \<in> set ps \<Longrightarrow> peer_host p = Some h \<Longrightarrow>
     go_get (ipam_leased (PreloadPeers ps i)) (p_WGPubKey p) = Some h"
proof (induction ps arbitrary: i)
  case (Cons q ps)
  have "PreloadPeers (q # ps) i = PreloadPeers ps (preload_peer q i)"
    by (simp add: PreloadPeers_def)
  with Cons show ?case
    by (auto simp: PreloadPeers_keeps preload_peer_alt)
qed simp

lemma ipam_inv_PreloadPeers:
  assumes "ipam_inv i" "\<And>p. p \<in> set ps \<Longrightarrow> peer_host p \<noteq> Some (-1)"
    "\<And>p q h. p \<in> set ps \<Longrightarrow> q \<in> set ps \<Longrightarrow> peer_host p = Some h \<Longrightarrow> peer_host q = Some h \<Longrightarrow>
       p_WGPubKey p = p_WGPubKey q"
    "\<And>p k h. p \<in> set ps \<Longrightarrow> go_get (ipam_leased i) k = Some h \<Longrightarrow>
       k = p_WGPubKey p \<or> peer_host p \<noteq> Some h"
  shows "ipam_inv (PreloadPeers ps i)"
  using assms
proof (induction ps arbitrary: i)
  case (Cons q ps)
  have "ipam_inv (PreloadPeers ps (preload_peer q i))"
  proof (rule Cons.IH)
    show "ipam_inv (preload_peer q i)"
      using Cons.prems(1) Cons.prems(2) [of q] Cons.prems(4) [of q]
      by (intro ipam_inv_preload_peer) simp_all
    fix p k h
    assume "p \<in> set ps" "go_get (ipam_leased (preload_peer q i)) k = Some h"
    then show "k = p_WGPubKey p \<or> peer_host p \<noteq> Some h"
      using Cons.prems(3) [of p q] Cons.prems(4) [of p k h]
      by (auto simp: preload_peer_alt go_get_put split: option.splits if_splits)
  next
    fix p
    assume "p \<in> set ps"
    then show "peer_host p \<noteq> Some (-1)" using Cons.prems(2) by simp
  next
    fix p q' h
    assume "p \<in> set ps" "q' \<in> set ps" "peer_host p = Some h" "peer_host q' = Some h"
    then show "p_WGPubKey p = p_WGPubKey q'" by (intro Cons.prems(3) [of p q' h]) simp_all
  qed
  then show ?case by (simp add: PreloadPeers_def)
qed (simp add: PreloadPeers_def)

lemma peer_host_show_v4: "p_IP p = show_v4 h \<Longrightarrow> peer_host p = Some h"
  using show_v4_scan [of h] by (auto simp: peer_host_def to4_def)


section \<open>Properties\<close>

lemma reachable_ipam_inv: "reach ipam_start ipam_step i \<Longrightarrow> ipam_inv i"
  by (auto dest: ipam.reachable_inv simp: pool_inv_def)

definition example_pool :: IPAM where
  "example_pool = the (NewIPAM ''100.64.0.0/10'')"

lemma example_pool_start: "ipam_start example_pool"
  unfolding ipam_start_def example_pool_def
  by (rule conjI, rule exI [of _ "''100.64.0.0/10''"]) (simp_all add: go_eval)

lemma example_pool_two:
  "reach ipam_start ipam_step (snd (Allocate ''b'' (snd (Allocate ''a'' example_pool))))"
  by (rule reach_step, rule reach_step, rule reach_init, rule example_pool_start)
     (rule step_Allocate)+



text \<open>A lease is stable: once a key was given an address, every later allocation for that key
  returns the same address and no allocation for another key returns it, whatever
  allocations and releases of other keys happen in between.\<close>

theorem ipam_lease_stable:
  assumes "reach ipam_start ipam_step i" "Allocate k i = (Inr a, i')" "Give k \<notin> set ops"
  shows "fst (Allocate k (pool.run_pool ops i')) = Inr a
    \<and> (\<forall>k'. fst (Allocate k' (pool.run_pool ops i')) = Inr a \<longrightarrow> k' = k)"
proof (intro conjI allI impI)
  show "fst (Allocate k (pool.run_pool ops i')) = Inr a"
    using assms(2,3) by (rule pool.alloc_again)
  fix k'
  assume *: "fst (Allocate k' (pool.run_pool ops i')) = Inr a"
  have "ipam_inv i'" using pool.alloc_inv [OF reachable_ipam_inv [OF assms(1)], of k] assms(2) by simp
  then have inv: "ipam_inv (pool.run_pool ops i')" by (rule pool.run_inv)
  have held: "lease_of (pool.run_pool ops i') k = Some a"
    using pool.run_keeps_holder [OF _ assms(3)] pool.alloc_holds [OF assms(2)] by simp
  show "k' = k"
    using pool.alloc_fresh [OF inv held, of k'] * by (cases "Allocate k' (pool.run_pool ops i')") auto
qed

theorem ipam_lease_stable_witness:
  "fst (Allocate ''a'' (pool.run_pool [Take ''b'', Give ''b'', Take ''c''] (snd (Allocate ''a'' example_pool))))
     = Inr ''100.64.0.1''"
  using ipam_lease_stable [OF reach_init [of ipam_start, OF example_pool_start], of "''a''" "''100.64.0.1''"
      "snd (Allocate ''a'' example_pool)" "[Take ''b'', Give ''b'', Take ''c'']"]
  by (simp add: example_pool_def go_eval)

text \<open>A released address is never handed out again: the allocator only moves forward, so
  after a release no later allocation for a key without a lease returns the released address.
  The comment on Release says the address goes back to the pool.\<close>

theorem ipam_release_not_recycled:
  assumes "reach ipam_start ipam_step i" "lease_of i k = Some a"
    "ipam_step\<^sup>*\<^sup>* (Release k i) j" "lease_of j k' = None"
  shows "fst (Allocate k' j) \<noteq> Inr a"
proof
  assume *: "fst (Allocate k' j) = Inr a"
  from assms(2) obtain h where h: "go_get (ipam_leased i) k = Some h" "a = hostToIP h"
    by (auto simp: lease_of_def)
  have "h < ipam_next i" using reachable_ipam_inv [OF assms(1)] h by (auto simp: ipam_inv_defs)
  also have "\<dots> \<le> ipam_next j" using ipam_run_next [OF assms(3)] by (simp add: Release_def)
  finally have "h \<noteq> ipam_next j" by simp
  moreover from assms(4) * have "a = hostToIP (ipam_next j)"
    by (cases "Allocate k' j") (auto simp: lease_of_def dest: Allocate_fresh)
  ultimately show False using h by simp
qed

theorem ipam_release_not_recycled_witness:
  "fst (Allocate ''c'' (Release ''a'' (snd (Allocate ''b'' (snd (Allocate ''a'' example_pool))))))
     \<noteq> Inr ''100.64.0.1''"
  using ipam_release_not_recycled [OF example_pool_two, of "''a''" "''100.64.0.1''"
      "Release ''a'' (snd (Allocate ''b'' (snd (Allocate ''a'' example_pool))))" "''c''"]
  by (simp add: example_pool_def lease_of_def go_eval)

text \<open>A restart keeps the addresses: after the persisted peers have been loaded into a new
  pool, every persisted peer is given the address it had, and a key that was not persisted
  is never given the address of a persisted peer.\<close>

theorem ipam_restart:
  assumes "NewIPAM cidr = Some i"
    "distinct (map p_WGPubKey ps)" "distinct (map p_IP ps)"
    "\<forall>p \<in> set ps. \<exists>h. p_IP p = hostToIP h \<and> h \<noteq> -1"
    "p \<in> set ps" "k \<noteq> p_WGPubKey p"
  shows "fst (Allocate (p_WGPubKey p) (PreloadPeers ps i)) = Inr (p_IP p)
    \<and> fst (Allocate k (PreloadPeers ps i)) \<noteq> Inr (p_IP p)"
proof -
  have host: "\<exists>h. peer_host q = Some h \<and> p_IP q = hostToIP h \<and> h \<noteq> -1" if "q \<in> set ps" for q
    using assms(4) that peer_host_show_v4 by (fastforce simp: hostToIP_def)
  have inj: "q = r" if "q \<in> set ps" "r \<in> set ps" "p_IP q = p_IP r" for q r
    using assms(3) that by (auto simp: distinct_map dest: inj_onD)
  have start: "ipam_inv i" "ipam_leased i = []"
    using assms(1) by (auto simp: NewIPAM_def ipam_inv_defs split: option.splits)
  have inv: "ipam_inv (PreloadPeers ps i)"
  proof (rule ipam_inv_PreloadPeers)
    fix q r h
    assume "q \<in> set ps" "r \<in> set ps" "peer_host q = Some h" "peer_host r = Some h"
    then show "p_WGPubKey q = p_WGPubKey r" using host [of q] host [of r] inj [of q r] by auto
  qed (use start host in \<open>auto dest: host\<close>)
  from host [OF assms(5)] obtain h where h: "peer_host p = Some h" "p_IP p = hostToIP h" by blast
  then have held: "lease_of (PreloadPeers ps i) (p_WGPubKey p) = Some (p_IP p)"
    using PreloadPeers_restores [OF assms(2,5)] by (simp add: lease_of_def)
  then show ?thesis
    using pool.alloc_held [OF held] pool.alloc_fresh [OF inv held _ assms(6)]
    by (cases "Allocate k (PreloadPeers ps i)") auto
qed

theorem ipam_restart_witness:
  "fst (Allocate ''a'' (PreloadPeers [zero_Peer\<lparr>p_WGPubKey := ''a'', p_IP := ''100.64.0.7''\<rparr>] example_pool))
     = Inr ''100.64.0.7''"
proof -
  have "NewIPAM ''100.64.0.0/10'' = Some example_pool"
    by (simp add: example_pool_def go_eval)
  from ipam_restart [OF this, of "[zero_Peer\<lparr>p_WGPubKey := ''a'', p_IP := ''100.64.0.7''\<rparr>]"
      "zero_Peer\<lparr>p_WGPubKey := ''a'', p_IP := ''100.64.0.7''\<rparr>" "''b''"]
  have "(\<exists>h. ''100.64.0.7'' = hostToIP h \<and> h \<noteq> -1) \<Longrightarrow> ?thesis" by simp
  moreover have "\<exists>h. ''100.64.0.7'' = hostToIP h \<and> h \<noteq> -1"
    by (rule exI [of _ 1681915911]) (simp add: go_eval)
  ultimately show ?thesis by simp
qed

end
