(* ===== verification/Rate_Limit.thy ===== *)
theory Rate_Limit
  imports Blinex_Prelude Complex_Main
begin

text \<open>
  The login rate limiter of the management server
  (\<^verbatim>\<open>management/internal/grpcserver/ratelimit.go\<close>): one token bucket per source address, five
  tokens deep, refilled at five tokens a minute. The clock reading is an argument. The
  \<^verbatim>\<open>float64\<close> token count is an exact rational here; rounding of the floating-point sum is
  not modelled.
\<close>

section \<open>Model\<close>

record tokenBucket =
  tb_tokens :: rat
  tb_lastTime :: gtime

record rateLimiter =
  rl_buckets :: "(string, tokenBucket) gomap"
  rl_cleaned :: gtime

definition rlCapacity :: rat where "rlCapacity = 5"
definition rlRate :: rat where "rlRate = 5 / 60"

definition seconds :: "duration \<Rightarrow> rat" where
  "seconds d = of_int d / 1000000000"

definition newRateLimiter :: "gtime \<Rightarrow> rateLimiter" where
  "newRateLimiter now = \<lparr>rl_buckets = [], rl_cleaned = now\<rparr>"

definition evict :: "gtime \<Rightarrow> rateLimiter \<Rightarrow> rateLimiter" where
  "evict now r =
     (if time_sub now (rl_cleaned r) > 2 * minute then
        r\<lparr>rl_buckets := filter (\<lambda>(_, b). \<not> time_sub now (tb_lastTime b) > 5 * minute) (rl_buckets r),
          rl_cleaned := now\<rparr>
      else r)"

definition Allow :: "gtime \<Rightarrow> string \<Rightarrow> rateLimiter \<Rightarrow> bool \<times> rateLimiter" where
  "Allow now key r0 =
     (let r = evict now r0 in
      case go_get (rl_buckets r) key of
        None \<Rightarrow>
          (True, r\<lparr>rl_buckets :=
                    go_put key \<lparr>tb_tokens = rlCapacity - 1, tb_lastTime = now\<rparr> (rl_buckets r)\<rparr>)
      | Some b \<Rightarrow>
          (let elapsed = seconds (time_sub now (tb_lastTime b));
               t1 = tb_tokens b + elapsed * rlRate;
               t2 = (if t1 > rlCapacity then rlCapacity else t1)
           in if t2 < 1
              then (False, r\<lparr>rl_buckets := go_put key \<lparr>tb_tokens = t2, tb_lastTime = now\<rparr> (rl_buckets r)\<rparr>)
              else (True, r\<lparr>rl_buckets := go_put key \<lparr>tb_tokens = t2 - 1, tb_lastTime = now\<rparr> (rl_buckets r)\<rparr>)))"

declare
  rlCapacity_def [go_eval] rlRate_def [go_eval] seconds_def [go_eval] newRateLimiter_def [go_eval]
  evict_def [go_eval] Allow_def [go_eval]


section \<open>The abstract limiter\<close>

text \<open>What a client sees of the limiter is, for every key, the number of tokens it would have
  at the time of the next call. A key without a bucket has a full one.\<close>

definition level :: "gtime \<Rightarrow> rateLimiter \<Rightarrow> string \<Rightarrow> rat" where
  "level now r k =
     (case go_get (rl_buckets r) k of
        None \<Rightarrow> rlCapacity
      | Some b \<Rightarrow> min rlCapacity (tb_tokens b + seconds (now - tb_lastTime b) * rlRate))"

definition bucket_ok :: "gtime \<Rightarrow> tokenBucket \<Rightarrow> bool" where
  "bucket_ok now b \<longleftrightarrow> 0 \<le> tb_tokens b \<and> tb_tokens b \<le> rlCapacity \<and> tb_lastTime b \<le> now"

definition limiter_inv :: "gtime \<Rightarrow> rateLimiter \<Rightarrow> bool" where
  "limiter_inv now r \<longleftrightarrow>
     go_wf (rl_buckets r) \<and> (\<forall>k b. go_get (rl_buckets r) k = Some b \<longrightarrow> bucket_ok now b)"

lemmas rl_consts = rlCapacity_def rlRate_def seconds_def

lemma seconds_mono: "d \<le> e \<Longrightarrow> seconds d \<le> seconds e"
  by (simp add: seconds_def divide_right_mono)

lemma limiter_inv_later: "limiter_inv t r \<Longrightarrow> t \<le> now \<Longrightarrow> limiter_inv now r"
  by (fastforce simp: limiter_inv_def bucket_ok_def)

text \<open>A bucket idle for five minutes is full, so dropping it changes no level.\<close>

lemma idle_bucket_full:
  assumes "bucket_ok now b" "5 * minute < time_sub now (tb_lastTime b)"
  shows "min rlCapacity (tb_tokens b + seconds (now - tb_lastTime b) * rlRate) = rlCapacity"
proof -
  have "5 * minute < now - tb_lastTime b"
    using assms(2) by (simp add: time_sub_gt time_defs)
  then have "seconds (5 * minute) \<le> seconds (now - tb_lastTime b)" by (simp add: seconds_mono)
  then have "seconds (5 * minute) * rlRate \<le> seconds (now - tb_lastTime b) * rlRate"
    by (rule mult_right_mono) (simp add: rlRate_def)
  then have "rlCapacity \<le> tb_tokens b + seconds (now - tb_lastTime b) * rlRate"
    using assms(1) by (auto simp: bucket_ok_def rl_consts time_defs diff_divide_distrib)
  then show ?thesis by (simp add: min_def)
qed

lemma level_evict: "limiter_inv now r \<Longrightarrow> level now (evict now r) k = level now r k"
  by (auto simp: evict_def level_def go_get_filter limiter_inv_def idle_bucket_full
      split: option.splits)

lemma limiter_inv_evict: "limiter_inv now r \<Longrightarrow> limiter_inv now (evict now r)"
  by (auto simp: evict_def limiter_inv_def go_get_filter split: option.splits if_splits)

lemma capped_elapsed:
  assumes "bucket_ok now b"
  shows "(if tb_tokens b + seconds (time_sub now (tb_lastTime b)) * rlRate > rlCapacity then rlCapacity
          else tb_tokens b + seconds (time_sub now (tb_lastTime b)) * rlRate)
    = min rlCapacity (tb_tokens b + seconds (now - tb_lastTime b) * rlRate)"
proof (cases "5 * minute < time_sub now (tb_lastTime b)")
  case True
  then have "seconds (5 * minute) \<le> seconds (time_sub now (tb_lastTime b))" by (simp add: seconds_mono)
  then have "seconds (5 * minute) * rlRate \<le> seconds (time_sub now (tb_lastTime b)) * rlRate"
    by (rule mult_right_mono) (simp add: rlRate_def)
  then have "rlCapacity < tb_tokens b + seconds (time_sub now (tb_lastTime b)) * rlRate"
    using assms by (simp add: bucket_ok_def rl_consts time_defs)
  then show ?thesis using idle_bucket_full [OF assms True] by simp
next
  case False
  then have "\<not> 5 * minute < now - tb_lastTime b" by (simp add: time_sub_gt time_defs)
  then have "time_sub now (tb_lastTime b) = now - tb_lastTime b"
    using assms by (simp add: bucket_ok_def time_sub_def time_defs)
  then show ?thesis by (simp add: min_def)
qed

text \<open>Each call refines the abstract step: it succeeds if and only if a token is left, takes
  one token from its own key and none from any other.\<close>

lemma Allow_level:
  assumes "limiter_inv now r"
  shows "Allow now k r =
    (let l = level now (evict now r) k in
     (1 \<le> l, (evict now r)\<lparr>rl_buckets :=
        go_put k \<lparr>tb_tokens = (if 1 \<le> l then l - 1 else l), tb_lastTime = now\<rparr>
          (rl_buckets (evict now r))\<rparr>))"
proof (cases "go_get (rl_buckets (evict now r)) k")
  case None
  then show ?thesis by (simp add: Allow_def level_def rlCapacity_def Let_def)
next
  case (Some b)
  with limiter_inv_evict [OF assms] have "bucket_ok now b" by (simp add: limiter_inv_def)
  from capped_elapsed [OF this] Some show ?thesis
    by (simp add: Allow_def level_def Let_def not_less not_le)
qed

lemma level_bounds: "limiter_inv now r \<Longrightarrow> 0 \<le> level now r k \<and> level now r k \<le> rlCapacity"
  by (auto simp: level_def limiter_inv_def bucket_ok_def rl_consts split: option.splits)

lemma level_put:
  "0 \<le> t \<Longrightarrow> t \<le> rlCapacity \<Longrightarrow>
     level now (r\<lparr>rl_buckets := go_put k \<lparr>tb_tokens = t, tb_lastTime = now\<rparr> (rl_buckets r)\<rparr>) k' =
       (if k' = k then t else level now r k')"
  by (simp add: level_def go_get_put seconds_def min_def)

lemma Allow_refines:
  assumes "limiter_inv now r"
  shows "fst (Allow now k r) \<longleftrightarrow> 1 \<le> level now r k"
    and "level now (snd (Allow now k r)) k' =
           (if k' = k \<and> 1 \<le> level now r k then level now r k - 1 else level now r k')"
    and "limiter_inv now (snd (Allow now k r))"
  using level_bounds [OF assms, of k] limiter_inv_evict [OF assms]
  by (auto simp: Allow_level [OF assms] Let_def level_evict [OF assms] level_put
      limiter_inv_def go_get_put bucket_ok_def split: if_splits)

text \<open>Between two calls a level evolves by itself: it is refilled up to the capacity.\<close>

lemma level_later:
  assumes "limiter_inv t r" "t \<le> now"
  shows "level now r k = min rlCapacity (level t r k + seconds (now - t) * rlRate)"
proof (cases "go_get (rl_buckets r) k")
  case None
  then show ?thesis using assms(2) by (simp add: level_def rl_consts)
next
  case (Some b)
  have "seconds (now - tb_lastTime b) * rlRate
      = seconds (t - tb_lastTime b) * rlRate + seconds (now - t) * rlRate"
    by (simp add: rl_consts field_simps)
  moreover have "0 \<le> seconds (now - t) * rlRate" using assms(2) by (simp add: rl_consts)
  ultimately show ?thesis using Some by (simp add: level_def min_def)
qed

lemma level_other_key:
  "limiter_inv t r \<Longrightarrow> k' \<noteq> k \<Longrightarrow> t \<le> now \<Longrightarrow>
     level now (snd (Allow t k r)) k' = level now r k'"
  by (subst level_later [of t], simp add: Allow_refines, simp)
     (subst level_later [of t r], simp_all add: Allow_refines)


section \<open>Sequences of calls\<close>

text \<open>A trace is the list of calls with their clock readings; \<^verbatim>\<open>accepted\<close> counts those for one key
  that the limiter lets through.\<close>

fun run_calls :: "(gtime \<times> string) list \<Rightarrow> rateLimiter \<Rightarrow> rateLimiter" where
  "run_calls [] r = r"
| "run_calls ((t, k) # cs) r = run_calls cs (snd (Allow t k r))"

fun accepted :: "string \<Rightarrow> (gtime \<times> string) list \<Rightarrow> rateLimiter \<Rightarrow> nat" where
  "accepted key [] r = 0"
| "accepted key ((t, k) # cs) r =
     (if k = key \<and> fst (Allow t k r) then 1 else 0) + accepted key cs (snd (Allow t k r))"

fun clock_runs :: "gtime \<Rightarrow> (gtime \<times> string) list \<Rightarrow> gtime \<Rightarrow> bool" where
  "clock_runs t0 [] t1 \<longleftrightarrow> t0 \<le> t1"
| "clock_runs t0 ((t, k) # cs) t1 \<longleftrightarrow> t0 \<le> t \<and> clock_runs t cs t1"

declare run_calls.simps [go_eval] accepted.simps [go_eval] clock_runs.simps [go_eval]

lemma clock_runs_le: "clock_runs t0 cs t1 \<Longrightarrow> t0 \<le> t1"
  by (induction cs arbitrary: t0) (auto intro: order_trans)

lemma limiter_inv_run:
  "limiter_inv t0 r \<Longrightarrow> clock_runs t0 cs t1 \<Longrightarrow> limiter_inv t1 (run_calls cs r)"
  by (induction cs r arbitrary: t0 rule: run_calls.induct)
     (auto intro: limiter_inv_later Allow_refines(3))

text \<open>The balance of tokens over a trace.\<close>

lemma accepted_balance:
  "limiter_inv t0 r \<Longrightarrow> clock_runs t0 cs t1 \<Longrightarrow>
     of_nat (accepted key cs r) + level t1 (run_calls cs r) key
       \<le> level t0 r key + seconds (t1 - t0) * rlRate"
proof (induction key cs r arbitrary: t0 rule: accepted.induct)
  case (1 key r)
  then show ?case using level_later [of t0 r t1 key] by simp
next
  case (2 key t k cs r)
  then have t: "t0 \<le> t" "clock_runs t cs t1" and inv: "limiter_inv t r"
    by (auto intro: limiter_inv_later)
  have "of_nat (accepted key cs (snd (Allow t k r)))
      + level t1 (run_calls cs (snd (Allow t k r))) key
      \<le> level t (snd (Allow t k r)) key + seconds (t1 - t) * rlRate"
    using "2.IH" inv t by (simp add: Allow_refines(3))
  moreover have "level t r key \<le> level t0 r key + seconds (t - t0) * rlRate"
    using level_later [OF "2.prems"(1) t(1)] by simp
  moreover have "seconds (t1 - t0) * rlRate = seconds (t1 - t) * rlRate + seconds (t - t0) * rlRate"
    by (simp add: rl_consts field_simps)
  ultimately show ?case
    using Allow_refines(1,2) [OF inv, of k] by (auto split: if_splits)
qed

lemma limiter_inv_new: "limiter_inv t (newRateLimiter t)"
  by (simp add: limiter_inv_def newRateLimiter_def)


lemma level_others:
  assumes "limiter_inv t0 r" "clock_runs t0 cs t1" "\<forall>(t, k) \<in> set cs. k \<noteq> key"
  shows "level t1 (run_calls cs r) key = level t1 r key"
  using assms
proof (induction cs r arbitrary: t0 rule: run_calls.induct)
  case (2 t k cs r)
  then have inv: "limiter_inv t r" by (auto intro: limiter_inv_later)
  from "2.prems" have "t \<le> t1" by (auto dest: clock_runs_le)
  then have "level t1 (snd (Allow t k r)) key = level t1 r key"
    using "2.prems"(3) inv by (intro level_other_key) auto
  then show ?case using "2.IH" [of t] "2.prems" inv by (simp add: Allow_refines(3))
qed simp


section \<open>Properties\<close>



text \<open>Sources do not interfere, and none is locked out for good: whatever calls other
  sources make in between, a call is answered as if they had not been made, and a source
  that has waited twelve seconds is let through.\<close>

theorem Allow_isolated:
  assumes "clock_runs s before t0" "clock_runs t0 cs t1" "\<forall>(t, k) \<in> set cs. k \<noteq> key"
  shows "fst (Allow t1 key (run_calls cs (run_calls before (newRateLimiter s))))
       = fst (Allow t1 key (run_calls before (newRateLimiter s)))
    \<and> (t0 + 12 * second \<le> t1 \<longrightarrow>
         fst (Allow t1 key (run_calls cs (run_calls before (newRateLimiter s)))))"
proof -
  let ?r = "run_calls before (newRateLimiter s)"
  have inv: "limiter_inv t0 ?r" using limiter_inv_run [OF limiter_inv_new assms(1)] .
  have le: "t0 \<le> t1" using assms(2) by (rule clock_runs_le)
  have eq: "level t1 (run_calls cs ?r) key = level t1 ?r key"
    using level_others [OF inv assms(2,3)] .
  have "1 \<le> level t1 ?r key" if "t0 + 12 * second \<le> t1"
  proof -
    have "seconds (12 * second) \<le> seconds (t1 - t0)" using that by (simp add: seconds_mono)
    then have "1 \<le> seconds (t1 - t0) * rlRate" by (simp add: rl_consts time_defs)
    then show ?thesis
      using level_later [OF inv le, of key] level_bounds [OF inv, of key] by (simp add: rlCapacity_def)
  qed
  then show ?thesis
    using Allow_refines(1) [OF limiter_inv_run [OF inv assms(2)], of key]
      Allow_refines(1) [OF limiter_inv_later [OF inv le], of key] eq by simp
qed

theorem Allow_isolated_witness:
  "fst (Allow (12 * second) ''a'' (run_calls [(5, ''b''), (6, ''c'')] (run_calls [(0, ''a'')] (newRateLimiter 0))))"
  using Allow_isolated [of 0 "[(0, ''a'')]" 0 "[(5, ''b''), (6, ''c'')]" "12 * second" "''a''"]
  by (auto simp: second_def)

end
