(* ===== verification/Mgmt_Auth.thy ===== *)
theory Mgmt_Auth
  imports Blinex_Prelude
begin

text \<open>
  Tokens of the management server (\<^verbatim>\<open>management/internal/auth/auth.go\<close>) and the gRPC
  interceptors that require them (\<^verbatim>\<open>management/internal/grpcserver/auth_interceptor.go\<close>).

  The library \<^verbatim>\<open>golang-jwt\<close> is a parameter: a record of the two functions the code calls,
  with the law \<^verbatim>\<open>jwt_round_trip\<close> the code relies on. A key function is a function from the
  signing method a token names to the key that is to verify it.
\<close>

section \<open>Model\<close>

record Claims =
  cl_PeerID :: string
  cl_WGPubKey :: string
  cl_AccountID :: string
  cl_Role :: string
  cl_IssuedAt :: "gtime option"
  cl_ExpiresAt :: "gtime option"

datatype signing_method = SigningMethodHMAC string | OtherMethod string

definition SigningMethodHS256 :: signing_method where
  "SigningMethodHS256 = SigningMethodHMAC ''HS256''"

text \<open>\<^verbatim>\<open>ParseWithClaims\<close> returns the claims and the flag \<^verbatim>\<open>Valid\<close>, or an error.\<close>

record jwt_lib =
  SignedString :: "string \<Rightarrow> Claims \<Rightarrow> string option"
  ParseWithClaims :: "(signing_method \<Rightarrow> string option) \<Rightarrow> gtime \<Rightarrow> string \<Rightarrow> (Claims \<times> bool) option"

definition NewNumericDate :: "gtime \<Rightarrow> gtime" where
  "NewNumericDate t = t - t mod second"

record Manager =
  am_secret :: string
  am_revoked :: "(string, gtime) gomap"

definition NewManager :: "string \<Rightarrow> Manager" where
  "NewManager secret = \<lparr>am_secret = secret, am_revoked = []\<rparr>"

definition IssueAdminToken :: "jwt_lib \<Rightarrow> gtime \<Rightarrow> string \<Rightarrow> Manager \<Rightarrow> string option" where
  "IssueAdminToken lib now accountID m =
     SignedString lib (am_secret m)
       \<lparr>cl_PeerID = [], cl_WGPubKey = [], cl_AccountID = accountID, cl_Role = ''admin'',
        cl_IssuedAt = Some (NewNumericDate now),
        cl_ExpiresAt = Some (NewNumericDate (now + 24 * hour))\<rparr>"

definition peer_claims :: "gtime \<Rightarrow> string \<Rightarrow> string \<Rightarrow> string \<Rightarrow> Claims" where
  "peer_claims now peerID wgPubKey accountID =
     \<lparr>cl_PeerID = peerID, cl_WGPubKey = wgPubKey, cl_AccountID = accountID, cl_Role = ''peer'',
      cl_IssuedAt = Some (NewNumericDate now),
      cl_ExpiresAt = Some (NewNumericDate (now + 24 * hour))\<rparr>"

definition IssueToken ::
  "jwt_lib \<Rightarrow> gtime \<Rightarrow> string \<Rightarrow> string \<Rightarrow> string \<Rightarrow> Manager \<Rightarrow> string option" where
  "IssueToken lib now peerID wgPubKey accountID m =
     SignedString lib (am_secret m) (peer_claims now peerID wgPubKey accountID)"

definition RevokeByWGKey :: "gtime \<Rightarrow> string \<Rightarrow> Manager \<Rightarrow> Manager" where
  "RevokeByWGKey now wgPubKey m = m\<lparr>am_revoked := go_put wgPubKey now (am_revoked m)\<rparr>"

text \<open>A revoked key whose token has no \<^verbatim>\<open>iat\<close> claim dereferences a nil pointer.\<close>

datatype auth_error = ParseError | InvalidToken | TokenRevoked | NilIssuedAt

definition hmac_keyfunc :: "Manager \<Rightarrow> signing_method \<Rightarrow> string option" where
  "hmac_keyfunc m method =
     (case method of SigningMethodHMAC _ \<Rightarrow> Some (am_secret m) | OtherMethod _ \<Rightarrow> None)"

definition ValidateToken :: "jwt_lib \<Rightarrow> gtime \<Rightarrow> string \<Rightarrow> Manager \<Rightarrow> auth_error + Claims" where
  "ValidateToken lib now tokenStr m =
     (case ParseWithClaims lib (hmac_keyfunc m) now tokenStr of
        None \<Rightarrow> Inl ParseError
      | Some (claims, valid) \<Rightarrow>
          if \<not> valid then Inl InvalidToken
          else (case go_get (am_revoked m) (cl_WGPubKey claims) of
                  None \<Rightarrow> Inr claims
                | Some revokedAt \<Rightarrow>
                    (case cl_IssuedAt claims of
                       None \<Rightarrow> Inl NilIssuedAt
                     | Some issuedAt \<Rightarrow>
                         if \<not> (revokedAt < issuedAt) then Inl TokenRevoked else Inr claims)))"

subsection \<open>Interceptors\<close>

datatype code =
  Canceled | InvalidArgument | NotFound | PermissionDenied | ResourceExhausted | Internal
| Unauthenticated

definition publicMethods :: "string list" where
  "publicMethods =
     [''/management.v1.ManagementService/Login'', ''/management.v1.ManagementService/GetServerKey'']"

text \<open>The incoming metadata: absent, or the values of the \<^verbatim>\<open>authorization\<close> header.\<close>

definition extractClaims ::
  "jwt_lib \<Rightarrow> gtime \<Rightarrow> string list option \<Rightarrow> Manager \<Rightarrow> code + Claims" where
  "extractClaims lib now md m =
     (case md of
        None \<Rightarrow> Inl Unauthenticated
      | Some [] \<Rightarrow> Inl Unauthenticated
      | Some (v # _) \<Rightarrow>
          (case ValidateToken lib now (trim_prefix v ''Bearer '') m of
             Inl _ \<Rightarrow> Inl Unauthenticated
           | Inr claims \<Rightarrow> Inr claims))"

text \<open>The handler gets the claims of the context it runs in, which is what
  \<^verbatim>\<open>claimsFromContext\<close> returns (\<^verbatim>\<open>nil\<close> is \<^term>\<open>None\<close>).\<close>

definition AuthUnaryInterceptor ::
  "jwt_lib \<Rightarrow> gtime \<Rightarrow> string \<Rightarrow> string list option \<Rightarrow> Manager
   \<Rightarrow> (Claims option \<Rightarrow> code + 'a) \<Rightarrow> code + 'a" where
  "AuthUnaryInterceptor lib now fullMethod md m handler =
     (if fullMethod \<in> set publicMethods then handler None
      else (case extractClaims lib now md m of
              Inl err \<Rightarrow> Inl err
            | Inr claims \<Rightarrow> handler (Some claims)))"

text \<open>The stream interceptor does the same; a stream handler returns an error or nil.\<close>

definition AuthStreamInterceptor ::
  "jwt_lib \<Rightarrow> gtime \<Rightarrow> string \<Rightarrow> string list option \<Rightarrow> Manager
   \<Rightarrow> (Claims option \<Rightarrow> code + 'a) \<Rightarrow> code + 'a" where
  "AuthStreamInterceptor lib now fullMethod md m handler =
     (if fullMethod \<in> set publicMethods then handler None
      else (case extractClaims lib now md m of
              Inl err \<Rightarrow> Inl err
            | Inr claims \<Rightarrow> handler (Some claims)))"

declare
  SigningMethodHS256_def [go_eval] NewNumericDate_def [go_eval] NewManager_def [go_eval]
  IssueAdminToken_def [go_eval] peer_claims_def [go_eval] IssueToken_def [go_eval]
  RevokeByWGKey_def [go_eval] hmac_keyfunc_def [go_eval] ValidateToken_def [go_eval]
  publicMethods_def [go_eval] extractClaims_def [go_eval] AuthUnaryInterceptor_def [go_eval]
  AuthStreamInterceptor_def [go_eval]


section \<open>What the code relies on\<close>

text \<open>A token that the library signed is parsed back to its claims by a key function that
  returns the signing key for HS256, as long as it has not expired.\<close>

definition not_expired :: "gtime \<Rightarrow> Claims \<Rightarrow> bool" where
  "not_expired now c = (case cl_ExpiresAt c of None \<Rightarrow> True | Some e \<Rightarrow> now < e)"

definition jwt_round_trip :: "jwt_lib \<Rightarrow> bool" where
  "jwt_round_trip lib \<longleftrightarrow>
     (\<forall>kf key c tok now.
        kf SigningMethodHS256 = Some key \<longrightarrow> SignedString lib key c = Some tok \<longrightarrow>
        ParseWithClaims lib kf now tok = (if not_expired now c then Some (c, True) else None))"

text \<open>A library with this law: the token lists the key and the claims in an escaped form.\<close>

definition enc_str :: "string \<Rightarrow> string" where
  "enc_str s = concat (map (\<lambda>c. [CHR ''_'', c]) s) @ ''.''"

fun dec_str :: "string \<Rightarrow> (string \<times> string) option" where
  "dec_str (c # r) =
     (if c = CHR ''.'' then Some ([], r)
      else (case r of
              [] \<Rightarrow> None
            | d # r' \<Rightarrow> map_option (\<lambda>(s, t). (d # s, t)) (dec_str r')))"
| "dec_str [] = None"

lemma dec_enc_str [simp]: "dec_str (enc_str s @ r) = Some (s, r)"
  by (induction s) (auto simp: enc_str_def)

lemma dec_enc_str_end [simp]: "dec_str (enc_str s) = Some (s, [])"
  using dec_enc_str [of s "[]"] by simp

definition enc_time :: "gtime option \<Rightarrow> string" where
  "enc_time t =
     (case t of None \<Rightarrow> [] | Some i \<Rightarrow> (if i < 0 then CHR ''-'' else CHR ''+'') # itoa (nat \<bar>i\<bar>))"

definition dec_time :: "string \<Rightarrow> gtime option" where
  "dec_time s =
     (case s of [] \<Rightarrow> None
      | c # r \<Rightarrow> Some (if c = CHR ''-'' then - int (atoi r) else int (atoi r)))"

lemma dec_enc_time [simp]: "dec_time (enc_time t) = t"
  by (auto simp: dec_time_def enc_time_def split: option.splits)

fun dec_all :: "nat \<Rightarrow> string \<Rightarrow> string list" where
  "dec_all 0 s = []"
| "dec_all (Suc n) s = (case dec_str s of None \<Rightarrow> [] | Some (x, r) \<Rightarrow> x # dec_all n r)"

lemma dec_all_enc: "length xs \<le> n \<Longrightarrow> dec_all n (concat (map enc_str xs)) = xs"
proof (induction xs arbitrary: n)
  case Nil
  show ?case by (cases n) simp_all
next
  case (Cons x xs)
  then show ?case by (cases n) auto
qed

lemma length_enc_all: "length xs \<le> length (concat (map enc_str xs))"
  by (induction xs) (auto simp: enc_str_def)

definition plain_jwt :: jwt_lib where
  "plain_jwt =
     \<lparr>SignedString = (\<lambda>key c. Some (concat (map enc_str
        [key, cl_PeerID c, cl_WGPubKey c, cl_AccountID c, cl_Role c,
         enc_time (cl_IssuedAt c), enc_time (cl_ExpiresAt c)]))),
      ParseWithClaims = (\<lambda>kf now tok.
        (case dec_all 7 tok of
           [key, i, w, a, r, t, e] \<Rightarrow>
             (let c = \<lparr>cl_PeerID = i, cl_WGPubKey = w, cl_AccountID = a, cl_Role = r,
                       cl_IssuedAt = dec_time t, cl_ExpiresAt = dec_time e\<rparr> in
              if kf SigningMethodHS256 = Some key \<and> not_expired now c then Some (c, True) else None)
         | _ \<Rightarrow> None))\<rparr>"

lemma plain_jwt_round_trip: "jwt_round_trip plain_jwt"
  by (auto simp: jwt_round_trip_def plain_jwt_def numeral_eq_Suc Let_def not_expired_def)


section \<open>Lemmas\<close>

lemma hmac_keyfunc_HS256 [simp]: "hmac_keyfunc m SigningMethodHS256 = Some (am_secret m)"
  by (simp add: hmac_keyfunc_def SigningMethodHS256_def)

text \<open>The verdict on a token the server issued, at any later time and after any revocations.\<close>

lemma ValidateToken_issued:
  assumes "jwt_round_trip lib" "IssueToken lib t0 peerID key acct m0 = Some tok"
    "am_secret m = am_secret m0"
  shows "ValidateToken lib now tok m =
    (if \<not> now < NewNumericDate (t0 + 24 * hour) then Inl ParseError
     else case go_get (am_revoked m) key of
            None \<Rightarrow> Inr (peer_claims t0 peerID key acct)
          | Some r \<Rightarrow> if NewNumericDate t0 \<le> r then Inl TokenRevoked
                      else Inr (peer_claims t0 peerID key acct))"
proof -
  let ?c = "peer_claims t0 peerID key acct"
  from assms(2,3) have "SignedString lib (am_secret m) ?c = Some tok"
    by (simp add: IssueToken_def)
  with assms(1) have "ParseWithClaims lib (hmac_keyfunc m) now tok =
      (if not_expired now ?c then Some (?c, True) else None)"
    using hmac_keyfunc_HS256 [of m] unfolding jwt_round_trip_def by blast
  then show ?thesis
    by (auto simp: ValidateToken_def not_expired_def peer_claims_def split: option.splits)
qed

text \<open>Later revocations, at clock readings that do not go back.\<close>

definition revoke_all :: "(gtime \<times> string) list \<Rightarrow> Manager \<Rightarrow> Manager" where
  "revoke_all rs m = fold (\<lambda>(t, k). RevokeByWGKey t k) rs m"

lemma secret_revoke [simp]: "am_secret (RevokeByWGKey t k m) = am_secret m"
  by (simp add: RevokeByWGKey_def)

lemma secret_revoke_all [simp]: "am_secret (revoke_all rs m) = am_secret m"
  unfolding revoke_all_def by (induction rs arbitrary: m) (auto simp: RevokeByWGKey_def)

lemma revoked_after:
  "go_get (am_revoked m) key = Some r \<Longrightarrow> t \<le> r \<Longrightarrow> \<forall>(u, k) \<in> set rs. t \<le> u \<Longrightarrow>
     \<exists>r'. go_get (am_revoked (revoke_all rs m)) key = Some r' \<and> t \<le> r'"
proof (induction rs arbitrary: m r)
  case (Cons x rs)
  obtain u k where x: "x = (u, k)" by force
  have "revoke_all (x # rs) m = revoke_all rs (RevokeByWGKey u k m)"
    by (simp add: revoke_all_def x)
  with Cons x show ?case
    by (cases "k = key") (auto simp: RevokeByWGKey_def go_get_put)
qed (auto simp: revoke_all_def)

lemma NewNumericDate_le: "NewNumericDate t \<le> t"
  by (simp add: NewNumericDate_def second_def)

text \<open>The header value a client sends.\<close>

definition bearer :: "string \<Rightarrow> string" where
  "bearer tok = ''Bearer '' @ tok"

lemma trim_bearer [simp]: "trim_prefix (bearer tok) ''Bearer '' = tok"
  by (simp add: bearer_def trim_prefix_def has_prefix_def)

lemma interceptor_bearer:
  assumes "fullMethod \<notin> set publicMethods"
  shows "AuthUnaryInterceptor lib now fullMethod (Some [bearer tok]) m h =
      (case ValidateToken lib now tok m of Inl _ \<Rightarrow> Inl Unauthenticated | Inr c \<Rightarrow> h (Some c))"
    and "AuthStreamInterceptor lib now fullMethod (Some [bearer tok]) m h' =
      (case ValidateToken lib now tok m of Inl _ \<Rightarrow> Inl Unauthenticated | Inr c \<Rightarrow> h' (Some c))"
  using assms
  by (simp_all add: AuthUnaryInterceptor_def AuthStreamInterceptor_def extractClaims_def
      split: sum.splits)


section \<open>Properties\<close>

text \<open>C14. Revocation is effective and final: once a key has been revoked, every token issued
  for that key up to then is refused at every later time, whatever keys are revoked
  afterwards, and both interceptors turn the call away before the handler runs.\<close>

theorem revoked_token_refused:
  assumes "jwt_round_trip lib" "IssueToken lib t0 peerID key acct m = Some tok" "t0 \<le> t"
    "\<forall>(u, k) \<in> set later. t \<le> u" "fullMethod \<notin> set publicMethods"
  shows "AuthUnaryInterceptor lib now fullMethod (Some [bearer tok])
           (revoke_all later (RevokeByWGKey t key m)) unary_handler = Inl Unauthenticated
    \<and> AuthStreamInterceptor lib now fullMethod (Some [bearer tok])
           (revoke_all later (RevokeByWGKey t key m)) stream_handler = Inl Unauthenticated"
proof -
  let ?m = "revoke_all later (RevokeByWGKey t key m)"
  obtain r where r: "go_get (am_revoked ?m) key = Some r" "t \<le> r"
    using revoked_after [of "RevokeByWGKey t key m" key t t later] assms(4)
    by (auto simp: RevokeByWGKey_def)
  have "NewNumericDate t0 \<le> r" using NewNumericDate_le [of t0] assms(3) r(2) by linarith
  then have "\<exists>e. ValidateToken lib now tok ?m = Inl e"
    using ValidateToken_issued [OF assms(1,2), of ?m now] r by auto
  then show ?thesis by (auto simp: interceptor_bearer [OF assms(5)])
qed

definition example_token :: string where
  "example_token = the (IssueToken plain_jwt (5 * second) ''p'' ''k'' ''acc'' (NewManager ''s''))"

theorem revoked_token_refused_witness:
  "AuthUnaryInterceptor plain_jwt (9 * second) ''/management.v1.ManagementService/Sync''
     (Some [bearer example_token])
     (revoke_all [(8 * second, ''other'')] (RevokeByWGKey (7 * second) ''k'' (NewManager ''s'')))
     (\<lambda>_. Inr ()) = Inl Unauthenticated"
proof -
  have "IssueToken plain_jwt (5 * second) ''p'' ''k'' ''acc'' (NewManager ''s'') = Some example_token"
    by (simp add: example_token_def IssueToken_def plain_jwt_def)
  from revoked_token_refused [OF plain_jwt_round_trip this, of "7 * second" "[(8 * second, ''other'')]"
      "''/management.v1.ManagementService/Sync''" "9 * second" "\<lambda>_. Inr ()" "\<lambda>_. Inr ()"]
  show ?thesis by (simp add: publicMethods_def second_def)
qed

text \<open>A token that the server issued and did not revoke opens the handlers for the peer it
  names and for no other, until it expires 24 hours later (to the second). Re-enrolling
  after a revocation gives a working token from the next full second on: a token issued
  in the same second as the revocation is refused, since the issue time is truncated.\<close>

theorem fresh_token_admits:
  assumes "jwt_round_trip lib" "IssueToken lib t0 peerID key acct m = Some tok"
    "fullMethod \<notin> set publicMethods"
    "now < NewNumericDate (t0 + 24 * hour)"
  shows "AuthUnaryInterceptor lib now fullMethod (Some [bearer tok]) m handler =
    (if \<exists>r. go_get (am_revoked m) key = Some r \<and> NewNumericDate t0 \<le> r then Inl Unauthenticated
     else handler (Some (peer_claims t0 peerID key acct)))"
  using ValidateToken_issued [OF assms(1,2), of m now] assms(4)
  by (auto simp: interceptor_bearer [OF assms(3)] split: option.splits)

theorem fresh_token_admits_witness:
  "AuthUnaryInterceptor plain_jwt (9 * second) ''/management.v1.ManagementService/Sync''
     (Some [bearer example_token]) (NewManager ''s'') (\<lambda>c. Inr (map_option cl_WGPubKey c))
     = Inr (Some ''k'')"
proof -
  have "IssueToken plain_jwt (5 * second) ''p'' ''k'' ''acc'' (NewManager ''s'') = Some example_token"
    by (simp add: example_token_def IssueToken_def plain_jwt_def)
  from fresh_token_admits [OF plain_jwt_round_trip this, of "''/management.v1.ManagementService/Sync''" "9 * second"
      "\<lambda>c. Inr (map_option cl_WGPubKey c)"]
  show ?thesis by (simp add: publicMethods_def NewManager_def NewNumericDate_def peer_claims_def time_defs)
qed

end
