(* ===== verification/Blocklist.thy ===== *)
theory Blocklist
  imports Blinex_Prelude "HOL-Library.List_Lexorder" "HOL-Library.Char_ord" "HOL-Library.Multiset"
begin

text \<open>
  The malicious-domain feed of the management server
  (\<^verbatim>\<open>management/internal/blocklist/blocklist.go\<close>). The HTTP exchange is an argument: the
  outcome of a request is absent (an error) or a status code with a body. SHA-256 in
  hexadecimal is an argument \<open>sha\<close>.
\<close>

section \<open>Model\<close>

record blocklist_Store =
  bl_domains :: "string list"
  bl_version :: string

definition NewStore :: blocklist_Store where
  "NewStore = \<lparr>bl_domains = [], bl_version = []\<rparr>"

definition Snapshot :: "blocklist_Store \<Rightarrow> string list \<times> string" where
  "Snapshot s = (bl_domains s, bl_version s)"

text \<open>\<^verbatim>\<open>bufio.Scanner\<close> with a buffer of at most one mebibyte: lines without their line feed and
  one carriage return before it, no empty last line, an error for a longer line.\<close>

definition max_token :: nat where "max_token = 1024 * 1024"

definition newline :: char where "newline = CHR 0x0A"
definition carriage_return :: char where "carriage_return = CHR 0x0D"

definition scan_lines :: "string \<Rightarrow> string list option" where
  "scan_lines body =
     (let ls = split_on newline body;
          ls' = (if last ls = [] then butlast ls else ls)
      in if list_ex (\<lambda>l. max_token \<le> length l) ls' then None
         else Some (map (\<lambda>l. trim_suffix l [carriage_return]) ls'))"

definition parse_line :: "string \<Rightarrow> string option" where
  "parse_line text =
     (let line = trim_space text in
      if line = [] \<or> has_prefix line ''#'' then None
      else
        (let fs = str_fields line;
             d0 = (if 2 \<le> length fs \<and> (fs ! 0 = ''0.0.0.0'' \<or> fs ! 0 = ''127.0.0.1'')
                   then fs ! 1 else fs ! 0);
             d = to_lower (trim_suffix d0 ''.'')
         in if d = [] \<or> d = ''localhost'' then None else Some d))"

definition parse :: "string \<Rightarrow> string list option" where
  "parse body =
     (case scan_lines body of
        None \<Rightarrow> None
      | Some ls \<Rightarrow>
          Some (go_keys (fold (\<lambda>l seen. case parse_line l of None \<Rightarrow> seen | Some d \<Rightarrow> go_put d () seen)
                           ls [])))"

definition fetch :: "(nat \<times> string) option \<Rightarrow> string list option" where
  "fetch resp =
     (case resp of
        None \<Rightarrow> None
      | Some (status, body) \<Rightarrow> if status \<noteq> 200 then None else parse body)"

definition hashDomains :: "(string \<Rightarrow> string) \<Rightarrow> string list \<Rightarrow> string" where
  "hashDomains sha domains = sha (concat (map (\<lambda>d. d @ [newline]) (sort domains)))"

definition refresh ::
  "(string \<Rightarrow> string) \<Rightarrow> (nat \<times> string) option \<Rightarrow> blocklist_Store \<Rightarrow> blocklist_Store" where
  "refresh sha resp s =
     (case fetch resp of
        None \<Rightarrow> s
      | Some domains \<Rightarrow> s\<lparr>bl_domains := domains, bl_version := hashDomains sha domains\<rparr>)"

text \<open>One fetch at the start and one for each tick, with the outcomes in the order they come.\<close>

definition Run ::
  "(string \<Rightarrow> string) \<Rightarrow> string \<Rightarrow> (nat \<times> string) option list \<Rightarrow> blocklist_Store \<Rightarrow> blocklist_Store" where
  "Run sha feedURL resps s = (if feedURL = [] then s else fold (refresh sha) resps s)"

declare
  NewStore_def [go_eval] Snapshot_def [go_eval] max_token_def [go_eval] newline_def [go_eval]
  carriage_return_def [go_eval] scan_lines_def [go_eval] parse_line_def [go_eval]
  parse_def [go_eval] fetch_def [go_eval] hashDomains_def [go_eval] refresh_def [go_eval]
  Run_def [go_eval]


section \<open>Lemmas\<close>

text \<open>A name as it stands in the compiled list.\<close>

definition domain_ok :: "string \<Rightarrow> bool" where
  "domain_ok d \<longleftrightarrow> d \<noteq> [] \<and> d \<noteq> ''localhost'' \<and> to_lower d = d \<and> (\<forall>c \<in> set d. \<not> is_space c)"

lemma is_space_lower: "is_space (lower_char c) \<longleftrightarrow> is_space c"
  by (simp add: is_space_def of_char_lower)

lemma set_trim_suffix: "set (trim_suffix s p) \<subseteq> set s"
  by (auto simp: trim_suffix_def dest: in_set_takeD)

lemma parse_line_ok:
  assumes "parse_line l = Some d"
  shows "domain_ok d"
proof -
  let ?line = "trim_space l" and ?fs = "str_fields (trim_space l)"
  from assms have ne: "?line \<noteq> []" by (auto simp: parse_line_def Let_def split: if_splits)
  have "\<exists>c \<in> set ?line. \<not> is_space c"
    using ne trim_with_hd [of is_space l] by (auto simp: trim_space_def intro: bexI [of _ "hd ?line"])
  then have "?fs \<noteq> []" by (rule str_fields_nonempty)
  then have chars: "\<forall>c \<in> set (?fs ! 0). \<not> is_space c"
    "2 \<le> length ?fs \<Longrightarrow> \<forall>c \<in> set (?fs ! 1). \<not> is_space c"
    using str_fields_chars [of "?fs ! 0" ?line] str_fields_chars [of "?fs ! 1" ?line] by auto
  define d0 where "d0 = (if 2 \<le> length ?fs \<and> (?fs ! 0 = ''0.0.0.0'' \<or> ?fs ! 0 = ''127.0.0.1'')
    then ?fs ! 1 else ?fs ! 0)"
  have d0: "\<forall>c \<in> set d0. \<not> is_space c" using chars by (simp add: d0_def)
  have d: "d = to_lower (trim_suffix d0 ''.'')" "d \<noteq> []" "d \<noteq> ''localhost''"
    using assms by (auto simp: parse_line_def Let_def d0_def split: if_splits)
  moreover have "\<forall>c \<in> set d. \<not> is_space c"
    using d0 set_trim_suffix [of d0 "''.''"] by (auto simp: d(1) to_lower_def is_space_lower)
  ultimately show ?thesis by (simp add: domain_ok_def)
qed

lemma go_keys_put_set: "set (go_keys (go_put k v m)) = insert k (set (go_keys m))"
proof (rule set_eqI)
  fix x
  show "x \<in> set (go_keys (go_put k v m)) \<longleftrightarrow> x \<in> insert k (set (go_keys m))"
    using go_get_None_iff [of "go_put k v m" x] go_get_None_iff [of m x]
    by (auto simp: go_get_put split: if_splits)
qed

lemma seen_set:
  "set (go_keys (fold (\<lambda>l seen. case parse_line l of None \<Rightarrow> seen | Some d \<Rightarrow> go_put d () seen) ls m))
     = set (go_keys m) \<union> {d. \<exists>l \<in> set ls. parse_line l = Some d}"
  by (induction ls arbitrary: m) (auto simp: go_keys_put_set split: option.splits)

lemma seen_wf:
  "go_wf m \<Longrightarrow> go_wf (fold (\<lambda>l seen. case parse_line l of None \<Rightarrow> seen | Some d \<Rightarrow> go_put d () seen) ls m)"
  by (induction ls arbitrary: m) (auto split: option.splits)

lemma parse_set:
  assumes "parse body = Some ds"
  shows "distinct ds"
    and "\<exists>ls. scan_lines body = Some ls \<and> set ds = {d. \<exists>l \<in> set ls. parse_line l = Some d}"
proof -
  obtain ls where ls: "scan_lines body = Some ls"
    "ds = go_keys (fold (\<lambda>l seen. case parse_line l of None \<Rightarrow> seen | Some d \<Rightarrow> go_put d () seen) ls [])"
    using assms by (auto simp: parse_def split: option.splits)
  show "distinct ds" using seen_wf [of "[]" ls] by (simp add: ls(2) go_wf_def go_keys_def)
  have "set ds = {d. \<exists>l \<in> set ls. parse_line l = Some d}"
    unfolding ls(2) seen_set by (simp add: go_keys_def)
  with ls(1) show "\<exists>ls. scan_lines body = Some ls \<and> set ds = {d. \<exists>l \<in> set ls. parse_line l = Some d}"
    by blast
qed

lemma parse_domain_ok: "parse body = Some ds \<Longrightarrow> d \<in> set ds \<Longrightarrow> domain_ok d"
  using parse_set(2) [of body ds] parse_line_ok by auto

lemma newline_space [simp]: "is_space newline"
  by (simp add: is_space_def newline_def)

lemma domain_ok_newline: "domain_ok d \<Longrightarrow> newline \<notin> set d"
  using newline_space unfolding domain_ok_def by blast

lemma concat_terminated_inject:
  assumes "concat (map (\<lambda>d. d @ [c]) xs) = concat (map (\<lambda>d. d @ [c]) ys)"
    "\<forall>d \<in> set xs. c \<notin> set d" "\<forall>d \<in> set ys. c \<notin> set d"
  shows "xs = ys"
  using assms
proof (induction xs arbitrary: ys)
  case Nil
  then show ?case by (cases ys) auto
next
  case (Cons x xs)
  then obtain y zs where ys: "ys = y # zs" by (cases ys) auto
  have eq: "x @ c # concat (map (\<lambda>d. d @ [c]) xs) = y @ c # concat (map (\<lambda>d. d @ [c]) zs)"
    using Cons.prems(1) by (simp add: ys)
  have "takeWhile (\<lambda>a. a \<noteq> c) (x @ c # r) = x" if "c \<notin> set x" for x r
    using that by (induction x) auto
  then have "x = y" using eq Cons.prems(2,3) by (metis list.set_intros(1) ys)
  moreover have "xs = zs" using Cons.IH [of zs] Cons.prems eq \<open>x = y\<close> by (simp add: ys)
  ultimately show ?case by (simp add: ys)
qed

lemma sort_set_eq:
  fixes xs ys :: "string list"
  assumes "distinct xs" "distinct ys" "set xs = set ys"
  shows "sort xs = sort ys"
  using assms by (metis properties_for_sort set_eq_iff_mset_eq_distinct sorted_sort mset_sort)


section \<open>Properties\<close>

text \<open>The version names the list: two compiled feeds have the same version exactly when they
  block the same domains, whatever the order in which the map iteration lists them, as long
  as the hash does not collide on the two.\<close>

theorem version_identifies_domains:
  assumes "parse body = Some ds" "parse body' = Some ds'"
    and no_collision: "\<And>m m'. m = concat (map (\<lambda>d. d @ [newline]) (sort ds)) \<Longrightarrow>
      m' = concat (map (\<lambda>d. d @ [newline]) (sort ds')) \<Longrightarrow> sha m = sha m' \<Longrightarrow> m = m'"
  shows "hashDomains sha ds = hashDomains sha ds' \<longleftrightarrow> set ds = set ds'"
proof
  have no_newline: "newline \<notin> set d" if "d \<in> set ds \<union> set ds'" for d
    using that parse_domain_ok [OF assms(1)] parse_domain_ok [OF assms(2)] domain_ok_newline
    by blast
  assume "hashDomains sha ds = hashDomains sha ds'"
  then have "concat (map (\<lambda>d. d @ [newline]) (sort ds)) = concat (map (\<lambda>d. d @ [newline]) (sort ds'))"
    using no_collision by (simp add: hashDomains_def)
  then have "sort ds = sort ds'"
    by (rule concat_terminated_inject) (use no_newline in auto)
  then show "set ds = set ds'" by (metis set_sort)
next
  assume "set ds = set ds'"
  then show "hashDomains sha ds = hashDomains sha ds'"
    using sort_set_eq parse_set(1) assms(1,2) by (metis hashDomains_def)
qed

theorem version_identifies_domains_witness:
  "hashDomains id [''a.example'', ''b.example''] = hashDomains id [''b.example'', ''a.example'']"
proof -
  have "parse ''0.0.0.0 A.example.\<newline># x\<newline>b.example'' = Some [''a.example'', ''b.example'']"
    "parse ''b.example\<newline>127.0.0.1 a.example'' = Some [''b.example'', ''a.example'']"
    by (simp_all add: go_eval)
  from version_identifies_domains [OF this, of id] show ?thesis by auto
qed

text \<open>A failed fetch keeps the last good list: after any sequence of outcomes the server
  serves the domains of the last feed that could be fetched and parsed, under the version
  computed from them, and the empty list before the first one or without a feed URL.\<close>

theorem Run_serves_last_good:
  "Snapshot (Run sha feedURL resps NewStore) =
     (if feedURL = [] then ([], [])
      else case List.map_filter fetch (rev resps) of
             [] \<Rightarrow> ([], [])
           | ds # _ \<Rightarrow> (ds, hashDomains sha ds))"
proof (cases "feedURL = []")
  case False
  then show ?thesis
    by (induction resps rule: rev_induct)
       (auto simp: Run_def Snapshot_def NewStore_def refresh_def map_filter_simps
         split: option.splits list.splits)
qed (simp add: Run_def Snapshot_def NewStore_def)

end
