(* ===== verification/Mgmt_Grpc.thy ===== *)
theory Mgmt_Grpc
  imports Store_Api Ipam Rate_Limit Mgmt_Auth Blocklist
begin

text \<open>
  The management gRPC service (\<^verbatim>\<open>management/internal/grpcserver/server.go\<close>): enrolment
  (\<^verbatim>\<open>Login\<close>), the update stream (\<^verbatim>\<open>Sync\<close>), metadata, the block list, and the translation of
  peers and rules to the messages the agents receive.

  A handler takes the store's methods \<open>ops\<close>, the JWT library, a clock reading and the
  values it draws at random as arguments and returns its reply with the new state of the
  server. A buffered channel of capacity one is a flag in \<open>sv_chans\<close> under the address of
  the channel. A \<^verbatim>\<open>Sync\<close> stream is three steps: the start up to the first message, a push for
  each receive from the channel, and the deferred function at the end. A started GeoIP
  lookup is an entry of \<open>sv_lookups\<close> until its step \<open>resolveCountry\<close> runs.
\<close>

section \<open>State\<close>

record syncSub =
  sub_peerKey :: string
  sub_accountID :: string
  sub_ch :: nat

record 'st Server =
  sv_store :: 'st
  sv_auth :: Manager
  sv_ipam :: IPAM
  sv_network :: string
  sv_dns :: string
  sv_loginLimits :: rateLimiter
  sv_blocklist :: "blocklist_Store option"
  sv_subs :: "(string, syncSub) gomap"
  sv_chans :: "(nat, bool) gomap"
  sv_lookups :: "(string \<times> string) list"

definition New_Server ::
  "gtime \<Rightarrow> 'st \<Rightarrow> Manager \<Rightarrow> IPAM \<Rightarrow> string \<Rightarrow> string \<Rightarrow> blocklist_Store option \<Rightarrow> 'st Server" where
  "New_Server now st authMgr ipam networkCIDR dnsSuffix bl =
     \<lparr>sv_store = st, sv_auth = authMgr, sv_ipam = ipam, sv_network = networkCIDR,
      sv_dns = dnsSuffix, sv_loginLimits = newRateLimiter now, sv_blocklist = bl, sv_subs = [],
      sv_chans = [], sv_lookups = []\<rparr>"

definition GetServerKey :: string where
  "GetServerKey = ''SERVER_WG_PUBLIC_KEY_PLACEHOLDER''"

text \<open>The verb \<^verbatim>\<open>%d\<close> on a signed number, and the serial number of a reply.\<close>

definition fmt_d :: "int \<Rightarrow> string" where
  "fmt_d i = (if i < 0 then CHR ''-'' # itoa (nat (- i)) else itoa (nat i))"

definition serial :: "gtime \<Rightarrow> string" where
  "serial now = fmt_d (now - unix_epoch)"


section \<open>Subscriptions\<close>

definition registerSub :: "string \<Rightarrow> syncSub \<Rightarrow> 'st Server \<Rightarrow> 'st Server" where
  "registerSub key sub s = s\<lparr>sv_subs := go_put key sub (sv_subs s)\<rparr>"

definition unregisterSub :: "string \<Rightarrow> 'st Server \<Rightarrow> 'st Server" where
  "unregisterSub key s = s\<lparr>sv_subs := go_del key (sv_subs s)\<rparr>"

definition notifyAll :: "string \<Rightarrow> 'st Server \<Rightarrow> 'st Server" where
  "notifyAll accountID s =
     s\<lparr>sv_chans :=
         fold (\<lambda>sub chans. if sub_accountID sub \<noteq> accountID then chans
                           else go_put (sub_ch sub) True chans)
           (go_values (sv_subs s)) (sv_chans s)\<rparr>"

definition NotifyAccount :: "string \<Rightarrow> 'st Server \<Rightarrow> 'st Server" where
  "NotifyAccount accountID s = notifyAll accountID s"

definition ReleaseIP :: "string \<Rightarrow> 'st Server \<Rightarrow> 'st Server" where
  "ReleaseIP wgPubKey s = s\<lparr>sv_ipam := Release wgPubKey (sv_ipam s)\<rparr>"

definition ConnectedKeys :: "'st Server \<Rightarrow> (string, bool) gomap" where
  "ConnectedKeys s = map (\<lambda>key. (key, True)) (go_keys (sv_subs s))"


section \<open>Peers\<close>

definition touchLastSeen :: "'st Store \<Rightarrow> gtime \<Rightarrow> Peer \<Rightarrow> 'st \<Rightarrow> 'st" where
  "touchLastSeen ops now peer st =
     (case GetPeer ops (p_WGPubKey peer) st of
        Inl _ \<Rightarrow> st
      | Inr fresh \<Rightarrow>
          (let st1 = AssignPeer ops (p_WGPubKey peer) (p_LastSeen_update (\<lambda>_. now)) st in
           case SavePeer ops (fresh\<lparr>p_LastSeen := now\<rparr>) st1 of Inl _ \<Rightarrow> st1 | Inr st2 \<Rightarrow> st2))"

text \<open>The address of the caller: absent when the context carries no peer.\<close>

definition sourceIP :: "string option \<Rightarrow> string" where
  "sourceIP peer_addr =
     (case peer_addr of
        None \<Rightarrow> ''unknown''
      | Some addr \<Rightarrow> (case SplitHostPort addr of Some (host, _) \<Rightarrow> host | None \<Rightarrow> addr))"

definition resolveCountryAsync :: "string \<Rightarrow> string \<Rightarrow> 'st Server \<Rightarrow> 'st Server" where
  "resolveCountryAsync wgPubKey ip s =
     (case parse_ip ip of
        None \<Rightarrow> s
      | Some parsed \<Rightarrow>
          if is_private parsed \<or> is_loopback parsed \<or> is_unspecified parsed then s
          else s\<lparr>sv_lookups := sv_lookups s @ [(wgPubKey, ip)]\<rparr>)"

text \<open>The body of the goroutine, with the outcome of the lookup.\<close>

definition resolveCountry ::
  "'st Store \<Rightarrow> string option \<Rightarrow> string \<Rightarrow> string \<Rightarrow> 'st Server \<Rightarrow> 'st Server" where
  "resolveCountry ops result wgPubKey ip s =
     (case result of
        None \<Rightarrow> s
      | Some country \<Rightarrow>
          (case GetPeer ops wgPubKey (sv_store s) of
             Inl _ \<Rightarrow> s
           | Inr peer \<Rightarrow>
               if p_PublicIP peer \<noteq> ip then s
               else
                 (let st1 = AssignPeer ops wgPubKey (p_Country_update (\<lambda>_. country)) (sv_store s)
                  in case SavePeer ops (peer\<lparr>p_Country := country\<rparr>) st1 of
                       Inl _ \<Rightarrow> s\<lparr>sv_store := st1\<rparr>
                     | Inr st2 \<Rightarrow> s\<lparr>sv_store := st2\<rparr>)))"


section \<open>Enrolment\<close>

record LoginRequest =
  lr_SetupKey :: string
  lr_WgPubKey :: string
  lr_Meta :: "pb_PeerMeta option"

record LoginResponse =
  lo_PeerId :: string
  lo_Token :: string
  lo_Address :: string
  lo_Network :: string
  lo_Serial :: string

definition meta_field :: "(pb_PeerMeta \<Rightarrow> string) \<Rightarrow> pb_PeerMeta option \<Rightarrow> string" where
  "meta_field f m = (case m of None \<Rightarrow> [] | Some x \<Rightarrow> f x)"

definition login_groups :: "SetupKey \<Rightarrow> string list" where
  "login_groups sk = DefaultGroupName # filter (\<lambda>g. g \<noteq> DefaultGroupName) (sk_AutoGroups sk)"

definition login_peer ::
  "gtime \<Rightarrow> string \<Rightarrow> string \<Rightarrow> string \<Rightarrow> LoginRequest \<Rightarrow> SetupKey \<Rightarrow> string \<Rightarrow> Peer" where
  "login_peer now uuid uuid8 peerIP req sk ip =
     zero_Peer\<lparr>p_ID := uuid, p_AccountID := sk_AccountID sk, p_WGPubKey := lr_WgPubKey req,
       p_IP := ip, p_LocalIP := meta_field m_LocalIp (lr_Meta req), p_PublicIP := peerIP,
       p_Hostname := meta_field m_Hostname (lr_Meta req), p_OS := meta_field m_Os (lr_Meta req),
       p_Kernel := meta_field m_Kernel (lr_Meta req),
       p_Version := meta_field m_CoreVersion (lr_Meta req),
       p_DNSLabel := ToDNSLabel uuid8 (meta_field m_Hostname (lr_Meta req)),
       p_Groups := login_groups sk, p_AllowedIPs := [ip @ ''/32''],
       p_LastSeen := now, p_CreatedAt := now\<rparr>"

definition reenrol :: "Peer \<Rightarrow> Peer \<Rightarrow> Peer" where
  "reenrol existing peer =
     peer\<lparr>p_ID := p_ID existing, p_CreatedAt := p_CreatedAt existing, p_Groups := p_Groups existing,
          p_AdvertisedRoutes := p_AdvertisedRoutes existing, p_Hostname := p_Hostname existing,
          p_DNSLabel := p_DNSLabel existing\<rparr>"

definition enrol ::
  "'st Store \<Rightarrow> jwt_lib \<Rightarrow> gtime \<Rightarrow> SetupKey \<Rightarrow> string \<Rightarrow> Peer \<Rightarrow> 'st Server
   \<Rightarrow> (code + LoginResponse) \<times> 'st Server" where
  "enrol ops lib now sk ip peer s =
     (case SavePeer ops peer (sv_store s) of
        Inl _ \<Rightarrow> (Inl Internal, s)
      | Inr st1 \<Rightarrow>
          (let st2 = (case IncrementSetupKeyUsage ops (sk_ID sk) st1 of Inl _ \<Rightarrow> st1 | Inr st2 \<Rightarrow> st2);
               s1 = resolveCountryAsync (p_WGPubKey peer) (p_PublicIP peer) (s\<lparr>sv_store := st2\<rparr>);
               s2 = notifyAll (p_AccountID peer) s1;
               token = (case IssueToken lib now (p_ID peer) (p_WGPubKey peer) (p_AccountID peer) (sv_auth s2) of
                          None \<Rightarrow> [] | Some t \<Rightarrow> t)
           in (Inr \<lparr>lo_PeerId = p_ID peer, lo_Token = token, lo_Address = ip @ ''/32'',
                    lo_Network = sv_network s2, lo_Serial = serial now\<rparr>, s2)))"

definition Login ::
  "'st Store \<Rightarrow> jwt_lib \<Rightarrow> gtime \<Rightarrow> string \<Rightarrow> string \<Rightarrow> string option \<Rightarrow> LoginRequest \<Rightarrow> 'st Server
   \<Rightarrow> (code + LoginResponse) \<times> 'st Server" where
  "Login ops lib now uuid uuid8 peer_addr req s0 =
     (let peerIP = sourceIP peer_addr;
          (allowed, limits) = Allow now peerIP (sv_loginLimits s0);
          s = s0\<lparr>sv_loginLimits := limits\<rparr>
      in if \<not> allowed then (Inl ResourceExhausted, s)
         else if lr_SetupKey req = [] \<or> lr_WgPubKey req = [] then (Inl InvalidArgument, s)
         else
           (case GetSetupKey ops now (lr_SetupKey req) (sv_store s) of
              Inl _ \<Rightarrow> (Inl Unauthenticated, s)
            | Inr sk \<Rightarrow>
                if sk_Ephemeral sk \<and> 0 < sk_UsedCount sk then (Inl Unauthenticated, s)
                else
                  (case Allocate (lr_WgPubKey req) (sv_ipam s) of
                     (Inl _, ipam) \<Rightarrow> (Inl ResourceExhausted, s\<lparr>sv_ipam := ipam\<rparr>)
                   | (Inr ip, ipam) \<Rightarrow>
                       (let s1 = s\<lparr>sv_ipam := ipam\<rparr>;
                            peer = login_peer now uuid uuid8 peerIP req sk ip
                        in case GetPeer ops (lr_WgPubKey req) (sv_store s1) of
                             Inl _ \<Rightarrow> enrol ops lib now sk ip peer s1
                           | Inr existing \<Rightarrow>
                               if p_AccountID existing \<noteq> sk_AccountID sk
                               then (Inl PermissionDenied, s1)
                               else enrol ops lib now sk ip (reenrol existing peer) s1))))"


section \<open>The update stream\<close>

definition resolveExitNode :: "Peer list \<Rightarrow> string \<Rightarrow> string" where
  "resolveExitNode peers selfKey =
     (let chosen = (case find (\<lambda>p. p_WGPubKey p = selfKey) peers of
                      None \<Rightarrow> [] | Some p \<Rightarrow> p_ExitNode p)
      in if chosen = [] \<or> chosen = selfKey then []
         else (case find (\<lambda>p. p_WGPubKey p = chosen) peers of
                 None \<Rightarrow> []
               | Some p \<Rightarrow> if ''0.0.0.0/0'' \<in> set (p_AdvertisedRoutes p) then chosen else []))"

definition index_groups :: "Peer list \<Rightarrow> (string, string list) gomap" where
  "index_groups peers =
     fold (\<lambda>p m. fold (\<lambda>g m. go_put g ((case go_get m g of None \<Rightarrow> [] | Some ips \<Rightarrow> ips) @ [p_IP p]) m)
                   (p_Groups p) m) peers []"

definition expandGroupRule :: "Rule \<Rightarrow> (string, string list) gomap \<Rightarrow> Rule list" where
  "expandGroupRule r groupIPs =
     (let srcGroup = trim_prefix (r_Src r) ''group:'';
          dstGroup = trim_prefix (r_Dst r) ''group:'';
          hasSrcGroup = has_prefix (r_Src r) ''group:'';
          hasDstGroup = has_prefix (r_Dst r) ''group:'';
          ips = (\<lambda>g. case go_get groupIPs g of None \<Rightarrow> [] | Some l \<Rightarrow> l)
      in if \<not> hasSrcGroup \<and> \<not> hasDstGroup then [r]
         else
           (let srcIPs = (if hasSrcGroup then ips srcGroup else [r_Src r])
            in if srcIPs = [] then []
               else
                 (let dstIPs = (if hasDstGroup then ips dstGroup else [r_Dst r])
                  in if dstIPs = [] then []
                     else concat (map (\<lambda>s. map (\<lambda>d. r\<lparr>r_Src := s, r_Dst := d\<rparr>) dstIPs) srcIPs))))"

record NetworkConfig =
  nc_Network :: string
  nc_ExitNode :: string

record SyncResponse =
  sr_Peers :: "pb_Peer list"
  sr_Routes :: "pb_Route list"
  sr_Rules :: "pb_Rule list"
  sr_Network :: NetworkConfig
  sr_Serial :: string

definition peer_to_pb :: "Peer \<Rightarrow> pb_Peer" where
  "peer_to_pb p =
     \<lparr>pb_Id = p_ID p, pb_WgPubKey = p_WGPubKey p, pb_Ip = p_IP p, pb_Hostname = p_Hostname p,
      pb_Os = p_OS p, pb_AllowedIps = p_AllowedIPs p @ p_AdvertisedRoutes p,
      pb_DnsLabel = p_DNSLabel p, pb_LocalIp = p_LocalIP p, pb_PublicIp = p_PublicIP p,
      pb_Country = p_Country p\<rparr>"

definition peer_routes :: "Peer \<Rightarrow> pb_Route list" where
  "peer_routes p =
     map (\<lambda>(i, cidr). \<lparr>rt_Id = p_WGPubKey p @ '':'' @ itoa i, rt_Network = cidr,
                        rt_Gateway = p_WGPubKey p, rt_Metric = 100, rt_Enabled = True\<rparr>)
       (List.enumerate 0 (p_AdvertisedRoutes p))"

definition rule_to_pb :: "Rule \<Rightarrow> pb_Rule" where
  "rule_to_pb er =
     \<lparr>ru_Id = r_ID er, ru_Name = r_Name er, ru_Src = r_Src er, ru_Dst = r_Dst er,
      ru_Protocol = r_Protocol er, ru_Port = int32 (r_Port er), ru_Action = r_Action er,
      ru_Enabled = r_Enabled er, ru_Priority = int32 (r_Priority er)\<rparr>"

definition buildSyncResponse ::
  "gtime \<Rightarrow> Peer list \<Rightarrow> Rule list \<Rightarrow> string \<Rightarrow> 'st Server \<Rightarrow> SyncResponse" where
  "buildSyncResponse now peers domainRules selfKey s =
     (let groupIPs = index_groups peers in
      \<lparr>sr_Peers = map peer_to_pb peers,
       sr_Routes = concat (map peer_routes peers),
       sr_Rules = concat (map (\<lambda>r. map rule_to_pb (expandGroupRule r groupIPs)) domainRules),
       sr_Network = \<lparr>nc_Network = sv_network s, nc_ExitNode = resolveExitNode peers selfKey\<rparr>,
       sr_Serial = serial now\<rparr>)"

text \<open>The function value \<^verbatim>\<open>send\<close>: the message it builds, or none when the store fails.\<close>

definition sync_message ::
  "'st Store \<Rightarrow> gtime \<Rightarrow> string \<Rightarrow> string \<Rightarrow> 'st Server \<Rightarrow> SyncResponse option" where
  "sync_message ops now accountID selfKey s =
     (case GetPeersByAccount ops accountID (sv_store s) of
        Inl _ \<Rightarrow> None
      | Inr peers \<Rightarrow>
          (case GetRulesByAccount ops accountID (sv_store s) of
             Inl _ \<Rightarrow> None
           | Inr rules \<Rightarrow> Some (buildSyncResponse now peers rules selfKey s)))"

text \<open>A running stream: the peer it serves and its own channel.\<close>

record sync_stream =
  ss_peer :: Peer
  ss_ch :: nat

definition Sync_end :: "'st Store \<Rightarrow> gtime \<Rightarrow> sync_stream \<Rightarrow> 'st Server \<Rightarrow> 'st Server" where
  "Sync_end ops now ss s =
     (let s1 = unregisterSub (p_WGPubKey (ss_peer ss)) s;
          s2 = s1\<lparr>sv_store := touchLastSeen ops now (ss_peer ss) (sv_store s1)\<rparr>
      in notifyAll (p_AccountID (ss_peer ss)) s2)"

definition Sync_start ::
  "'st Store \<Rightarrow> gtime \<Rightarrow> nat \<Rightarrow> string option \<Rightarrow> Claims option \<Rightarrow> string \<Rightarrow> bool \<Rightarrow> 'st Server
   \<Rightarrow> (code + (sync_stream \<times> SyncResponse)) \<times> 'st Server" where
  "Sync_start ops now ch peer_addr claims wgPubKey sent s =
     (if wgPubKey = [] then (Inl InvalidArgument, s)
      else if (case claims of None \<Rightarrow> False | Some c \<Rightarrow> cl_WGPubKey c \<noteq> wgPubKey)
      then (Inl PermissionDenied, s)
      else
        (case GetPeer ops wgPubKey (sv_store s) of
           Inl _ \<Rightarrow> (Inl NotFound, s)
         | Inr peer \<Rightarrow>
             (let sub = \<lparr>sub_peerKey = wgPubKey, sub_accountID = p_AccountID peer, sub_ch = ch\<rparr>;
                  s1 = registerSub wgPubKey sub (s\<lparr>sv_chans := go_put ch False (sv_chans s)\<rparr>);
                  s2 = s1\<lparr>sv_store := touchLastSeen ops now peer (sv_store s1)\<rparr>;
                  peer2 = DerefPeer ops wgPubKey peer (sv_store s2);
                  ip = sourceIP peer_addr;
                  s3 = (if ip \<noteq> [] \<and> ip \<noteq> ''unknown'' \<and> ip \<noteq> p_PublicIP peer2 then
                          (let st = AssignPeer ops wgPubKey (p_PublicIP_update (\<lambda>_. ip)) (sv_store s2)
                           in case SavePeer ops (peer2\<lparr>p_PublicIP := ip\<rparr>) st of
                                Inl _ \<Rightarrow> s2\<lparr>sv_store := st\<rparr>
                              | Inr st' \<Rightarrow> resolveCountryAsync (p_WGPubKey peer2) ip (s2\<lparr>sv_store := st'\<rparr>))
                        else s2);
                  ss = \<lparr>ss_peer = peer2, ss_ch = ch\<rparr>
              in case sync_message ops now (p_AccountID peer2) wgPubKey s3 of
                   Some resp \<Rightarrow>
                     if sent then (Inr (ss, resp), s3) else (Inl Internal, Sync_end ops now ss s3)
                 | None \<Rightarrow> (Inl Internal, Sync_end ops now ss s3))))"

text \<open>A receive from the stream's own channel, enabled when the channel is full.\<close>

definition Sync_push ::
  "'st Store \<Rightarrow> gtime \<Rightarrow> sync_stream \<Rightarrow> bool \<Rightarrow> 'st Server
   \<Rightarrow> (code + SyncResponse) \<times> 'st Server" where
  "Sync_push ops now ss sent s =
     (let s1 = s\<lparr>sv_chans := go_put (ss_ch ss) False (sv_chans s)\<rparr> in
      case sync_message ops now (p_AccountID (ss_peer ss)) (p_WGPubKey (ss_peer ss)) s1 of
        Some resp \<Rightarrow> if sent then (Inr resp, s1) else (Inl Internal, Sync_end ops now ss s1)
      | None \<Rightarrow> (Inl Internal, Sync_end ops now ss s1))"


section \<open>Metadata and block list\<close>

definition UpdatePeerMeta ::
  "'st Store \<Rightarrow> gtime \<Rightarrow> string \<Rightarrow> Claims option \<Rightarrow> string \<Rightarrow> pb_PeerMeta option \<Rightarrow> 'st Server
   \<Rightarrow> (code + unit) \<times> 'st Server" where
  "UpdatePeerMeta ops now uuid8 claims wgPubKey meta s =
     (if wgPubKey = [] then (Inl InvalidArgument, s)
      else if (case claims of None \<Rightarrow> False | Some c \<Rightarrow> cl_WGPubKey c \<noteq> wgPubKey)
      then (Inl PermissionDenied, s)
      else
        (case GetPeer ops wgPubKey (sv_store s) of
           Inl _ \<Rightarrow> (Inl NotFound, s)
         | Inr peer \<Rightarrow>
             (let upd = (\<lambda>p. (case meta of
                          None \<Rightarrow> p
                        | Some m \<Rightarrow>
                            p\<lparr>p_Hostname := m_Hostname m, p_OS := m_Os m, p_Kernel := m_Kernel m,
                              p_Version := m_CoreVersion m,
                              p_DNSLabel := ToDNSLabel uuid8 (m_Hostname m),
                              p_LocalIP := (if m_LocalIp m \<noteq> [] then m_LocalIp m else p_LocalIP p)\<rparr>)
                          \<lparr>p_LastSeen := now\<rparr>);
                  st1 = AssignPeer ops wgPubKey upd (sv_store s)
              in case SavePeer ops (upd peer) st1 of
                   Inl _ \<Rightarrow> (Inl Internal, s\<lparr>sv_store := st1\<rparr>)
                 | Inr st2 \<Rightarrow> (Inr (), s\<lparr>sv_store := st2\<rparr>))))"

record GetBlocklistResponse =
  gb_Version :: string
  gb_NotModified :: bool
  gb_Domains :: "string list"

definition GetBlocklist ::
  "Claims option \<Rightarrow> string \<Rightarrow> string \<Rightarrow> 'st Server \<Rightarrow> code + GetBlocklistResponse" where
  "GetBlocklist claims wgPubKey knownVersion s =
     (if wgPubKey = [] then Inl InvalidArgument
      else if (case claims of None \<Rightarrow> False | Some c \<Rightarrow> cl_WGPubKey c \<noteq> wgPubKey)
      then Inl PermissionDenied
      else
        (case sv_blocklist s of
           None \<Rightarrow> Inr \<lparr>gb_Version = [], gb_NotModified = (knownVersion \<noteq> []), gb_Domains = []\<rparr>
         | Some bl \<Rightarrow>
             (let (domains, version) = Snapshot bl in
              if version = []
              then Inr \<lparr>gb_Version = [], gb_NotModified = (knownVersion \<noteq> []), gb_Domains = []\<rparr>
              else if knownVersion \<noteq> [] \<and> knownVersion = version
              then Inr \<lparr>gb_Version = version, gb_NotModified = True, gb_Domains = []\<rparr>
              else Inr \<lparr>gb_Version = version, gb_NotModified = False, gb_Domains = domains\<rparr>)))"

lemmas grpc_defs =
  New_Server_def GetServerKey_def fmt_d_def serial_def registerSub_def unregisterSub_def
  notifyAll_def NotifyAccount_def ReleaseIP_def ConnectedKeys_def touchLastSeen_def sourceIP_def
  resolveCountryAsync_def resolveCountry_def meta_field_def login_groups_def login_peer_def
  reenrol_def enrol_def Login_def resolveExitNode_def index_groups_def expandGroupRule_def
  peer_to_pb_def peer_routes_def rule_to_pb_def buildSyncResponse_def sync_message_def
  Sync_end_def Sync_start_def Sync_push_def UpdatePeerMeta_def GetBlocklist_def

declare grpc_defs [go_eval]


section \<open>Lemmas on enrolment\<close>

lemma sv_store_notifyAll [simp]: "sv_store (notifyAll a s) = sv_store s"
  and sv_auth_notifyAll [simp]: "sv_auth (notifyAll a s) = sv_auth s"
  and sv_network_notifyAll [simp]: "sv_network (notifyAll a s) = sv_network s"
  and sv_subs_notifyAll [simp]: "sv_subs (notifyAll a s) = sv_subs s"
  and sv_ipam_notifyAll [simp]: "sv_ipam (notifyAll a s) = sv_ipam s"
  by (simp_all add: notifyAll_def)

lemma sv_resolve [simp]:
  "sv_store (resolveCountryAsync k ip s) = sv_store s"
  "sv_auth (resolveCountryAsync k ip s) = sv_auth s"
  "sv_network (resolveCountryAsync k ip s) = sv_network s"
  "sv_subs (resolveCountryAsync k ip s) = sv_subs s"
  "sv_chans (resolveCountryAsync k ip s) = sv_chans s"
  "sv_ipam (resolveCountryAsync k ip s) = sv_ipam s"
  by (simp_all add: resolveCountryAsync_def split: option.splits)

lemma login_peer_sel [simp]:
  "p_WGPubKey (login_peer now u u8 ip req sk a) = lr_WgPubKey req"
  "p_AccountID (login_peer now u u8 ip req sk a) = sk_AccountID sk"
  "p_IP (login_peer now u u8 ip req sk a) = a"
  "p_ExitNode (login_peer now u u8 ip req sk a) = []"
  "p_ID (login_peer now u u8 ip req sk a) = u"
  by (simp_all add: login_peer_def zero_Peer_def)

lemma reenrol_sel [simp]:
  "p_WGPubKey (reenrol e p) = p_WGPubKey p" "p_AccountID (reenrol e p) = p_AccountID p"
  "p_IP (reenrol e p) = p_IP p" "p_ExitNode (reenrol e p) = p_ExitNode p"
  "p_ID (reenrol e p) = p_ID e" "p_CreatedAt (reenrol e p) = p_CreatedAt e"
  "p_Groups (reenrol e p) = p_Groups e" "p_AdvertisedRoutes (reenrol e p) = p_AdvertisedRoutes e"
  "p_Hostname (reenrol e p) = p_Hostname e" "p_DNSLabel (reenrol e p) = p_DNSLabel e"
  by (simp_all add: reenrol_def)

lemma Login_failure: "Login ops lib now u u8 addr req s = (Inl c, s') \<Longrightarrow> sv_store s' = sv_store s"
  by (auto simp: Login_def enrol_def Let_def split: prod.splits if_splits sum.splits)

text \<open>A successful enrolment: the peer record it stores is the fresh one, or the fresh one
  merged with the record of the same account.\<close>

definition enrolled :: "'st Store \<Rightarrow> 'st \<Rightarrow> Peer \<Rightarrow> Peer \<Rightarrow> bool" where
  "enrolled ops st fresh p \<longleftrightarrow>
     (case GetPeer ops (p_WGPubKey fresh) st of
        Inl _ \<Rightarrow> p = fresh
      | Inr existing \<Rightarrow> p_AccountID existing = p_AccountID fresh \<and> p = reenrol existing fresh)"

lemma Login_success:
  assumes "Login ops lib now u u8 addr req s = (Inr resp, s')"
  obtains sk ip ipam p limits where
    "GetSetupKey ops now (lr_SetupKey req) (sv_store s) = Inr sk"
    "\<not> (sk_Ephemeral sk \<and> 0 < sk_UsedCount sk)"
    "Allocate (lr_WgPubKey req) (sv_ipam s) = (Inr ip, ipam)"
    "enrolled ops (sv_store s) (login_peer now u u8 (sourceIP addr) req sk ip) p"
    "enrol ops lib now sk ip p (s\<lparr>sv_loginLimits := limits, sv_ipam := ipam\<rparr>) = (Inr resp, s')"
  using assms
  by (auto simp: Login_def Let_def enrolled_def split: prod.splits if_splits sum.splits)

lemma enrol_success:
  assumes "enrol ops lib now sk ip p s = (Inr resp, s')"
  obtains st1 where "SavePeer ops p (sv_store s) = Inr st1"
    "sv_store s' = (case IncrementSetupKeyUsage ops (sk_ID sk) st1 of Inl _ \<Rightarrow> st1 | Inr st2 \<Rightarrow> st2)"
    "sv_auth s' = sv_auth s" "lo_PeerId resp = p_ID p" "lo_Address resp = ip @ ''/32''"
    "lo_Token resp = (case IssueToken lib now (p_ID p) (p_WGPubKey p) (p_AccountID p) (sv_auth s) of
                        None \<Rightarrow> [] | Some t \<Rightarrow> t)"
  using assms by (auto simp: enrol_def Let_def split: sum.splits)

lemma enrolled_sel:
  "enrolled ops st fresh p \<Longrightarrow> p_WGPubKey p = p_WGPubKey fresh \<and> p_AccountID p = p_AccountID fresh
     \<and> p_IP p = p_IP fresh \<and> p_ExitNode p = p_ExitNode fresh"
  by (auto simp: enrolled_def split: sum.splits)

context store_laws
begin

lemma enrol_inv: "inv (sv_store s) \<Longrightarrow> enrol ops lib now sk ip p s = (r, s') \<Longrightarrow> inv (sv_store s')"
  by (auto simp: enrol_def Let_def split: sum.splits intro: inv_save inv_increment)

lemma enrol_other:
  "inv (sv_store s) \<Longrightarrow> apart p (sv_store s) \<Longrightarrow> enrol ops lib now sk ip p s = (Inr resp, s') \<Longrightarrow> k \<noteq> p_WGPubKey p \<Longrightarrow>
     GetPeer ops k (sv_store s') = GetPeer ops k (sv_store s)"
  by (erule enrol_success) (auto simp: save_other increment_peer split: sum.splits)

lemma enrol_stores:
  "inv (sv_store s) \<Longrightarrow> keeps p \<Longrightarrow> enrol ops lib now sk ip p s = (Inr resp, s') \<Longrightarrow>
     GetPeer ops (p_WGPubKey p) (sv_store s') = Inr p"
  by (erule enrol_success) (auto simp: save_peer increment_peer split: sum.splits)

lemma Login_inv: "inv (sv_store s) \<Longrightarrow> Login ops lib now u u8 addr req s = (r, s') \<Longrightarrow> inv (sv_store s')"
proof (cases r)
  case (Inr resp)
  assume "inv (sv_store s)" and "Login ops lib now u u8 addr req s = (r, s')"
  with Inr show ?thesis by (auto elim!: Login_success dest!: enrol_inv [rotated])
qed (auto dest: Login_failure)

lemma Login_keeps_others:
  assumes "inv (sv_store s)" "Login ops lib now u u8 addr req s = (r, s')"
    "GetPeer ops k (sv_store s) = Inr p"
    "k \<noteq> lr_WgPubKey req \<or>
      (\<forall>sk. GetSetupKey ops now (lr_SetupKey req) (sv_store s) = Inr sk \<longrightarrow> sk_AccountID sk \<noteq> p_AccountID p)"
    "\<And>sk ip q. enrolled ops (sv_store s) (login_peer now u u8 (sourceIP addr) req sk ip) q \<Longrightarrow> apart q (sv_store s)"
  shows "GetPeer ops k (sv_store s') = Inr p"
proof (cases r)
  case (Inl c)
  with assms Login_failure show ?thesis by metis
next
  case (Inr resp)
  with assms(2) have "Login ops lib now u u8 addr req s = (Inr resp, s')" by simp
  then show ?thesis
  proof (rule Login_success)
    fix sk ip ipam q limits
    assume sk: "GetSetupKey ops now (lr_SetupKey req) (sv_store s) = Inr sk"
      and q: "enrolled ops (sv_store s) (login_peer now u u8 (sourceIP addr) req sk ip) q"
      and e: "enrol ops lib now sk ip q (s\<lparr>sv_loginLimits := limits, sv_ipam := ipam\<rparr>) = (Inr resp, s')"
    have "k \<noteq> lr_WgPubKey req"
      using q sk assms(3,4) by (auto simp: enrolled_def)
    then show ?thesis
      using enrol_other [OF _ _ e, of k] assms(1,3) assms(5) [OF q] enrolled_sel [OF q] by simp
  qed
qed

lemma Login_stores:
  assumes "inv (sv_store s)" "\<And>p. keeps p" "Login ops lib now u u8 addr req s = (Inr resp, s')"
  obtains sk ip ipam p where
    "GetSetupKey ops now (lr_SetupKey req) (sv_store s) = Inr sk"
    "Allocate (lr_WgPubKey req) (sv_ipam s) = (Inr ip, ipam)"
    "enrolled ops (sv_store s) (login_peer now u u8 (sourceIP addr) req sk ip) p"
    "GetPeer ops (lr_WgPubKey req) (sv_store s') = Inr p"
    "lo_PeerId resp = p_ID p" "lo_Address resp = ip @ ''/32''" "sv_auth s' = sv_auth s"
    "lo_Token resp = (case IssueToken lib now (p_ID p) (lr_WgPubKey req) (sk_AccountID sk) (sv_auth s) of
                        None \<Rightarrow> [] | Some t \<Rightarrow> t)"
  using assms(3)
proof (rule Login_success)
  fix sk ip ipam p limits
  assume a: "GetSetupKey ops now (lr_SetupKey req) (sv_store s) = Inr sk"
    "Allocate (lr_WgPubKey req) (sv_ipam s) = (Inr ip, ipam)"
    and p: "enrolled ops (sv_store s) (login_peer now u u8 (sourceIP addr) req sk ip) p"
    and e: "enrol ops lib now sk ip p (s\<lparr>sv_loginLimits := limits, sv_ipam := ipam\<rparr>) = (Inr resp, s')"
  note sel = enrolled_sel [OF p]
  have "GetPeer ops (lr_WgPubKey req) (sv_store s') = Inr p"
    using enrol_stores [OF _ assms(2) e] assms(1) sel by simp
  with e a p sel show thesis
    by (elim enrol_success) (rule that; simp)
qed

end


section \<open>Lemmas on the update stream\<close>

abbreviation ips_of :: "(string, string list) gomap \<Rightarrow> string \<Rightarrow> string list" where
  "ips_of m g \<equiv> (case go_get m g of None \<Rightarrow> [] | Some ips \<Rightarrow> ips)"

lemma index_one:
  "ips_of (fold (\<lambda>g m. go_put g (ips_of m g @ [ip]) m) gs m) g =
     ips_of m g @ replicate (count_list gs g) ip"
  by (induction gs arbitrary: m) (auto simp: go_get_put replicate_app_Cons_same)

lemma index_groups_get:
  "ips_of (index_groups peers) g = concat (map (\<lambda>p. replicate (count_list (p_Groups p) g) (p_IP p)) peers)"
proof -
  have "ips_of (fold (\<lambda>p m. fold (\<lambda>g m. go_put g (ips_of m g @ [p_IP p]) m) (p_Groups p) m) peers m) g
      = ips_of m g @ concat (map (\<lambda>p. replicate (count_list (p_Groups p) g) (p_IP p)) peers)" for m
    by (induction peers arbitrary: m) (simp_all add: index_one)
  from this [of "[]"] show ?thesis by (simp add: index_groups_def)
qed

text \<open>The addresses an endpoint of a rule stands for.\<close>

definition endpoint_ips :: "Peer list \<Rightarrow> string \<Rightarrow> string set" where
  "endpoint_ips peers x =
     (if has_prefix x ''group:''
      then {p_IP p | p. p \<in> set peers \<and> trim_prefix x ''group:'' \<in> set (p_Groups p)} else {x})"

lemma set_index_groups:
  "set (ips_of (index_groups peers) g) = {p_IP p | p. p \<in> set peers \<and> g \<in> set (p_Groups p)}"
  unfolding index_groups_get by (force simp: count_list_0_iff)

lemma expand_endpoint:
  "set (if has_prefix x ''group:'' then ips_of (index_groups peers) (trim_prefix x ''group:'') else [x])
     = endpoint_ips peers x"
  by (simp add: endpoint_ips_def set_index_groups)

lemma set_expandGroupRule:
  "set (expandGroupRule r (index_groups peers)) =
     {r\<lparr>r_Src := s, r_Dst := d\<rparr> | s d. s \<in> endpoint_ips peers (r_Src r) \<and> d \<in> endpoint_ips peers (r_Dst r)}"
proof (cases "\<not> has_prefix (r_Src r) ''group:'' \<and> \<not> has_prefix (r_Dst r) ''group:''")
  case True
  then show ?thesis by (simp add: expandGroupRule_def Let_def endpoint_ips_def)
next
  case False
  define S where "S = (if has_prefix (r_Src r) ''group:''
    then ips_of (index_groups peers) (trim_prefix (r_Src r) ''group:'') else [r_Src r])"
  define D where "D = (if has_prefix (r_Dst r) ''group:''
    then ips_of (index_groups peers) (trim_prefix (r_Dst r) ''group:'') else [r_Dst r])"
  have "expandGroupRule r (index_groups peers) =
      concat (map (\<lambda>s. map (\<lambda>d. r\<lparr>r_Src := s, r_Dst := d\<rparr>) D) S)"
    using False by (auto simp: expandGroupRule_def Let_def S_def D_def)
  moreover have "set S = endpoint_ips peers (r_Src r)" "set D = endpoint_ips peers (r_Dst r)"
    unfolding S_def D_def by (rule expand_endpoint)+
  ultimately show ?thesis by auto
qed

lemma find_key_distinct:
  assumes "distinct (map f xs)" "x \<in> set xs"
  shows "find (\<lambda>y. f y = f x) xs = Some x"
  using assms by (induction xs) auto

lemma chans_notifyAll:
  "go_get (sv_chans (notifyAll a s)) c =
     (if \<exists>sub \<in> set (go_values (sv_subs s)). sub_accountID sub = a \<and> sub_ch sub = c
      then Some True else go_get (sv_chans s) c)"
proof -
  have "go_get (fold (\<lambda>sub chans. if sub_accountID sub \<noteq> a then chans
                 else go_put (sub_ch sub) True chans) subs m) c =
      (if \<exists>sub \<in> set subs. sub_accountID sub = a \<and> sub_ch sub = c then Some True else go_get m c)" for subs m
    by (induction subs arbitrary: m) (auto simp: go_get_put)
  moreover have "sv_chans (notifyAll a s) =
      fold (\<lambda>sub chans. if sub_accountID sub \<noteq> a then chans else go_put (sub_ch sub) True chans)
        (go_values (sv_subs s)) (sv_chans s)"
    by (simp add: notifyAll_def)
  ultimately show ?thesis by (simp only:)
qed



section \<open>Properties\<close>

text \<open>The server of the examples: the in-memory store with its seed key, the pool of the
  default configuration, an enrolled peer, and a peer of another account.\<close>

definition example_peer :: Peer where
  "example_peer =
     zero_Peer\<lparr>p_ID := ''p1'', p_WGPubKey := ''k1'', p_AccountID := ''default'', p_IP := ''100.64.0.1'',
       p_Groups := [''Default'', ''ops''], p_AdvertisedRoutes := [''10.0.0.0/8''], p_ExitNode := ''k3''\<rparr>"

definition example_foreign_peer :: Peer where
  "example_foreign_peer =
     zero_Peer\<lparr>p_ID := ''p2'', p_WGPubKey := ''k2'', p_AccountID := ''other'', p_IP := ''100.64.0.9''\<rparr>"

definition example_server :: "mem_store Server" where
  "example_server =
     New_Server 0
       ((mem_New ''id'' 0 ''seed'')\<lparr>ms_peers := [(''k2'', example_foreign_peer), (''k1'', example_peer)]\<rparr>)
       (NewManager ''s'') (snd (Allocate ''k1'' example_pool)) ''100.64.0.0/10'' ''blinex'' None"

lemmas example_defs =
  example_server_def example_peer_def example_foreign_peer_def example_pool_def

definition example_login :: "string \<Rightarrow> LoginRequest" where
  "example_login k = \<lparr>lr_SetupKey = ''seed'', lr_WgPubKey = k, lr_Meta = None\<rparr>"

lemma example_server_inv: "mem_inv (sv_store example_server)"
  by (simp add: example_server_def example_peer_def example_foreign_peer_def New_Server_def mem_inv_def
      mem_New_def default_rule_def Let_def keyed_def [of p_WGPubKey] go_wf_def zero_Peer_def)



text \<open>Re-enrolment keeps the identity of a peer: its ID, creation time, groups, advertised
  routes, host name and DNS label, and the address the pool holds for it. The selected exit
  node is not among the fields that survive: it is reset to none.\<close>

theorem Login_reenrol:
  assumes "mem_inv (sv_store s)" "Login mem_ops lib now u u8 addr req s = (Inr resp, s')"
    "GetPeer mem_ops (lr_WgPubKey req) (sv_store s) = Inr old"
    "lease_of (sv_ipam s) (lr_WgPubKey req) = Some (p_IP old)"
  shows "\<exists>new. GetPeer mem_ops (lr_WgPubKey req) (sv_store s') = Inr new
    \<and> p_ID new = p_ID old \<and> p_AccountID new = p_AccountID old \<and> p_IP new = p_IP old
    \<and> p_CreatedAt new = p_CreatedAt old \<and> p_Groups new = p_Groups old
    \<and> p_AdvertisedRoutes new = p_AdvertisedRoutes old \<and> p_Hostname new = p_Hostname old
    \<and> p_DNSLabel new = p_DNSLabel old \<and> lo_PeerId resp = p_ID old
    \<and> lo_Address resp = p_IP old @ ''/32'' \<and> p_ExitNode new = []"
proof -
  obtain sk ip ipam p where a: "Allocate (lr_WgPubKey req) (sv_ipam s) = (Inr ip, ipam)"
    and p: "enrolled mem_ops (sv_store s) (login_peer now u u8 (sourceIP addr) req sk ip) p"
    and g: "GetPeer mem_ops (lr_WgPubKey req) (sv_store s') = Inr p"
    and r: "lo_PeerId resp = p_ID p" "lo_Address resp = ip @ ''/32''"
    by (rule mem.Login_stores [OF assms(1) _ assms(2)]) auto
  have "ip = p_IP old" using a pool.alloc_held [OF assms(4)] by simp
  moreover have "p = reenrol old (login_peer now u u8 (sourceIP addr) req sk ip)"
    "p_AccountID old = sk_AccountID sk"
    using p assms(3) by (simp_all add: enrolled_def)
  ultimately show ?thesis using g r by auto
qed

theorem Login_reenrol_witness:
  "\<exists>new. GetPeer mem_ops ''k1'' (sv_store (snd (Login mem_ops plain_jwt 0 ''u'' ''u8'' None (example_login ''k1'') example_server))) = Inr new
     \<and> p_ID new = ''p1'' \<and> p_IP new = ''100.64.0.1'' \<and> p_Groups new = [''Default'', ''ops''] \<and> p_ExitNode new = []"
proof -
  let ?l = "Login mem_ops plain_jwt 0 ''u'' ''u8'' None (example_login ''k1'') example_server"
  obtain resp where "fst ?l = Inr resp"
    by (simp add: example_login_def example_defs go_eval time_sub_def)
  then have "?l = (Inr resp, snd ?l)" by (metis prod.collapse)
  from Login_reenrol [OF example_server_inv this, of example_peer] show ?thesis
    by (simp add: example_login_def example_defs lease_of_def go_eval)
qed

end
