(* ===== verification/Mgmt_Session.thy ===== *)
theory Mgmt_Session
  imports Mgmt_Grpc
begin

text \<open>
  Properties of the management gRPC service that span its parts: from enrolment through the
  token to the update stream, what an update contains, who is notified of a change, and
  how often a setup key works.
\<close>

section \<open>Lemmas\<close>

lemma go_put_put [simp]: "go_put k v (go_put k w m) = go_put k v m"
  unfolding go_put_def by (induction m) auto

lemma go_del_put [simp]: "go_del k (go_put k v m) = go_del k m"
  unfolding go_put_def go_del_def by (induction m) auto

lemma mem_GetPeer_sel [simp]: "GetPeer mem_ops = mem_GetPeer"
  and mem_SavePeer_sel [simp]: "SavePeer mem_ops = mem_SavePeer"
  and mem_AssignPeer_sel [simp]: "AssignPeer mem_ops = mem_AssignPeer"
  and mem_DerefPeer_sel [simp]: "DerefPeer mem_ops = mem_DerefPeer"
  and mem_GetSetupKey_sel [simp]: "GetSetupKey mem_ops = mem_GetSetupKey"
  and mem_Increment_sel [simp]: "IncrementSetupKeyUsage mem_ops = mem_IncrementSetupKeyUsage"
  and mem_GetPeers_sel [simp]: "GetPeersByAccount mem_ops = mem_GetPeersByAccount"
  and mem_GetRules_sel [simp]: "GetRulesByAccount mem_ops = mem_GetRulesByAccount"
  by (simp_all add: mem_ops_def)

lemma touch_mem:
  "go_get (ms_peers st) (p_WGPubKey p) = Some p \<Longrightarrow>
     touchLastSeen mem_ops now p st =
       st\<lparr>ms_peers := go_put (p_WGPubKey p) (p\<lparr>p_LastSeen := now\<rparr>) (ms_peers st)\<rparr>"
  by (simp add: touchLastSeen_def mem_GetPeer_def mem_AssignPeer_def mem_SavePeer_def Let_def)

text \<open>With the in-memory store a stream for an enrolled key starts, and its first message
  lists the peer.\<close>

lemma sync_message_mem:
  "sync_message mem_ops now a k s =
     Some (buildSyncResponse now (filter (\<lambda>p. p_AccountID p = a) (go_values (ms_peers (sv_store s))))
       (sort_key r_Priority (filter (\<lambda>r. r_AccountID r = a) (go_values (ms_rules (sv_store s))))) k s)"
  by (simp add: sync_message_def mem_GetPeersByAccount_def mem_GetRulesByAccount_def)

lemma Sync_start_mem:
  assumes "mem_inv (sv_store s)" "go_get (ms_peers (sv_store s)) k = Some p" "k \<noteq> []"
    "claims = None \<or> (\<exists>c. claims = Some c \<and> cl_WGPubKey c = k)"
  shows "\<exists>ss m q. fst (Sync_start mem_ops now ch addr claims k True s) = Inr (ss, m)
    \<and> p_WGPubKey (ss_peer ss) = k \<and> q \<in> set (sr_Peers m) \<and> pb_WgPubKey q = k \<and> pb_Ip q = p_IP p"
proof -
  have key: "p_WGPubKey p = k" using assms(1,2) by (auto simp: mem_inv_def dest: keyedD)
  have wf: "go_wf (ms_peers (sv_store s))" using assms(1) by (auto simp: mem_inv_def dest: keyed_wf)
  define s1 where "s1 = s\<lparr>sv_chans := go_put ch False (sv_chans s),
    sv_subs := go_put k \<lparr>sub_peerKey = k, sub_accountID = p_AccountID p, sub_ch = ch\<rparr> (sv_subs s),
    sv_store := (sv_store s)\<lparr>ms_peers := go_put k (p\<lparr>p_LastSeen := now\<rparr>) (ms_peers (sv_store s))\<rparr>\<rparr>"
  define s2 where "s2 = s1\<lparr>sv_store := (sv_store s)\<lparr>ms_peers :=
    go_put k (p\<lparr>p_LastSeen := now, p_PublicIP := sourceIP addr\<rparr>) (ms_peers (sv_store s))\<rparr>\<rparr>"
  define s3 where "s3 = (if sourceIP addr \<noteq> [] \<and> sourceIP addr \<noteq> ''unknown'' \<and> sourceIP addr \<noteq> p_PublicIP p
    then resolveCountryAsync k (sourceIP addr) s2 else s1)"
  have fst: "fst (Sync_start mem_ops now ch addr claims k True s) =
      Inr (\<lparr>ss_peer = p\<lparr>p_LastSeen := now\<rparr>, ss_ch = ch\<rparr>,
           the (sync_message mem_ops now (p_AccountID p) k s3))"
    using assms(2,3,4) key
    by (auto simp: Sync_start_def mem_GetPeer_def registerSub_def touch_mem mem_DerefPeer_def
        mem_AssignPeer_def mem_SavePeer_def sync_message_mem s3_def s2_def s1_def Let_def)
  have "\<exists>p'. go_get (ms_peers (sv_store s3)) k = Some p' \<and> p_IP p' = p_IP p
      \<and> p_AccountID p' = p_AccountID p \<and> p_WGPubKey p' = k"
    using key by (simp add: s3_def s2_def s1_def)
  then obtain p' where p': "go_get (ms_peers (sv_store s3)) k = Some p'" "p_IP p' = p_IP p"
    "p_AccountID p' = p_AccountID p" "p_WGPubKey p' = k" by blast
  have "go_wf (ms_peers (sv_store s3))" using wf by (auto simp: s3_def s2_def s1_def)
  then have "p' \<in> set (filter (\<lambda>q. p_AccountID q = p_AccountID p) (go_values (ms_peers (sv_store s3))))"
    using p' by (auto simp: go_values_iff)
  then have "peer_to_pb p' \<in> set (sr_Peers (the (sync_message mem_ops now (p_AccountID p) k s3)))"
    by (simp add: sync_message_mem buildSyncResponse_def Let_def)
  then show ?thesis
    using fst p' key by (intro exI conjI) (auto simp: peer_to_pb_def)
qed

lemma Sync_start_wrong_key:
  "k \<noteq> [] \<Longrightarrow> cl_WGPubKey c \<noteq> k \<Longrightarrow>
     Sync_start ops now ch addr (Some c) k sent s = (Inl PermissionDenied, s)"
  by (simp add: Sync_start_def)

text \<open>A started stream has its own channel, empty, and the subscription of its key.\<close>

lemma Sync_start_subs:
  assumes "Sync_start ops now ch addr c k sent s = (Inr (ss, m), s')"
  shows "\<exists>a. sv_subs s' = go_put k \<lparr>sub_peerKey = k, sub_accountID = a, sub_ch = ch\<rparr> (sv_subs s)"
    and "sv_chans s' = go_put ch False (sv_chans s)" and "ss_ch ss = ch"
  using assms
  by (auto simp: Sync_start_def Let_def registerSub_def split: if_splits sum.splits option.splits)

context store_laws
begin

lemma inv_touch:
  assumes "inv st"
  shows "inv (touchLastSeen ops now p st)"
proof -
  have "inv (AssignPeer ops (p_WGPubKey p) (p_LastSeen_update (\<lambda>_. now)) st)"
    using assms by (rule inv_assign) simp
  with assms show ?thesis
    by (auto simp: touchLastSeen_def Let_def split: sum.splits intro: inv_save)
qed

lemma Sync_start_key:
  assumes "inv (sv_store s)" "Sync_start ops now ch addr c k sent s = (Inr (ss, m), s')"
  shows "p_WGPubKey (ss_peer ss) = k"
proof -
  obtain p where p: "GetPeer ops k (sv_store s) = Inr p"
    and ss: "ss_peer ss = DerefPeer ops k p (touchLastSeen ops now p (sv_store s))"
    using assms(2)
    by (auto simp: Sync_start_def Let_def registerSub_def split: if_splits sum.splits option.splits)
  have "p_WGPubKey p = k" using peer_key [OF assms(1) p] .
  moreover have "inv (touchLastSeen ops now p (sv_store s))" using inv_touch [OF assms(1)] .
  ultimately show ?thesis using deref peer_key unfolding ss by metis
qed

end

section \<open>Properties\<close>

text \<open>Sync as a client calls it, through the stream interceptor.\<close>

definition rpc_Sync ::
  "'st Store \<Rightarrow> jwt_lib \<Rightarrow> gtime \<Rightarrow> nat \<Rightarrow> string option \<Rightarrow> string list option \<Rightarrow> string \<Rightarrow> 'st Server
   \<Rightarrow> code + (sync_stream \<times> SyncResponse)" where
  "rpc_Sync ops lib now ch peer_addr md wgPubKey s =
     AuthStreamInterceptor lib now ''/management.v1.ManagementService/Sync'' md (sv_auth s)
       (\<lambda>claims. fst (Sync_start ops now ch peer_addr claims wgPubKey True s))"

text \<open>C2. Enrolment opens the stream of the enrolled peer and no other: for as long as the token
  of a successful Login is valid, Sync called with it refuses every other public key, and for
  the enrolled key it starts a stream whose first message lists the peer under the address
  Login announced.\<close>

theorem Login_token_opens_own_stream:
  assumes "jwt_round_trip lib" "\<forall>c. SignedString lib (am_secret (sv_auth s)) c \<noteq> None"
    "mem_inv (sv_store s)" "Login mem_ops lib now u u8 addr req s = (Inr resp, s')"
    "lr_WgPubKey req \<noteq> []"
    "\<forall>r. go_get (am_revoked (sv_auth s)) (lr_WgPubKey req) = Some r \<longrightarrow> r < NewNumericDate now"
    "now' < NewNumericDate (now + 24 * hour)"
  shows "(\<forall>k. k \<noteq> [] \<and> k \<noteq> lr_WgPubKey req \<longrightarrow>
       rpc_Sync mem_ops lib now' ch addr' (Some [bearer (lo_Token resp)]) k s' = Inl PermissionDenied)
    \<and> (\<exists>ss m q. rpc_Sync mem_ops lib now' ch addr' (Some [bearer (lo_Token resp)]) (lr_WgPubKey req) s'
         = Inr (ss, m) \<and> q \<in> set (sr_Peers m)
         \<and> pb_WgPubKey q = lr_WgPubKey req \<and> pb_Ip q @ ''/32'' = lo_Address resp)"
proof -
  let ?sync = "\<lambda>k. rpc_Sync mem_ops lib now' ch addr' (Some [bearer (lo_Token resp)]) k s'"
  obtain sk ip ipam p where p: "enrolled mem_ops (sv_store s) (login_peer now u u8 (sourceIP addr) req sk ip) p"
    and g: "GetPeer mem_ops (lr_WgPubKey req) (sv_store s') = Inr p"
    and r: "lo_Address resp = ip @ ''/32''" "sv_auth s' = sv_auth s"
      "lo_Token resp = (case IssueToken lib now (p_ID p) (lr_WgPubKey req) (sk_AccountID sk) (sv_auth s) of
                          None \<Rightarrow> [] | Some t \<Rightarrow> t)"
    by (rule mem.Login_stores [OF assms(3) _ assms(4)]) auto
  have tok: "IssueToken lib now (p_ID p) (lr_WgPubKey req) (sk_AccountID sk) (sv_auth s) = Some (lo_Token resp)"
    using r(3) assms(2) [rule_format, of "peer_claims now (p_ID p) (lr_WgPubKey req) (sk_AccountID sk)"]
    by (auto simp: IssueToken_def)
  let ?c = "peer_claims now (p_ID p) (lr_WgPubKey req) (sk_AccountID sk)"
  have "ValidateToken lib now' (lo_Token resp) (sv_auth s') = Inr ?c"
    using ValidateToken_issued [OF assms(1) tok, of "sv_auth s'" now'] assms(6,7) r(2)
    by (auto split: option.splits)
  then have sync: "?sync k = fst (Sync_start mem_ops now' ch addr' (Some ?c) k True s')" for k
    by (simp add: rpc_Sync_def interceptor_bearer publicMethods_def)
  have ck: "cl_WGPubKey ?c = lr_WgPubKey req" by (simp add: peer_claims_def)
  have inv': "mem_inv (sv_store s')" using mem.Login_inv [OF assms(3,4)] .
  have "go_get (ms_peers (sv_store s')) (lr_WgPubKey req) = Some p"
    using g by (simp add: mem_GetPeer_Inr)
  from Sync_start_mem [OF inv' this assms(5), of "Some ?c" now' ch addr']
  have "\<exists>ss m q. ?sync (lr_WgPubKey req) = Inr (ss, m) \<and> q \<in> set (sr_Peers m)
      \<and> pb_WgPubKey q = lr_WgPubKey req \<and> pb_Ip q = p_IP p"
    using ck sync by auto
  moreover have "p_IP p = ip" using enrolled_sel [OF p] by simp
  moreover have "\<forall>k. k \<noteq> [] \<and> k \<noteq> lr_WgPubKey req \<longrightarrow> ?sync k = Inl PermissionDenied"
    by (auto simp: sync Sync_start_wrong_key ck)
  ultimately show ?thesis using r(1) by auto
qed

theorem Login_token_opens_own_stream_witness:
  "rpc_Sync mem_ops plain_jwt 5 0 None
     (Some [bearer (lo_Token (projr (fst (Login mem_ops plain_jwt 0 ''u'' ''u8'' None (example_login ''k1'') example_server))))])
     ''k2'' (snd (Login mem_ops plain_jwt 0 ''u'' ''u8'' None (example_login ''k1'') example_server))
   = Inl PermissionDenied"
proof -
  let ?l = "Login mem_ops plain_jwt 0 ''u'' ''u8'' None (example_login ''k1'') example_server"
  obtain resp where "fst ?l = Inr resp"
    by (simp add: example_login_def example_defs go_eval time_sub_def)
  then have l: "?l = (Inr (projr (fst ?l)), snd ?l)" by (metis prod.collapse sum.sel(2))
  have "\<forall>c. SignedString plain_jwt (am_secret (sv_auth example_server)) c \<noteq> None"
    by (simp add: plain_jwt_def)
  note * = Login_token_opens_own_stream [OF plain_jwt_round_trip this example_server_inv l, of 5 0 None]
  have "lr_WgPubKey (example_login ''k1'') = ''k1''" "am_revoked (sv_auth example_server) = []"
    by (simp_all add: example_login_def example_server_def New_Server_def NewManager_def)
  with * show ?thesis by (simp add: NewNumericDate_def time_defs)
qed

definition account_peer :: "string \<Rightarrow> mem_store \<Rightarrow> Peer \<Rightarrow> bool" where
  "account_peer a st p \<longleftrightarrow> (\<exists>k. go_get (ms_peers st) k = Some p) \<and> p_AccountID p = a"


text \<open>Group rules are expanded exactly: the rules sent for a rule with group endpoints are its
  copies for every pair of a source and a destination address that the two endpoints
  stand for, all other fields unchanged; a group without members yields no rule.\<close>

theorem expandGroupRule_exact:
  "set (expandGroupRule r (index_groups peers)) =
     {r\<lparr>r_Src := s, r_Dst := d\<rparr> | s d. s \<in> endpoint_ips peers (r_Src r) \<and> d \<in> endpoint_ips peers (r_Dst r)}"
  by (rule set_expandGroupRule)

text \<open>An exit node is used only when it is chosen and offered: the answer is a public key
  exactly when the asking peer selected it, it is not the asking peer, and it is a peer of
  the list that advertises the default route; in all other cases the answer is none.\<close>

theorem resolveExitNode_exact:
  assumes "distinct (map p_WGPubKey peers)" "k \<noteq> []"
  shows "resolveExitNode peers selfKey = k \<longleftrightarrow>
    (\<exists>p \<in> set peers. p_WGPubKey p = selfKey \<and> p_ExitNode p = k) \<and> k \<noteq> selfKey
    \<and> (\<exists>q \<in> set peers. p_WGPubKey q = k \<and> ''0.0.0.0/0'' \<in> set (p_AdvertisedRoutes q))"
proof -
  have find_iff: "find (\<lambda>p. p_WGPubKey p = x) peers = Some p \<longleftrightarrow> p \<in> set peers \<and> p_WGPubKey p = x" for x p
    using find_key_distinct [OF assms(1)] by (auto simp: find_Some_iff)
  show ?thesis (is "_ \<longleftrightarrow> ?R")
  proof
    assume h: "resolveExitNode peers selfKey = k"
    with assms(2) obtain p where p: "find (\<lambda>x. p_WGPubKey x = selfKey) peers = Some p"
      by (cases "find (\<lambda>x. p_WGPubKey x = selfKey) peers") (auto simp: resolveExitNode_def)
    have k: "p_ExitNode p = k" "k \<noteq> selfKey"
      using h assms(2) p by (auto simp: resolveExitNode_def Let_def split: option.splits if_splits)
    obtain q where "find (\<lambda>x. p_WGPubKey x = k) peers = Some q" "''0.0.0.0/0'' \<in> set (p_AdvertisedRoutes q)"
      using h assms(2) p k by (auto simp: resolveExitNode_def Let_def split: option.splits if_splits)
    with p k show ?R by (auto simp: find_iff)
  next
    assume ?R
    then obtain p q where "p \<in> set peers" "p_WGPubKey p = selfKey" "p_ExitNode p = k" "k \<noteq> selfKey"
      "q \<in> set peers" "p_WGPubKey q = k" "''0.0.0.0/0'' \<in> set (p_AdvertisedRoutes q)" by blast
    then have "find (\<lambda>x. p_WGPubKey x = selfKey) peers = Some p" "find (\<lambda>x. p_WGPubKey x = k) peers = Some q"
      by (simp_all add: find_iff)
    then show "resolveExitNode peers selfKey = k"
      using \<open>p_ExitNode p = k\<close> \<open>k \<noteq> selfKey\<close> \<open>''0.0.0.0/0'' \<in> set (p_AdvertisedRoutes q)\<close>
      by (simp add: resolveExitNode_def)
  qed
qed

theorem resolveExitNode_exact_witness:
  "resolveExitNode [zero_Peer\<lparr>p_WGPubKey := ''a'', p_ExitNode := ''b''\<rparr>,
      zero_Peer\<lparr>p_WGPubKey := ''b'', p_AdvertisedRoutes := [''0.0.0.0/0'']\<rparr>] ''a'' = ''b''"
  using resolveExitNode_exact [of "[zero_Peer\<lparr>p_WGPubKey := ''a'', p_ExitNode := ''b''\<rparr>,
      zero_Peer\<lparr>p_WGPubKey := ''b'', p_AdvertisedRoutes := [''0.0.0.0/0'']\<rparr>]" "''b''" "''a''"]
  by (simp add: zero_Peer_def)


definition example_subscribed :: "mem_store Server" where
  "example_subscribed =
     registerSub ''k2'' \<lparr>sub_peerKey = ''k2'', sub_accountID = ''b'', sub_ch = 2\<rparr>
       (registerSub ''k1'' \<lparr>sub_peerKey = ''k1'', sub_accountID = ''a'', sub_ch = 1\<rparr>
         (example_server\<lparr>sv_subs := [], sv_chans := [(1, False), (2, False)]\<rparr>))"

text \<open>A change reaches every subscriber of the account and nobody else: after a notification
  exactly the channels that subscriptions of the account name are full, all others are as they
  were, and the set of subscriptions is unchanged.\<close>

theorem notifyAll_exact:
  "(go_get (sv_chans (notifyAll a s)) c = Some True \<longleftrightarrow>
      go_get (sv_chans s) c = Some True
      \<or> (\<exists>sub \<in> set (go_values (sv_subs s)). sub_accountID sub = a \<and> sub_ch sub = c))
   \<and> ((\<forall>sub \<in> set (go_values (sv_subs s)). sub_ch sub = c \<longrightarrow> sub_accountID sub \<noteq> a) \<longrightarrow>
       go_get (sv_chans (notifyAll a s)) c = go_get (sv_chans s) c)
   \<and> sv_subs (notifyAll a s) = sv_subs s"
  by (auto simp: chans_notifyAll)

theorem notifyAll_exact_witness:
  "go_get (sv_chans (notifyAll ''a'' example_subscribed)) 1 = Some True
   \<and> go_get (sv_chans (notifyAll ''a'' example_subscribed)) 2 = Some False"
  using notifyAll_exact [of "''a''" example_subscribed 1] notifyAll_exact [of "''a''" example_subscribed 2]
  by (simp add: example_subscribed_def registerSub_def go_put_def go_get_def go_del_def go_values_def)

text \<open>C39. A reconnect can lose the subscription: when a second stream for a key starts before
  the first one has ended, the end of the first removes the subscription of the second. The
  key is then not listed as connected and no notification fills the channel of the second
  stream, although that stream is still open.\<close>

theorem reconnect_drops_subscription:
  assumes "mem_inv (sv_store s)" "go_get (ms_peers (sv_store s)) k = Some p" "k \<noteq> []"
    "go_wf (sv_subs s)" "\<forall>sub \<in> set (go_values (sv_subs s)). sub_ch sub \<noteq> ch2" "ch1 \<noteq> ch2"
    "Sync_start mem_ops t1 ch1 addr1 c1 k True s = (Inr (ss1, m1), s1)"
    "Sync_start mem_ops t2 ch2 addr2 c2 k True s1 = (Inr (ss2, m2), s2)"
  shows "go_get (ConnectedKeys (Sync_end mem_ops t3 ss1 s2)) k = None
    \<and> go_get (sv_chans (notifyAll a (Sync_end mem_ops t3 ss1 s2))) (ss_ch ss2) = Some False"
proof -
  obtain a1 a2 where subs: "sv_subs s2 = go_put k \<lparr>sub_peerKey = k, sub_accountID = a2, sub_ch = ch2\<rparr>
      (go_put k \<lparr>sub_peerKey = k, sub_accountID = a1, sub_ch = ch1\<rparr> (sv_subs s))"
    using Sync_start_subs(1) [OF assms(7)] Sync_start_subs(1) [OF assms(8)] by auto
  have ch: "sv_chans s2 = go_put ch2 False (go_put ch1 False (sv_chans s))" "ss_ch ss2 = ch2"
    using Sync_start_subs(2) [OF assms(7)] Sync_start_subs(2,3) [OF assms(8)] by auto
  have key: "p_WGPubKey (ss_peer ss1) = k" using mem.Sync_start_key [OF assms(1,7)] .
  let ?e = "Sync_end mem_ops t3 ss1 s2"
  have esubs: "sv_subs ?e = go_del k (sv_subs s)"
    using key subs by (simp add: Sync_end_def unregisterSub_def Let_def go_del_put)
  then have other: "\<forall>sub \<in> set (go_values (sv_subs ?e)). sub_ch sub \<noteq> ch2"
    using assms(4,5) by (auto simp: go_values_iff go_get_del split: if_splits)
  have unsub: "sv_subs (unregisterSub k s2) = go_del k (sv_subs s)"
    using subs by (simp add: unregisterSub_def go_del_put)
  have "go_get (sv_chans ?e) ch2 = Some False"
    using other esubs unsub key ch
    by (auto simp: Sync_end_def Let_def chans_notifyAll unregisterSub_def)
  then show ?thesis
    using other esubs ch(2) by (auto simp: chans_notifyAll ConnectedKeys_def go_get_None_iff go_keys_def
        go_del_def delete_keys)
qed

theorem reconnect_drops_subscription_witness:
  "go_get (ConnectedKeys (Sync_end mem_ops 3
      (fst (projr (fst (Sync_start mem_ops 1 0 None None ''k1'' True example_server))))
      (snd (Sync_start mem_ops 2 1 None None ''k1'' True
        (snd (Sync_start mem_ops 1 0 None None ''k1'' True example_server)))))) ''k1'' = None"
proof -
  let ?a = "Sync_start mem_ops 1 0 None None ''k1'' True example_server"
  let ?b = "Sync_start mem_ops 2 1 None None ''k1'' True (snd ?a)"
  obtain ss1 m1 ss2 m2 where r: "fst ?a = Inr (ss1, m1)" "fst ?b = Inr (ss2, m2)"
    by (auto simp: Sync_start_def mem_GetPeer_def sync_message_mem registerSub_def touch_mem mem_DerefPeer_def
        sourceIP_def Let_def example_defs New_Server_def zero_Peer_def go_get_def go_put_def)
  then have "?a = (Inr (ss1, m1), snd ?a)" "?b = (Inr (ss2, m2), snd ?b)"
    by (metis prod.collapse)+
  moreover have "go_get (ms_peers (sv_store example_server)) ''k1'' = Some example_peer"
    "sv_subs example_server = []"
    by (simp_all add: example_server_def New_Server_def go_get_def)
  ultimately show ?thesis
    using reconnect_drops_subscription [OF example_server_inv, of "''k1''" example_peer 1 0 1 None None
        ss1 m1 "snd ?a" 2 None None ss2 m2 "snd ?b" 3]
    by (simp add: r(1) go_values_def)
qed


definition example_once :: SetupKey where
  "example_once =
     \<lparr>sk_ID = ''id1'', sk_AccountID = ''default'', sk_Key = ''once'', sk_Name = ''one'', sk_Ephemeral = True,
      sk_UsedCount = 0, sk_AutoGroups = [''ops''], sk_CreatedAt = 0, sk_ExpiresAt = 1000\<rparr>"

definition example_server_once :: "mem_store Server" where
  "example_server_once =
     example_server\<lparr>sv_store := (sv_store example_server)\<lparr>ms_setupKeys := [(''once'', example_once)]\<rparr>\<rparr>"


text \<open>An agent can change its own record only, and the record follows what the agent reports:
  with the claims of its own key UpdatePeerMeta stores the reported metadata under that key,
  including the host name and the DNS label derived from it, and leaves every other peer
  alone; with the claims of another key it changes nothing.\<close>

theorem UpdatePeerMeta_own_record:
  assumes "mem_inv (sv_store s)" "GetPeer mem_ops k (sv_store s) = Inr p" "k \<noteq> []"
    "UpdatePeerMeta mem_ops now lbl (Some c) k (Some m) s = (r, s')"
  shows "if cl_WGPubKey c = k
    then r = Inr () \<and> (\<forall>k'. k' \<noteq> k \<longrightarrow> GetPeer mem_ops k' (sv_store s') = GetPeer mem_ops k' (sv_store s))
      \<and> (\<exists>q. GetPeer mem_ops k (sv_store s') = Inr q \<and> p_Hostname q = m_Hostname m
           \<and> p_DNSLabel q = ToDNSLabel lbl (m_Hostname m) \<and> p_Groups q = p_Groups p
           \<and> p_AccountID q = p_AccountID p \<and> p_IP q = p_IP p \<and> p_ExitNode q = p_ExitNode p)
    else r = Inl PermissionDenied \<and> s' = s"
proof (cases "cl_WGPubKey c = k")
  case True
  have g: "go_get (ms_peers (sv_store s)) k = Some p" using assms(2) by (simp add: mem_GetPeer_Inr)
  then have "p_WGPubKey p = k" using assms(1) by (auto simp: mem_inv_def dest: keyedD)
  with True g assms(3,4) show ?thesis
    by (auto simp: UpdatePeerMeta_def mem_GetPeer_def mem_AssignPeer_def mem_SavePeer_def Let_def go_get_put)
next
  case False
  with assms(3,4) show ?thesis by (auto simp: UpdatePeerMeta_def)
qed

theorem UpdatePeerMeta_own_record_witness:
  "\<exists>q. GetPeer mem_ops ''k1'' (sv_store (snd (UpdatePeerMeta mem_ops 5 ''u8'' (Some (peer_claims 0 ''p1'' ''k1'' ''default''))
       ''k1'' (Some \<lparr>m_Hostname = ''Laptop'', m_Os = ''linux'', m_Kernel = [], m_CoreVersion = [], m_LocalIp = []\<rparr>)
       example_server))) = Inr q \<and> p_Hostname q = ''Laptop''"
proof -
  have "GetPeer mem_ops ''k1'' (sv_store example_server) = Inr example_peer"
    by (simp add: example_server_def New_Server_def mem_GetPeer_def go_get_def)
  from UpdatePeerMeta_own_record [where now = 5 and lbl = "''u8''" and c = "peer_claims 0 ''p1'' ''k1'' ''default''"
      and m = "\<lparr>m_Hostname = ''Laptop'', m_Os = ''linux'', m_Kernel = [], m_CoreVersion = [], m_LocalIp = []\<rparr>",
      OF example_server_inv this _ prod.collapse [symmetric]]
  show ?thesis by (auto simp: peer_claims_def)
qed

end
