(* ===== verification/Http_Api.thy ===== *)
theory Http_Api
  imports Mgmt_Session
begin

text \<open>
  The HTTP interface of the management server
  (\<^verbatim>\<open>management/internal/httpserver/server.go\<close>), wired to the gRPC service the way
  \<^verbatim>\<open>management/cmd/server/main.go\<close> wires it: \<^verbatim>\<open>notify\<close>, \<^verbatim>\<open>connected\<close> and \<^verbatim>\<open>releaseIP\<close> are the methods
  \<^verbatim>\<open>NotifyAccount\<close>, \<^verbatim>\<open>ConnectedKeys\<close> and \<^verbatim>\<open>ReleaseIP\<close> of that service, and both share the store and
  the token manager. A handler is a function from the request to the response and the
  next state; the result of the JSON binding is part of the request, the clock readings,
  the random identifiers, the address of the client and the order in which a Go map is
  visited are its environment.
\<close>

section \<open>State, requests and responses\<close>

record 'st http_Server =
  hs_grpc :: "'st Server"
  hs_version :: string
  hs_adminUser :: string
  hs_adminPassword :: string
  hs_loginAttempts :: "(string, int) gomap"

definition New_http :: "'st Server \<Rightarrow> string \<Rightarrow> string \<Rightarrow> string \<Rightarrow> 'st http_Server" where
  "New_http grpcSrv version adminUser adminPassword =
     \<lparr>hs_grpc = grpcSrv, hs_version = version, hs_adminUser = adminUser,
      hs_adminPassword = adminPassword, hs_loginAttempts = []\<rparr>"

definition hs_store :: "'st http_Server \<Rightarrow> 'st" where
  "hs_store s = sv_store (hs_grpc s)"

definition with_store :: "'st \<Rightarrow> 'st http_Server \<Rightarrow> 'st http_Server" where
  "with_store st s = s\<lparr>hs_grpc := (hs_grpc s)\<lparr>sv_store := st\<rparr>\<rparr>"

definition notify :: "string \<Rightarrow> 'st http_Server \<Rightarrow> 'st http_Server" where
  "notify accountID s = s\<lparr>hs_grpc := NotifyAccount accountID (hs_grpc s)\<rparr>"

record http_env =
  en_now :: gtime
  en_uuid :: string
  en_uuid2 :: string
  en_uuid8 :: string
  en_ClientIP :: string
  en_srcFirst :: bool

datatype body =
    NoBody | ErrorBody string | StoreErrorBody store_error | InvalidGroupBody string
  | HealthBody string | PeersBody "Peer list" | PeerBody Peer | GroupsBody "(Group \<times> int) list"
  | GroupBody Group | SetupKeysBody "SetupKey list" | SetupKeyBody SetupKey | RulesBody "Rule list"
  | RuleBody Rule | TokenBody string

type_synonym response = "nat \<times> body"
type_synonym 'a bound = "string + 'a"

record updatePeer_req =
  up_Groups :: "string list"
  up_Hostname :: "string option"

record createSetupKey_req =
  ck_Name :: string
  ck_Ephemeral :: bool
  ck_ExpiresIn :: int
  ck_AutoGroups :: "string list"

record createRule_req =
  cr_Name :: string
  cr_Src :: string
  cr_Dst :: string
  cr_Protocol :: string
  cr_Port :: int
  cr_Action :: string
  cr_Enabled :: bool
  cr_Priority :: int

record updateRule_req =
  ur_Name :: "string option"
  ur_Src :: "string option"
  ur_Dst :: "string option"
  ur_Protocol :: "string option"
  ur_Port :: "int option"
  ur_Action :: "string option"
  ur_Enabled :: "bool option"
  ur_Priority :: "int option"

record login_req =
  lq_Username :: string
  lq_Password :: string

definition internal_error :: response where
  "internal_error = (500, ErrorBody ''internal server error'')"


section \<open>Validation\<close>

definition validProtocols :: "string list" where
  "validProtocols = [''tcp'', ''udp'', ''icmp'', ''all'']"

definition alnum :: "char \<Rightarrow> bool" where
  "alnum c \<longleftrightarrow> CHR ''A'' \<le> c \<and> c \<le> CHR ''Z'' \<or> CHR ''a'' \<le> c \<and> c \<le> CHR ''z'' \<or> CHR ''0'' \<le> c \<and> c \<le> CHR ''9''"

definition validGroupNameRe :: "string \<Rightarrow> bool" where
  "validGroupNameRe g =
     (case g of
        [] \<Rightarrow> False
      | c # cs \<Rightarrow> alnum c \<and> list_all (\<lambda>d. alnum d \<or> d = CHR ''_'' \<or> d = CHR ''-'') cs)"

definition isValidGroupName :: "string \<Rightarrow> bool" where
  "isValidGroupName g \<longleftrightarrow> 0 < length g \<and> length g \<le> 64 \<and> validGroupNameRe g"

definition endpoint_error :: "string \<times> string \<Rightarrow> string option" where
  "endpoint_error lv =
     (case lv of (label, val) \<Rightarrow>
        if val = ''*'' then None
        else if has_prefix val ''group:'' then
          (if length val \<le> 6 then Some (label @ '' group name cannot be empty'') else None)
        else if parse_ip val = None \<and> parse_cidr val = None
        then Some (label @ '' must be '' @ [CHR 0x27] @ ''*'' @ [CHR 0x27] @ '', '' @ [CHR 0x27] @ ''group:<name>''
                   @ [CHR 0x27] @ '', a valid IP, or a CIDR'')
        else None)"

fun first_error :: "('a \<Rightarrow> 'e option) \<Rightarrow> 'a list \<Rightarrow> 'e option" where
  "first_error f [] = None"
| "first_error f (x # xs) = (case f x of Some e \<Rightarrow> Some e | None \<Rightarrow> first_error f xs)"

definition validateRuleFields :: "bool \<Rightarrow> string \<Rightarrow> string \<Rightarrow> string \<Rightarrow> int \<Rightarrow> string option" where
  "validateRuleFields srcFirst src dst protocol port =
     (case first_error endpoint_error
             (if srcFirst then [(''src'', src), (''dst'', dst)] else [(''dst'', dst), (''src'', src)]) of
        Some e \<Rightarrow> Some e
      | None \<Rightarrow>
          if to_lower protocol \<notin> set validProtocols
          then Some ''protocol must be one of: tcp, udp, icmp, all''
          else if port < 0 \<or> 65535 < port
          then Some (''port must be 0'' @ [CHR 0xE2, CHR 0x80, CHR 0x93] @ ''65535'')
          else None)"

definition ensureDefaultGroup :: "string list \<Rightarrow> string list" where
  "ensureDefaultGroup groups =
     (if DefaultGroupName \<in> set groups then groups else DefaultGroupName # groups)"

definition meshNet :: "ipnet option" where
  "meshNet = map_option snd (parse_cidr ''100.64.0.0/10'')"

definition ipnet_ip :: "ipnet \<Rightarrow> addr" where
  "ipnet_ip n = (case n of IPNet4 b _ \<Rightarrow> V4 b | IPNet6 b _ \<Rightarrow> V6 b [])"

definition route_error :: "string \<Rightarrow> string option" where
  "route_error r =
     (if r = ''0.0.0.0/0'' \<or> r = ''::/0'' then None
      else
        (case parse_cidr r of
           None \<Rightarrow> Some (''invalid CIDR: '' @ r)
         | Some (_, cidr) \<Rightarrow>
             (case meshNet of
                None \<Rightarrow> None
              | Some mesh \<Rightarrow>
                  if ipnet_contains mesh (ipnet_ip cidr) \<or> ipnet_contains cidr (ipnet_ip mesh)
                  then Some (''route '' @ r @ '' conflicts with mesh CIDR 100.64.0.0/10'')
                  else None)))"

definition parseOrigins :: "string \<Rightarrow> string list" where
  "parseOrigins raw =
     (if raw = [] then [''http://localhost:3000'', ''https://localhost:3000'']
      else filter (\<lambda>o1. o1 \<noteq> []) (map trim_space (split_on (CHR '','') raw)))"


section \<open>Peers\<close>

definition listPeers :: "'st Store \<Rightarrow> Claims \<Rightarrow> 'st http_Server \<Rightarrow> response \<times> 'st http_Server" where
  "listPeers ops claims s =
     (case GetPeersByAccount ops (cl_AccountID claims) (hs_store s) of
        Inl _ \<Rightarrow> (internal_error, s)
      | Inr peers \<Rightarrow>
          (let conn = ConnectedKeys (hs_grpc s);
               mark = (\<lambda>p. p\<lparr>p_Connected := go_get conn (p_WGPubKey p) = Some True\<rparr>)
           in ((200, PeersBody (map mark peers)),
               with_store (fold (\<lambda>p. AssignPeer ops (p_WGPubKey p) mark) peers (hs_store s)) s)))"

text \<open>The save, the notification and the reply that end every change of a peer.\<close>

definition save_peer_and_reply ::
  "'st Store \<Rightarrow> string \<Rightarrow> Peer \<Rightarrow> 'st http_Server \<Rightarrow> response \<times> 'st http_Server" where
  "save_peer_and_reply ops accountID peer s =
     (case SavePeer ops peer (hs_store s) of
        Inl _ \<Rightarrow> (internal_error, s)
      | Inr st \<Rightarrow> ((200, PeerBody peer), notify accountID (with_store st s)))"

definition updatePeer ::
  "'st Store \<Rightarrow> http_env \<Rightarrow> Claims \<Rightarrow> string \<Rightarrow> updatePeer_req bound \<Rightarrow> 'st http_Server
   \<Rightarrow> response \<times> 'st http_Server" where
  "updatePeer ops env claims key body s =
     (case GetPeer ops key (hs_store s) of
        Inl _ \<Rightarrow> ((404, ErrorBody ''peer not found''), s)
      | Inr peer \<Rightarrow>
          if p_AccountID peer \<noteq> cl_AccountID claims then ((403, ErrorBody ''forbidden''), s)
          else
            (case body of
               Inl e \<Rightarrow> ((400, ErrorBody e), s)
             | Inr req \<Rightarrow>
                 (case find (\<lambda>g. \<not> isValidGroupName g) (up_Groups req) of
                    Some g \<Rightarrow> ((400, InvalidGroupBody g), s)
                  | None \<Rightarrow>
                      (let groups = ensureDefaultGroup (up_Groups req);
                           peer1 = peer\<lparr>p_Groups := groups\<rparr>;
                           s1 = with_store (AssignPeer ops key (p_Groups_update (\<lambda>_. groups)) (hs_store s)) s
                       in case up_Hostname req of
                            None \<Rightarrow> save_peer_and_reply ops (cl_AccountID claims) peer1 s1
                          | Some h \<Rightarrow>
                              (let name = trim_space h in
                               if name = [] \<or> 63 < length name
                               then ((400, ErrorBody ''hostname must be 1-63 characters''), s1)
                               else
                                 (let rename = (\<lambda>p. p\<lparr>p_Hostname := name, p_DNSLabel := ToDNSLabel (en_uuid8 env) name\<rparr>)
                                  in save_peer_and_reply ops (cl_AccountID claims) (rename peer1)
                                       (with_store (AssignPeer ops key rename (hs_store s1)) s1)))))))"

definition deletePeer ::
  "'st Store \<Rightarrow> http_env \<Rightarrow> Claims \<Rightarrow> string \<Rightarrow> 'st http_Server \<Rightarrow> response \<times> 'st http_Server" where
  "deletePeer ops env claims key s =
     (case GetPeer ops key (hs_store s) of
        Inl _ \<Rightarrow> ((404, ErrorBody ''peer not found''), s)
      | Inr peer \<Rightarrow>
          if p_AccountID peer \<noteq> cl_AccountID claims then ((403, ErrorBody ''forbidden''), s)
          else
            (case DeletePeer ops key (hs_store s) of
               Inl _ \<Rightarrow> (internal_error, s)
             | Inr st \<Rightarrow>
                 (let g = (hs_grpc s)\<lparr>sv_store := st\<rparr>;
                      g1 = g\<lparr>sv_auth := RevokeByWGKey (en_now env) key (sv_auth g)\<rparr>
                  in ((204, NoBody), s\<lparr>hs_grpc := ReleaseIP key g1\<rparr>))))"

definition offers_exit :: "Peer \<Rightarrow> bool" where
  "offers_exit gw \<longleftrightarrow> ''0.0.0.0/0'' \<in> set (p_AdvertisedRoutes gw)"

definition setPeerExitNode ::
  "'st Store \<Rightarrow> Claims \<Rightarrow> string \<Rightarrow> string bound \<Rightarrow> 'st http_Server \<Rightarrow> response \<times> 'st http_Server" where
  "setPeerExitNode ops claims key body s =
     (case body of
        Inl e \<Rightarrow> ((400, ErrorBody e), s)
      | Inr exitNode \<Rightarrow>
          (case GetPeer ops key (hs_store s) of
             Inl _ \<Rightarrow> ((404, ErrorBody ''peer not found''), s)
           | Inr peer \<Rightarrow>
               if p_AccountID peer \<noteq> cl_AccountID claims then ((403, ErrorBody ''forbidden''), s)
               else if exitNode = key then ((400, ErrorBody ''a peer cannot use itself as an exit node''), s)
               else
                 (let refusal =
                        (if exitNode = [] then None
                         else
                           (case GetPeer ops exitNode (hs_store s) of
                              Inl _ \<Rightarrow> Some ''exit node peer not found''
                            | Inr gw \<Rightarrow>
                                if p_AccountID gw \<noteq> cl_AccountID claims then Some ''exit node peer not found''
                                else if \<not> offers_exit gw
                                then Some ''that peer does not advertise 0.0.0.0/0, so it is not offering an exit node''
                                else None))
                  in case refusal of
                       Some e \<Rightarrow> ((400, ErrorBody e), s)
                     | None \<Rightarrow>
                         save_peer_and_reply ops (p_AccountID peer) (peer\<lparr>p_ExitNode := exitNode\<rparr>)
                           (with_store (AssignPeer ops key (p_ExitNode_update (\<lambda>_. exitNode)) (hs_store s)) s))))"

definition setPeerRoutes ::
  "'st Store \<Rightarrow> Claims \<Rightarrow> string \<Rightarrow> (string list) bound \<Rightarrow> 'st http_Server \<Rightarrow> response \<times> 'st http_Server" where
  "setPeerRoutes ops claims key body s =
     (case body of
        Inl e \<Rightarrow> ((400, ErrorBody e), s)
      | Inr routes \<Rightarrow>
          (case first_error route_error routes of
             Some e \<Rightarrow> ((400, ErrorBody e), s)
           | None \<Rightarrow>
               (case GetPeer ops key (hs_store s) of
                  Inl _ \<Rightarrow> ((404, ErrorBody ''peer not found''), s)
                | Inr peer \<Rightarrow>
                    if p_AccountID peer \<noteq> cl_AccountID claims then ((403, ErrorBody ''forbidden''), s)
                    else
                      save_peer_and_reply ops (p_AccountID peer) (peer\<lparr>p_AdvertisedRoutes := routes\<rparr>)
                        (with_store (AssignPeer ops key (p_AdvertisedRoutes_update (\<lambda>_. routes)) (hs_store s)) s))))"


section \<open>Groups\<close>

definition group_counts :: "Peer list \<Rightarrow> (string, int) gomap" where
  "group_counts peers =
     fold (\<lambda>p. fold (\<lambda>g c. go_put g ((case go_get c g of None \<Rightarrow> 0 | Some n \<Rightarrow> n) + 1) c) (p_Groups p)) peers []"

definition listGroups :: "'st Store \<Rightarrow> Claims \<Rightarrow> 'st http_Server \<Rightarrow> response \<times> 'st http_Server" where
  "listGroups ops claims s =
     (case GetGroupsByAccount ops (cl_AccountID claims) (hs_store s) of
        Inl _ \<Rightarrow> (internal_error, s)
      | Inr groups \<Rightarrow>
          (case GetPeersByAccount ops (cl_AccountID claims) (hs_store s) of
             Inl _ \<Rightarrow> (internal_error, s)
           | Inr peers \<Rightarrow>
               (let counts = group_counts peers in
                ((200, GroupsBody (map (\<lambda>g. (g, case go_get counts (g_Name g) of None \<Rightarrow> 0 | Some n \<Rightarrow> n)) groups)), s))))"

definition createGroup ::
  "'st Store \<Rightarrow> http_env \<Rightarrow> Claims \<Rightarrow> string bound \<Rightarrow> 'st http_Server \<Rightarrow> response \<times> 'st http_Server" where
  "createGroup ops env claims body s =
     (case body of
        Inl e \<Rightarrow> ((400, ErrorBody e), s)
      | Inr name \<Rightarrow>
          if \<not> isValidGroupName name
          then ((400, ErrorBody ''group name must be alphanumeric, hyphens, or underscores''), s)
          else
            (case GetGroupsByAccount ops (cl_AccountID claims) (hs_store s) of
               Inl _ \<Rightarrow> (internal_error, s)
             | Inr existing \<Rightarrow>
                 if list_ex (\<lambda>g. g_Name g = name) existing
                 then ((409, ErrorBody ''a group with that name already exists''), s)
                 else
                   (let g = \<lparr>g_ID = en_uuid env, g_AccountID = cl_AccountID claims, g_Name = name,
                             g_CreatedAt = en_now env\<rparr>
                    in case CreateGroup ops g (hs_store s) of
                         Inl _ \<Rightarrow> (internal_error, s)
                       | Inr st \<Rightarrow> ((201, GroupBody g), with_store st s))))"

definition deleteGroup ::
  "'st Store \<Rightarrow> Claims \<Rightarrow> string \<Rightarrow> 'st http_Server \<Rightarrow> response \<times> 'st http_Server" where
  "deleteGroup ops claims i s =
     (case GetGroupsByAccount ops (cl_AccountID claims) (hs_store s) of
        Inl _ \<Rightarrow> (internal_error, s)
      | Inr groups \<Rightarrow>
          if list_ex (\<lambda>g. g_ID g = i \<and> g_Name g = DefaultGroupName) groups
          then ((400, ErrorBody (''the Default group can'' @ [CHR 0x27] @ ''t be deleted'')), s)
          else
            (case DeleteGroup ops (cl_AccountID claims) i (hs_store s) of
               Inl e \<Rightarrow> ((404, StoreErrorBody e), s)
             | Inr st \<Rightarrow> ((204, NoBody), with_store st s)))"


section \<open>Setup keys\<close>

definition listSetupKeys :: "'st Store \<Rightarrow> Claims \<Rightarrow> 'st http_Server \<Rightarrow> response \<times> 'st http_Server" where
  "listSetupKeys ops claims s =
     (case GetSetupKeysByAccount ops (cl_AccountID claims) (hs_store s) of
        Inl _ \<Rightarrow> (internal_error, s)
      | Inr keys \<Rightarrow> ((200, SetupKeysBody keys), s))"

definition createSetupKey ::
  "'st Store \<Rightarrow> http_env \<Rightarrow> Claims \<Rightarrow> createSetupKey_req bound \<Rightarrow> 'st http_Server
   \<Rightarrow> response \<times> 'st http_Server" where
  "createSetupKey ops env claims body s =
     (case body of
        Inl e \<Rightarrow> ((400, ErrorBody e), s)
      | Inr req \<Rightarrow>
          (case find (\<lambda>g. \<not> isValidGroupName g) (ck_AutoGroups req) of
             Some g \<Rightarrow> ((400, InvalidGroupBody g), s)
           | None \<Rightarrow>
               (let expiresIn = (if ck_ExpiresIn req \<le> 0 \<or> 365 < ck_ExpiresIn req then 365 else ck_ExpiresIn req);
                    sk = \<lparr>sk_ID = en_uuid env, sk_AccountID = cl_AccountID claims, sk_Key = en_uuid2 env,
                          sk_Name = ck_Name req, sk_Ephemeral = ck_Ephemeral req, sk_UsedCount = 0,
                          sk_AutoGroups = ck_AutoGroups req, sk_CreatedAt = en_now env,
                          sk_ExpiresAt = en_now env + expiresIn * 24 * hour\<rparr>
                in case CreateSetupKey ops sk (hs_store s) of
                     Inl _ \<Rightarrow> (internal_error, s)
                   | Inr st \<Rightarrow> ((201, SetupKeyBody sk), with_store st s))))"

definition deleteSetupKey ::
  "'st Store \<Rightarrow> Claims \<Rightarrow> string \<Rightarrow> 'st http_Server \<Rightarrow> response \<times> 'st http_Server" where
  "deleteSetupKey ops claims i s =
     (case DeleteSetupKey ops (cl_AccountID claims) i (hs_store s) of
        Inl e \<Rightarrow> ((404, StoreErrorBody e), s)
      | Inr st \<Rightarrow> ((204, NoBody), with_store st s))"


section \<open>Rules\<close>

definition listRules :: "'st Store \<Rightarrow> Claims \<Rightarrow> 'st http_Server \<Rightarrow> response \<times> 'st http_Server" where
  "listRules ops claims s =
     (case GetRulesByAccount ops (cl_AccountID claims) (hs_store s) of
        Inl _ \<Rightarrow> (internal_error, s)
      | Inr rules \<Rightarrow> ((200, RulesBody rules), s))"

definition bad_action :: "string \<Rightarrow> bool" where
  "bad_action a \<longleftrightarrow> a \<noteq> ''allow'' \<and> a \<noteq> ''deny''"

definition action_error :: response where
  "action_error = (400, ErrorBody (''action must be '' @ [CHR 0x27] @ ''allow'' @ [CHR 0x27] @ '' or ''
     @ [CHR 0x27] @ ''deny'' @ [CHR 0x27]))"

definition createRule ::
  "'st Store \<Rightarrow> http_env \<Rightarrow> Claims \<Rightarrow> createRule_req bound \<Rightarrow> 'st http_Server
   \<Rightarrow> response \<times> 'st http_Server" where
  "createRule ops env claims body s =
     (case body of
        Inl e \<Rightarrow> ((400, ErrorBody e), s)
      | Inr req \<Rightarrow>
          if bad_action (cr_Action req) then (action_error, s)
          else
            (case validateRuleFields (en_srcFirst env) (cr_Src req) (cr_Dst req) (cr_Protocol req) (cr_Port req) of
               Some e \<Rightarrow> ((400, ErrorBody e), s)
             | None \<Rightarrow>
                 (let rule = \<lparr>r_ID = en_uuid env, r_AccountID = cl_AccountID claims, r_Name = cr_Name req,
                              r_Src = cr_Src req, r_Dst = cr_Dst req, r_Protocol = cr_Protocol req,
                              r_Port = cr_Port req, r_Action = cr_Action req, r_Enabled = cr_Enabled req,
                              r_Priority = cr_Priority req, r_CreatedAt = en_now env\<rparr>
                  in case SaveRule ops rule (hs_store s) of
                       Inl _ \<Rightarrow> (internal_error, s)
                     | Inr st \<Rightarrow> ((201, RuleBody rule), notify (cl_AccountID claims) (with_store st s)))))"

definition or_else :: "'a option \<Rightarrow> 'a \<Rightarrow> 'a" where
  "or_else v d = (case v of None \<Rightarrow> d | Some x \<Rightarrow> x)"

definition merge_rule :: "updateRule_req \<Rightarrow> Rule \<Rightarrow> Rule" where
  "merge_rule req r =
     r\<lparr>r_Name := or_else (ur_Name req) (r_Name r), r_Src := or_else (ur_Src req) (r_Src r),
       r_Dst := or_else (ur_Dst req) (r_Dst r), r_Protocol := or_else (ur_Protocol req) (r_Protocol r),
       r_Port := or_else (ur_Port req) (r_Port r), r_Action := or_else (ur_Action req) (r_Action r),
       r_Enabled := or_else (ur_Enabled req) (r_Enabled r),
       r_Priority := or_else (ur_Priority req) (r_Priority r)\<rparr>"

definition updateRule ::
  "'st Store \<Rightarrow> http_env \<Rightarrow> Claims \<Rightarrow> string \<Rightarrow> updateRule_req bound \<Rightarrow> 'st http_Server
   \<Rightarrow> response \<times> 'st http_Server" where
  "updateRule ops env claims i body s =
     (case GetRulesByAccount ops (cl_AccountID claims) (hs_store s) of
        Inl _ \<Rightarrow> (internal_error, s)
      | Inr rules \<Rightarrow>
          (case find (\<lambda>r. r_ID r = i) rules of
             None \<Rightarrow> ((404, ErrorBody ''rule not found''), s)
           | Some existing \<Rightarrow>
               (case body of
                  Inl e \<Rightarrow> ((400, ErrorBody e), s)
                | Inr req \<Rightarrow>
                    if (case ur_Action req of None \<Rightarrow> False | Some a \<Rightarrow> bad_action a) then (action_error, s)
                    else
                      (let r = merge_rule req existing in
                       case validateRuleFields (en_srcFirst env) (r_Src r) (r_Dst r) (r_Protocol r) (r_Port r) of
                         Some e \<Rightarrow> ((400, ErrorBody e), s)
                       | None \<Rightarrow>
                           (case SaveRule ops r (hs_store s) of
                              Inl _ \<Rightarrow> (internal_error, s)
                            | Inr st \<Rightarrow> ((200, RuleBody r), notify (cl_AccountID claims) (with_store st s)))))))"

definition deleteRule ::
  "'st Store \<Rightarrow> Claims \<Rightarrow> string \<Rightarrow> 'st http_Server \<Rightarrow> response \<times> 'st http_Server" where
  "deleteRule ops claims i s =
     (case DeleteRule ops (cl_AccountID claims) i (hs_store s) of
        Inl e \<Rightarrow> ((404, StoreErrorBody e), s)
      | Inr st \<Rightarrow> ((204, NoBody), notify (cl_AccountID claims) (with_store st s)))"


section \<open>Administrator login and access control\<close>

text \<open>The counters of failed logins are emptied once a minute.\<close>

definition reset_attempts :: "'st http_Server \<Rightarrow> 'st http_Server" where
  "reset_attempts s = s\<lparr>hs_loginAttempts := []\<rparr>"

definition attempts :: "string \<Rightarrow> 'st http_Server \<Rightarrow> int" where
  "attempts ip s = (case go_get (hs_loginAttempts s) ip of None \<Rightarrow> 0 | Some n \<Rightarrow> n)"

definition adminLogin ::
  "jwt_lib \<Rightarrow> http_env \<Rightarrow> login_req bound \<Rightarrow> 'st http_Server \<Rightarrow> response \<times> 'st http_Server" where
  "adminLogin lib env body s =
     (if hs_adminPassword s = [] then ((403, ErrorBody ''admin login is not enabled''), s)
      else
        (let ip = en_ClientIP env in
         if 10 \<le> attempts ip s then ((429, ErrorBody ''too many login attempts, try again later''), s)
         else
           (case body of
              Inl e \<Rightarrow> ((400, ErrorBody e), s)
            | Inr req \<Rightarrow>
                if lq_Username req \<noteq> hs_adminUser s \<or> lq_Password req \<noteq> hs_adminPassword s
                then ((401, ErrorBody ''invalid credentials''),
                      s\<lparr>hs_loginAttempts := go_put ip (attempts ip s + 1) (hs_loginAttempts s)\<rparr>)
                else
                  (case IssueAdminToken lib (en_now env) ''default'' (sv_auth (hs_grpc s)) of
                     None \<Rightarrow> ((500, ErrorBody ''could not issue token''), s)
                   | Some token \<Rightarrow> ((200, TokenBody token), s)))))"

definition bearer_token :: "string \<Rightarrow> string" where
  "bearer_token token =
     (if 7 < length token \<and> take 7 token = ''Bearer '' then drop 7 token else token)"

definition authMiddleware ::
  "jwt_lib \<Rightarrow> http_env \<Rightarrow> string \<Rightarrow> (Claims \<Rightarrow> 'st http_Server \<Rightarrow> response \<times> 'st http_Server)
   \<Rightarrow> 'st http_Server \<Rightarrow> response \<times> 'st http_Server" where
  "authMiddleware lib env header next s =
     (case ValidateToken lib (en_now env) (bearer_token header) (sv_auth (hs_grpc s)) of
        Inl _ \<Rightarrow> ((401, ErrorBody ''invalid token''), s)
      | Inr claims \<Rightarrow> next claims s)"

definition adminOnly ::
  "(Claims \<Rightarrow> 'st http_Server \<Rightarrow> response \<times> 'st http_Server) \<Rightarrow> Claims \<Rightarrow> 'st http_Server
   \<Rightarrow> response \<times> 'st http_Server" where
  "adminOnly next claims s =
     (if cl_Role claims \<noteq> ''admin'' then ((403, ErrorBody ''admin access required''), s)
      else next claims s)"

text \<open>The routes: one constructor for each registered method and path, with the path
  parameter and the bound body.\<close>

datatype request =
    GetHealth | PostLogin "login_req bound"
  | GetPeers | PutPeer string "updatePeer_req bound" | RemovePeer string
  | PutPeerRoutes string "string list bound" | PutPeerExitNode string "string bound"
  | GetGroups | PostGroup "string bound" | RemoveGroup string
  | GetSetupKeys | PostSetupKey "createSetupKey_req bound" | RemoveSetupKey string
  | GetRules | PostRule "createRule_req bound" | PutRule string "updateRule_req bound" | RemoveRule string

definition health :: "'st http_Server \<Rightarrow> response \<times> 'st http_Server" where
  "health s = ((200, HealthBody (hs_version s)), s)"

definition registerRoutes ::
  "'st Store \<Rightarrow> jwt_lib \<Rightarrow> http_env \<Rightarrow> string \<Rightarrow> request \<Rightarrow> 'st http_Server
   \<Rightarrow> response \<times> 'st http_Server" where
  "registerRoutes ops lib env header req =
     (let authenticated = authMiddleware lib env header;
          admin = (\<lambda>h. authMiddleware lib env header (adminOnly h))
      in case req of
           GetHealth \<Rightarrow> health
         | PostLogin b \<Rightarrow> adminLogin lib env b
         | GetPeers \<Rightarrow> authenticated (listPeers ops)
         | PutPeer k b \<Rightarrow> admin (\<lambda>c. updatePeer ops env c k b)
         | RemovePeer k \<Rightarrow> admin (\<lambda>c. deletePeer ops env c k)
         | PutPeerRoutes k b \<Rightarrow> admin (\<lambda>c. setPeerRoutes ops c k b)
         | PutPeerExitNode k b \<Rightarrow> admin (\<lambda>c. setPeerExitNode ops c k b)
         | GetGroups \<Rightarrow> authenticated (listGroups ops)
         | PostGroup b \<Rightarrow> admin (\<lambda>c. createGroup ops env c b)
         | RemoveGroup i \<Rightarrow> admin (\<lambda>c. deleteGroup ops c i)
         | GetSetupKeys \<Rightarrow> admin (listSetupKeys ops)
         | PostSetupKey b \<Rightarrow> admin (\<lambda>c. createSetupKey ops env c b)
         | RemoveSetupKey i \<Rightarrow> admin (\<lambda>c. deleteSetupKey ops c i)
         | GetRules \<Rightarrow> authenticated (listRules ops)
         | PostRule b \<Rightarrow> admin (\<lambda>c. createRule ops env c b)
         | PutRule i b \<Rightarrow> admin (\<lambda>c. updateRule ops env c i b)
         | RemoveRule i \<Rightarrow> admin (\<lambda>c. deleteRule ops c i))"

lemmas http_defs =
  New_http_def hs_store_def with_store_def notify_def internal_error_def validProtocols_def
  alnum_def validGroupNameRe_def isValidGroupName_def endpoint_error_def first_error.simps
  validateRuleFields_def ensureDefaultGroup_def meshNet_def ipnet_ip_def route_error_def
  parseOrigins_def listPeers_def save_peer_and_reply_def updatePeer_def deletePeer_def
  offers_exit_def setPeerExitNode_def setPeerRoutes_def group_counts_def listGroups_def
  createGroup_def deleteGroup_def listSetupKeys_def createSetupKey_def deleteSetupKey_def
  listRules_def bad_action_def action_error_def createRule_def or_else_def merge_rule_def
  updateRule_def deleteRule_def reset_attempts_def attempts_def adminLogin_def bearer_token_def
  authMiddleware_def adminOnly_def health_def registerRoutes_def

declare http_defs [go_eval]

end
