(* ===== verification/Http_Edits.thy ===== *)
theory Http_Edits
  imports Http_Api
begin

text \<open>
  The specification of what a request of the HTTP interface may do to the store, as a
  relation of elementary edits on behalf of one account, and the proof that every handler
  performs only such edits. The properties of the interface rest on it.
\<close>

section \<open>The edits an account may make\<close>

definition rule_ok :: "Rule \<Rightarrow> bool" where
  "rule_ok r \<longleftrightarrow> \<not> bad_action (r_Action r)
     \<and> validateRuleFields True (r_Src r) (r_Dst r) (r_Protocol r) (r_Port r) = None"

text \<open>A change of a peer record keeps who the peer is: key, account, identity and address.\<close>

definition same_peer :: "Peer \<Rightarrow> Peer \<Rightarrow> bool" where
  "same_peer p q \<longleftrightarrow> p_WGPubKey q = p_WGPubKey p \<and> p_AccountID q = p_AccountID p \<and> p_ID q = p_ID p
     \<and> p_IP q = p_IP p \<and> (p_Groups q = p_Groups p \<or> DefaultGroupName \<in> set (p_Groups q))"

inductive edit :: "http_env \<Rightarrow> string \<Rightarrow> mem_store \<Rightarrow> mem_store \<Rightarrow> bool" for env a where
  edit_peer: "go_get (ms_peers st) k = Some p \<Longrightarrow> p_AccountID p = a \<Longrightarrow> same_peer p q \<Longrightarrow>
    edit env a st (st\<lparr>ms_peers := go_put k q (ms_peers st)\<rparr>)"
| edit_del_peer: "go_get (ms_peers st) k = Some p \<Longrightarrow> p_AccountID p = a \<Longrightarrow>
    edit env a st (st\<lparr>ms_peers := go_del k (ms_peers st)\<rparr>)"
| edit_group: "g_AccountID g = a \<Longrightarrow> g_ID g = en_uuid env \<Longrightarrow>
    edit env a st (st\<lparr>ms_groups := go_put (g_ID g) g (ms_groups st)\<rparr>)"
| edit_del_group: "go_get (ms_groups st) i = Some g \<Longrightarrow> g_AccountID g = a \<Longrightarrow> g_Name g \<noteq> DefaultGroupName \<Longrightarrow>
    edit env a st (st\<lparr>ms_groups := go_del i (ms_groups st)\<rparr>)"
| edit_key: "sk_AccountID sk = a \<Longrightarrow> sk_Key sk = en_uuid2 env \<Longrightarrow>
    edit env a st (st\<lparr>ms_setupKeys := go_put (sk_Key sk) sk (ms_setupKeys st)\<rparr>)"
| edit_del_key: "go_get (ms_setupKeys st) k = Some sk \<Longrightarrow> sk_AccountID sk = a \<Longrightarrow>
    edit env a st (st\<lparr>ms_setupKeys := go_del k (ms_setupKeys st)\<rparr>)"
| edit_rule: "r_AccountID r = a \<Longrightarrow> rule_ok r \<Longrightarrow> r_ID r = en_uuid env \<Longrightarrow>
    edit env a st (st\<lparr>ms_rules := go_put (r_ID r) r (ms_rules st)\<rparr>)"
| edit_old_rule: "go_get (ms_rules st) (r_ID r) = Some old \<Longrightarrow> r_AccountID old = a \<Longrightarrow> r_AccountID r = a \<Longrightarrow>
    (rule_ok old \<Longrightarrow> rule_ok r) \<Longrightarrow>
    edit env a st (st\<lparr>ms_rules := go_put (r_ID r) r (ms_rules st)\<rparr>)"
| edit_del_rule: "go_get (ms_rules st) i = Some r \<Longrightarrow> r_AccountID r = a \<Longrightarrow>
    edit env a st (st\<lparr>ms_rules := go_del i (ms_rules st)\<rparr>)"

abbreviation edits :: "http_env \<Rightarrow> string \<Rightarrow> mem_store \<Rightarrow> mem_store \<Rightarrow> bool" where
  "edits env a \<equiv> (edit env a)\<^sup>*\<^sup>*"

text \<open>Everything else that a handler leaves alone.\<close>

definition frame :: "'st http_Server \<Rightarrow> 'st http_Server \<Rightarrow> bool" where
  "frame s s' \<longleftrightarrow>
     sv_auth (hs_grpc s') = sv_auth (hs_grpc s) \<and> sv_ipam (hs_grpc s') = sv_ipam (hs_grpc s)
     \<and> sv_subs (hs_grpc s') = sv_subs (hs_grpc s) \<and> sv_network (hs_grpc s') = sv_network (hs_grpc s)
     \<and> hs_adminUser s' = hs_adminUser s \<and> hs_adminPassword s' = hs_adminPassword s"


section \<open>Lemmas\<close>

lemma mem_DeletePeer_sel [simp]: "DeletePeer mem_ops = mem_DeletePeer"
  and mem_GetGroups_sel [simp]: "GetGroupsByAccount mem_ops = mem_GetGroupsByAccount"
  and mem_CreateGroup_sel [simp]: "CreateGroup mem_ops = mem_CreateGroup"
  and mem_DeleteGroup_sel [simp]: "DeleteGroup mem_ops = mem_DeleteGroup"
  and mem_GetSetupKeys_sel [simp]: "GetSetupKeysByAccount mem_ops = mem_GetSetupKeysByAccount"
  and mem_CreateSetupKey_sel [simp]: "CreateSetupKey mem_ops = mem_CreateSetupKey"
  and mem_DeleteSetupKey_sel [simp]: "DeleteSetupKey mem_ops = mem_DeleteSetupKey"
  and mem_SaveRule_sel [simp]: "SaveRule mem_ops = mem_SaveRule"
  and mem_DeleteRule_sel [simp]: "DeleteRule mem_ops = mem_DeleteRule"
  by (simp_all add: mem_ops_def)

lemma hs_store_simps [simp]:
  "hs_store (with_store st s) = st" "hs_store (notify a s) = hs_store s"
  "sv_auth (hs_grpc (with_store st s)) = sv_auth (hs_grpc s)"
  "sv_auth (hs_grpc (notify a s)) = sv_auth (hs_grpc s)"
  "sv_ipam (hs_grpc (with_store st s)) = sv_ipam (hs_grpc s)"
  "sv_ipam (hs_grpc (notify a s)) = sv_ipam (hs_grpc s)"
  by (simp_all add: hs_store_def with_store_def notify_def NotifyAccount_def)

lemma frame_refl [simp]: "frame s s"
  and frame_store [simp]: "frame s (with_store st t) = frame s t"
  and frame_notify [simp]: "frame s (notify a t) = frame s t"
  and frame_with_store [simp]: "frame (with_store st s) t = frame s t"
  by (simp_all add: frame_def with_store_def notify_def NotifyAccount_def)

lemma save_peer_mem:
  "save_peer_and_reply mem_ops a p s =
     ((200, PeerBody p), notify a (with_store (hs_store s\<lparr>ms_peers := go_put (p_WGPubKey p) p (ms_peers (hs_store s))\<rparr>) s))"
  by (simp add: save_peer_and_reply_def mem_SavePeer_def)

lemma validate_order: "validateRuleFields o1 a b c d = None \<longleftrightarrow> validateRuleFields o2 a b c d = None"
  unfolding validateRuleFields_def
  by (auto split: option.splits)

text \<open>A change through the pointer followed by a save is one edit of the record.\<close>

lemma assign_save_edit:
  assumes "mem_inv st" "go_get (ms_peers st) k = Some p" "p_AccountID p = a" "same_peer p q"
  shows "edit env a st ((mem_AssignPeer k f st)\<lparr>ms_peers := go_put (p_WGPubKey q) q (ms_peers (mem_AssignPeer k f st))\<rparr>)"
proof -
  have "p_WGPubKey q = k" using assms by (auto simp: same_peer_def mem_inv_def dest: keyedD)
  then show ?thesis
    using edit_peer [OF assms(2,3,4), of env] assms(2) by (simp add: mem_AssignPeer_def)
qed

lemma assign_edit:
  assumes "go_get (ms_peers st) k = Some p" "p_AccountID p = a" "same_peer p (f p)"
  shows "edit env a st (mem_AssignPeer k f st)"
  using edit_peer [OF assms, of env] assms(1) by (simp add: mem_AssignPeer_def)

subsection \<open>Every handler performs edits of the account of the caller\<close>

definition handled :: "http_env \<Rightarrow> string \<Rightarrow> mem_store http_Server \<Rightarrow> response \<times> mem_store http_Server \<Rightarrow> bool" where
  "handled env a s out \<longleftrightarrow> edits env a (hs_store s) (hs_store (snd out)) \<and> frame s (snd out)"

lemma handled_same [simp]: "handled env a s (r, s)"
  by (simp add: handled_def)

lemma handled_store: "edit env a (hs_store s) st \<Longrightarrow> handled env a s (r, with_store st s)"
  and handled_store_notify: "edit env a (hs_store s) st \<Longrightarrow> handled env a s (r, notify b (with_store st s))"
  by (simp_all add: handled_def r_into_rtranclp)

lemma handled_after: "edit env a (hs_store s) st \<Longrightarrow> handled env a (with_store st s) out \<Longrightarrow> handled env a s out"
  by (simp add: handled_def converse_rtranclp_into_rtranclp)

lemma handled_save:
  assumes "mem_inv (hs_store s)" "go_get (ms_peers (hs_store s)) k = Some p" "p_AccountID p = a" "same_peer p q"
  shows "handled env a s
    (save_peer_and_reply mem_ops b q (with_store (mem_AssignPeer k f (hs_store s)) s))"
  using assign_save_edit [OF assms, of env f]
  by (simp add: handled_def save_peer_mem r_into_rtranclp)

lemma handled_updatePeer:
  assumes inv: "mem_inv (hs_store s)"
  shows "handled env (cl_AccountID c) s (updatePeer mem_ops env c k b s)"
proof (cases "go_get (ms_peers (hs_store s)) k")
  case None
  then show ?thesis by (simp add: updatePeer_def mem_GetPeer_def)
next
  case (Some p)
  show ?thesis
  proof (cases "p_AccountID p = cl_AccountID c")
    case False
    with Some show ?thesis by (simp add: updatePeer_def mem_GetPeer_def)
  next
    case acc: True
    show ?thesis
    proof (cases b)
      case (Inl e)
      with Some acc show ?thesis by (simp add: updatePeer_def mem_GetPeer_def)
    next
      case (Inr req)
      let ?g = "ensureDefaultGroup (up_Groups req)"
      have d: "DefaultGroupName \<in> set ?g" by (simp add: ensureDefaultGroup_def)
      let ?st = "mem_AssignPeer k (p_Groups_update (\<lambda>_. ?g)) (hs_store s)"
      have st: "?st = hs_store s\<lparr>ms_peers := go_put k (p\<lparr>p_Groups := ?g\<rparr>) (ms_peers (hs_store s))\<rparr>"
        using Some by (simp add: mem_AssignPeer_def)
      have e1: "edit env (cl_AccountID c) (hs_store s) ?st"
        unfolding st by (rule edit_peer [OF Some acc]) (simp add: same_peer_def d)
      have h1: "handled env (cl_AccountID c) s (r, with_store ?st s)" for r
        by (rule handled_store [OF e1])
      have h2: "handled env (cl_AccountID c) s (save_peer_and_reply mem_ops a (p\<lparr>p_Groups := ?g\<rparr>) (with_store ?st s))" for a
        by (rule handled_save [OF inv Some acc]) (simp add: same_peer_def d)
      have h3: "handled env (cl_AccountID c) s
          (save_peer_and_reply mem_ops (cl_AccountID c) (p\<lparr>p_Groups := ?g, p_Hostname := n, p_DNSLabel := l\<rparr>)
            (with_store (mem_AssignPeer k (\<lambda>q. q\<lparr>p_Hostname := n, p_DNSLabel := l\<rparr>) ?st) (with_store ?st s)))" for n l
      proof (rule handled_after [OF e1])
        have "mem_inv ?st" by (rule mem_inv_assign [OF inv]) simp
        then show "handled env (cl_AccountID c) (with_store ?st s)
          (save_peer_and_reply mem_ops (cl_AccountID c) (p\<lparr>p_Groups := ?g, p_Hostname := n, p_DNSLabel := l\<rparr>)
            (with_store (mem_AssignPeer k (\<lambda>q. q\<lparr>p_Hostname := n, p_DNSLabel := l\<rparr>) ?st) (with_store ?st s)))"
          using handled_save [of "with_store ?st s" k "p\<lparr>p_Groups := ?g\<rparr>" "cl_AccountID c"
              "p\<lparr>p_Groups := ?g, p_Hostname := n, p_DNSLabel := l\<rparr>"] acc
          by (simp add: st same_peer_def)
      qed
      show ?thesis
        using Some acc Inr h1 h2
        by (simp add: updatePeer_def mem_GetPeer_def Let_def h3 split: option.split)
    qed
  qed
qed

lemma handled_setPeerExitNode:
  assumes "mem_inv (hs_store s)"
  shows "handled env (cl_AccountID c) s (setPeerExitNode mem_ops c k b s)"
proof (cases "go_get (ms_peers (hs_store s)) k")
  case None
  then show ?thesis by (simp add: setPeerExitNode_def mem_GetPeer_def split: sum.split)
next
  case (Some p)
  have "handled env (cl_AccountID c) s (save_peer_and_reply mem_ops a (p\<lparr>p_ExitNode := x\<rparr>)
      (with_store (mem_AssignPeer k f (hs_store s)) s))" if "p_AccountID p = cl_AccountID c" for a x f
    by (rule handled_save [OF assms Some that]) (simp add: same_peer_def)
  with Some show ?thesis
    by (simp add: setPeerExitNode_def mem_GetPeer_def Let_def split: sum.split option.split)
qed

lemma handled_setPeerRoutes:
  assumes "mem_inv (hs_store s)"
  shows "handled env (cl_AccountID c) s (setPeerRoutes mem_ops c k b s)"
proof (cases "go_get (ms_peers (hs_store s)) k")
  case None
  then show ?thesis by (simp add: setPeerRoutes_def mem_GetPeer_def split: sum.split option.split)
next
  case (Some p)
  have "handled env (cl_AccountID c) s (save_peer_and_reply mem_ops a (p\<lparr>p_AdvertisedRoutes := x\<rparr>)
      (with_store (mem_AssignPeer k f (hs_store s)) s))" if "p_AccountID p = cl_AccountID c" for a x f
    by (rule handled_save [OF assms Some that]) (simp add: same_peer_def)
  with Some show ?thesis
    by (simp add: setPeerRoutes_def mem_GetPeer_def Let_def split: sum.split option.split)
qed

lemma edits_mark:
  assumes "mem_inv st" "\<And>p. p \<in> set ps \<Longrightarrow> go_get (ms_peers st) (p_WGPubKey p) \<noteq> None \<and> p_AccountID p = a"
    "\<And>p. p \<in> set ps \<Longrightarrow> p_AccountID (the (go_get (ms_peers st) (p_WGPubKey p))) = a"
    "\<And>p. same_peer p (f p)"
  shows "edits env a st (fold (\<lambda>p. mem_AssignPeer (p_WGPubKey p) f) ps st)"
  using assms(1-3)
proof (induction ps arbitrary: st)
  case (Cons p ps)
  obtain q where q: "go_get (ms_peers st) (p_WGPubKey p) = Some q" "p_AccountID q = a"
    using Cons.prems(2,3) [of p] by auto
  let ?st = "mem_AssignPeer (p_WGPubKey p) f st"
  have st: "?st = st\<lparr>ms_peers := go_put (p_WGPubKey p) (f q) (ms_peers st)\<rparr>"
    using q by (simp add: mem_AssignPeer_def)
  have fq: "p_AccountID (f q) = a" "\<And>x. p_WGPubKey (f x) = p_WGPubKey x"
    using assms(4) q(2) by (simp_all add: same_peer_def)
  have "edits env a ?st (fold (\<lambda>p. mem_AssignPeer (p_WGPubKey p) f) ps ?st)"
  proof (rule Cons.IH)
    show "mem_inv ?st" using mem_inv_assign [OF Cons.prems(1)] fq(2) by blast
  next
    fix x
    assume "x \<in> set ps"
    then show "go_get (ms_peers ?st) (p_WGPubKey x) \<noteq> None \<and> p_AccountID x = a"
      "p_AccountID (the (go_get (ms_peers ?st) (p_WGPubKey x))) = a"
      using Cons.prems(2,3) [of x] fq(1) by (simp_all add: st go_get_put)
  qed
  moreover have "edit env a st ?st" using assign_edit [of st "p_WGPubKey p" q a f env] q assms(4) by simp
  ultimately show ?case by (simp add: converse_rtranclp_into_rtranclp)
qed simp

lemma handled_listPeers:
  assumes "mem_inv (hs_store s)"
  shows "handled env (cl_AccountID c) s (listPeers mem_ops c s)"
proof -
  let ?ps = "filter (\<lambda>p. p_AccountID p = cl_AccountID c) (go_values (ms_peers (hs_store s)))"
  have "go_get (ms_peers (hs_store s)) (p_WGPubKey p) = Some p" if "p \<in> set ?ps" for p
    using that mem.peer_of_account_key(1) [OF assms, of "cl_AccountID c" ?ps p]
    by (simp add: mem_GetPeersByAccount_def mem_GetPeer_Inr)
  then have "edits env (cl_AccountID c) (hs_store s) (fold (\<lambda>p. mem_AssignPeer (p_WGPubKey p) f) ?ps (hs_store s))"
    if "\<And>p. same_peer p (f p)" for f
    using that by (intro edits_mark [OF assms]) auto
  then show ?thesis
    by (simp add: listPeers_def handled_def mem_GetPeersByAccount_def Let_def same_peer_def)
qed

lemma handled_groups:
  assumes "mem_inv (hs_store s)"
  shows "handled env (cl_AccountID c) s (listGroups mem_ops c s)"
    and "handled env (cl_AccountID c) s (createGroup mem_ops env c b s)"
    and "handled env (cl_AccountID c) s (deleteGroup mem_ops c i s)"
proof -
  show "handled env (cl_AccountID c) s (listGroups mem_ops c s)"
    by (simp add: listGroups_def Let_def split: sum.split)
  show "handled env (cl_AccountID c) s (createGroup mem_ops env c b s)"
    using edit_group [of "\<lparr>g_ID = en_uuid env, g_AccountID = cl_AccountID c, g_Name = projr b, g_CreatedAt = en_now env\<rparr>"]
    by (auto simp: createGroup_def Let_def mem_CreateGroup_def intro!: handled_store split: sum.split)
  have wf: "go_wf (ms_groups (hs_store s))"
    using assms by (auto simp: mem_inv_def dest: keyed_wf)
  have key: "g_ID g = i" if "go_get (ms_groups (hs_store s)) i = Some g" for g
    using assms that by (auto simp: mem_inv_def dest: keyedD)
  show "handled env (cl_AccountID c) s (deleteGroup mem_ops c i s)"
  proof (cases "go_get (ms_groups (hs_store s)) i")
    case None
    then show ?thesis by (simp add: deleteGroup_def mem_DeleteGroup_def mem_GetGroupsByAccount_def)
  next
    case (Some g)
    have "g \<in> set (go_values (ms_groups (hs_store s)))" using Some by (auto simp: go_values_iff [OF wf])
    moreover have "handled env (cl_AccountID c) s (r, with_store (hs_store s\<lparr>ms_groups := go_del i (ms_groups (hs_store s))\<rparr>) s)"
      if "g_AccountID g = cl_AccountID c" "g_Name g \<noteq> DefaultGroupName" for r
      by (rule handled_store [OF edit_del_group [OF Some that]])
    ultimately show ?thesis
      using Some key [OF Some]
      by (auto simp: deleteGroup_def mem_DeleteGroup_def mem_GetGroupsByAccount_def list_ex_iff)
  qed
qed

lemma handled_setup_keys:
  assumes "mem_inv (hs_store s)"
  shows "handled env (cl_AccountID c) s (listSetupKeys mem_ops c s)"
    and "handled env (cl_AccountID c) s (createSetupKey mem_ops env c b s)"
    and "handled env (cl_AccountID c) s (deleteSetupKey mem_ops c i s)"
proof -
  show "handled env (cl_AccountID c) s (listSetupKeys mem_ops c s)"
    by (simp add: listSetupKeys_def split: sum.split)
  have "handled env (cl_AccountID c) s
      (r, with_store (hs_store s\<lparr>ms_setupKeys := go_put (sk_Key sk) sk (ms_setupKeys (hs_store s))\<rparr>) s)"
    if "sk_AccountID sk = cl_AccountID c" "sk_Key sk = en_uuid2 env" for r sk
    by (rule handled_store [OF edit_key [OF that]])
  from this [of "\<lparr>sk_ID = i, sk_AccountID = cl_AccountID c, sk_Key = en_uuid2 env, sk_Name = n,
      sk_Ephemeral = e, sk_UsedCount = u, sk_AutoGroups = ag, sk_CreatedAt = t, sk_ExpiresAt = x\<rparr>" for i n e u ag t x]
  show "handled env (cl_AccountID c) s (createSetupKey mem_ops env c b s)"
    by (simp add: createSetupKey_def Let_def mem_CreateSetupKey_def split: sum.split option.split)
  show "handled env (cl_AccountID c) s (deleteSetupKey mem_ops c i s)"
  proof (cases "find (\<lambda>(k, sk). sk_ID sk = i \<and> sk_AccountID sk = cl_AccountID c) (ms_setupKeys (hs_store s))")
    case None
    then show ?thesis by (simp add: deleteSetupKey_def mem_DeleteSetupKey_def)
  next
    case (Some e)
    obtain k sk where e: "e = (k, sk)" by (cases e)
    have "keyed sk_Key (ms_setupKeys (hs_store s))" using assms by (simp add: mem_inv_def)
    note f = find_in_map [OF keyed_wf [OF this] Some [unfolded e]]
    have "handled env (cl_AccountID c) s (r, with_store (hs_store s\<lparr>ms_setupKeys := go_del k (ms_setupKeys (hs_store s))\<rparr>) s)" for r
      using f by (intro handled_store edit_del_key [of _ k sk]) auto
    with Some e show ?thesis by (simp add: deleteSetupKey_def mem_DeleteSetupKey_def)
  qed
qed

lemma keyed_value_get: "keyed f m \<Longrightarrow> v \<in> set (go_values m) \<Longrightarrow> go_get m (f v) = Some v"
  using go_values_iff [OF keyed_wf, of f m v] by (auto dest: keyedD)

lemma find_SomeD: "find P xs = Some x \<Longrightarrow> x \<in> set xs \<and> P x"
  by (induction xs) (auto split: if_splits)

lemma merge_rule_sel [simp]:
  "r_ID (merge_rule req r) = r_ID r" "r_AccountID (merge_rule req r) = r_AccountID r"
  "r_Action (merge_rule req r) = or_else (ur_Action req) (r_Action r)"
  by (simp_all add: merge_rule_def)

lemma rule_okI:
  "\<not> bad_action (r_Action r) \<Longrightarrow> validateRuleFields o1 (r_Src r) (r_Dst r) (r_Protocol r) (r_Port r) = None \<Longrightarrow> rule_ok r"
  using validate_order unfolding rule_ok_def by blast

lemma handled_rules:
  assumes "mem_inv (hs_store s)"
  shows "handled env (cl_AccountID c) s (listRules mem_ops c s)"
    and "handled env (cl_AccountID c) s (createRule mem_ops env c b s)"
    and "handled env (cl_AccountID c) s (updateRule mem_ops env c i u s)"
    and "handled env (cl_AccountID c) s (deleteRule mem_ops c i s)"
proof -
  show "handled env (cl_AccountID c) s (listRules mem_ops c s)"
    by (simp add: listRules_def split: sum.split)
  have new: "handled env (cl_AccountID c) s
      (r, notify a (with_store (hs_store s\<lparr>ms_rules := go_put (r_ID x) x (ms_rules (hs_store s))\<rparr>) s))"
    if "r_AccountID x = cl_AccountID c" "r_ID x = en_uuid env" "\<not> bad_action (r_Action x)"
      "validateRuleFields (en_srcFirst env) (r_Src x) (r_Dst x) (r_Protocol x) (r_Port x) = None" for r a x
    by (rule handled_store_notify [OF edit_rule [OF that(1) rule_okI [OF that(3,4)] that(2)]])
  show "handled env (cl_AccountID c) s (createRule mem_ops env c b s)"
  proof (cases b)
    case (Inr req)
    show ?thesis
      using new [of "\<lparr>r_ID = en_uuid env, r_AccountID = cl_AccountID c, r_Name = cr_Name req, r_Src = cr_Src req,
        r_Dst = cr_Dst req, r_Protocol = cr_Protocol req, r_Port = cr_Port req, r_Action = cr_Action req,
        r_Enabled = cr_Enabled req, r_Priority = cr_Priority req, r_CreatedAt = en_now env\<rparr>"]
      by (simp add: Inr createRule_def Let_def mem_SaveRule_def split: option.split)
  qed (simp add: createRule_def)
  have wf: "go_wf (ms_rules (hs_store s))" and k: "keyed r_ID (ms_rules (hs_store s))"
    using assms by (auto simp: mem_inv_def dest: keyed_wf)
  have old: "handled env (cl_AccountID c) s
      (r, notify a (with_store (hs_store s\<lparr>ms_rules := go_put (r_ID x) x (ms_rules (hs_store s))\<rparr>) s))"
    if "go_get (ms_rules (hs_store s)) (r_ID x) = Some y" "r_AccountID y = cl_AccountID c"
      "r_AccountID x = cl_AccountID c" "rule_ok y \<Longrightarrow> rule_ok x" for r a x y
    using edit_old_rule [of "hs_store s" x y "cl_AccountID c" env] that
    by (intro handled_store_notify) blast
  show "handled env (cl_AccountID c) s (updateRule mem_ops env c i u s)"
  proof (cases "find (\<lambda>r. r_ID r = i) (sort_key r_Priority (filter (\<lambda>r. r_AccountID r = cl_AccountID c) (go_values (ms_rules (hs_store s)))))")
    case None
    then show ?thesis by (simp add: updateRule_def mem_GetRulesByAccount_def)
  next
    case (Some y)
    have i: "r_ID y = i" and y: "y \<in> set (go_values (ms_rules (hs_store s)))" "r_AccountID y = cl_AccountID c"
      using find_SomeD [OF Some] by simp_all
    from y have y: "go_get (ms_rules (hs_store s)) (r_ID y) = Some y" "r_AccountID y = cl_AccountID c"
      using keyedD [OF k] by (auto simp: go_values_iff [OF wf])
    have "handled env (cl_AccountID c) s
        (r, notify a (with_store (hs_store s\<lparr>ms_rules := go_put (r_ID y) (merge_rule req y) (ms_rules (hs_store s))\<rparr>) s))"
      if "\<not> (case ur_Action req of None \<Rightarrow> False | Some a \<Rightarrow> bad_action a)"
        "validateRuleFields (en_srcFirst env) (r_Src (merge_rule req y)) (r_Dst (merge_rule req y))
           (r_Protocol (merge_rule req y)) (r_Port (merge_rule req y)) = None" for r a req
    proof -
      have "rule_ok y \<Longrightarrow> rule_ok (merge_rule req y)"
        using that by (intro rule_okI [OF _ that(2)])
          (auto simp: or_else_def rule_ok_def split: option.splits)
      then show ?thesis using old [of "merge_rule req y" y r a] y by simp
    qed
    with Some i show ?thesis
      by (cases u)
         (simp_all add: updateRule_def mem_GetRulesByAccount_def Let_def mem_SaveRule_def
           split: option.split_asm option.split)
  qed
  show "handled env (cl_AccountID c) s (deleteRule mem_ops c i s)"
  proof (cases "go_get (ms_rules (hs_store s)) i")
    case (Some r)
    have "handled env (cl_AccountID c) s (x, notify a (with_store (hs_store s\<lparr>ms_rules := go_del i (ms_rules (hs_store s))\<rparr>) s))"
      if "r_AccountID r = cl_AccountID c" for x a
      by (rule handled_store_notify [OF edit_del_rule [OF Some that]])
    with Some show ?thesis by (simp add: deleteRule_def mem_DeleteRule_def)
  qed (simp add: deleteRule_def mem_DeleteRule_def)
qed

text \<open>Deleting a peer also revokes its tokens and forgets its lease.\<close>

lemma deletePeer_cases:
  obtains "snd (deletePeer mem_ops env c k s) = s" "fst (fst (deletePeer mem_ops env c k s)) \<in> {403, 404}"
  | p where "go_get (ms_peers (hs_store s)) k = Some p" "p_AccountID p = cl_AccountID c"
      "hs_store (snd (deletePeer mem_ops env c k s)) = hs_store s\<lparr>ms_peers := go_del k (ms_peers (hs_store s))\<rparr>"
      "sv_auth (hs_grpc (snd (deletePeer mem_ops env c k s))) = RevokeByWGKey (en_now env) k (sv_auth (hs_grpc s))"
      "sv_ipam (hs_grpc (snd (deletePeer mem_ops env c k s))) = Release k (sv_ipam (hs_grpc s))"
      "fst (deletePeer mem_ops env c k s) = (204, NoBody)"
proof (cases "go_get (ms_peers (hs_store s)) k")
  case None
  then show thesis by (intro that(1)) (simp_all add: deletePeer_def mem_GetPeer_def)
next
  case (Some p)
  show thesis
  proof (cases "p_AccountID p = cl_AccountID c")
    case True
    with Some show thesis
      by (intro that(2) [OF Some True])
         (simp_all add: deletePeer_def mem_GetPeer_def mem_DeletePeer_def Let_def hs_store_def ReleaseIP_def)
  next
    case False
    with Some show thesis by (intro that(1)) (simp_all add: deletePeer_def mem_GetPeer_def)
  qed
qed

lemma edits_deletePeer: "edits env (cl_AccountID c) (hs_store s) (hs_store (snd (deletePeer mem_ops env c k s)))"
proof (cases rule: deletePeer_cases [of env c k s])
  case (2 p)
  then show ?thesis using edit_del_peer [OF 2(1,2), of env] by (simp add: r_into_rtranclp)
qed simp

text \<open>The routes that a handler of an administrator serves.\<close>

definition needs_admin :: "request \<Rightarrow> bool" where
  "needs_admin req \<longleftrightarrow>
     (case req of GetHealth \<Rightarrow> False | PostLogin _ \<Rightarrow> False | GetPeers \<Rightarrow> False | GetGroups \<Rightarrow> False
      | GetRules \<Rightarrow> False | _ \<Rightarrow> True)"

definition caller :: "jwt_lib \<Rightarrow> http_env \<Rightarrow> string \<Rightarrow> 'st http_Server \<Rightarrow> Claims option" where
  "caller lib env header s =
     (case ValidateToken lib (en_now env) (bearer_token header) (sv_auth (hs_grpc s)) of
        Inl _ \<Rightarrow> None | Inr c \<Rightarrow> Some c)"

lemma guarded:
  "authMiddleware lib env header h s =
     (case caller lib env header s of None \<Rightarrow> ((401, ErrorBody ''invalid token''), s) | Some c \<Rightarrow> h c s)"
  by (simp add: authMiddleware_def caller_def split: sum.split)

lemma adminLogin_store:
  "hs_store (snd (adminLogin lib env b s)) = hs_store s"
  "sv_auth (hs_grpc (snd (adminLogin lib env b s))) = sv_auth (hs_grpc s)"
  "sv_ipam (hs_grpc (snd (adminLogin lib env b s))) = sv_ipam (hs_grpc s)"
  by (simp_all add: adminLogin_def Let_def hs_store_def split: sum.split option.split)

lemmas handler_facts =
  handled_updatePeer handled_setPeerExitNode handled_setPeerRoutes handled_listPeers handled_groups
  handled_setup_keys handled_rules

lemma routes_edits:
  assumes "mem_inv (hs_store s)" "caller lib env header s = Some c"
  shows "edits env (cl_AccountID c) (hs_store s) (hs_store (snd (registerRoutes mem_ops lib env header req s)))"
  using handler_facts [OF assms(1), of env c] edits_deletePeer [of env c s]
  by (cases req)
     (simp_all add: registerRoutes_def guarded assms(2) adminOnly_def adminLogin_store health_def handled_def)

lemma routes_refused:
  assumes "caller lib env header s = None"
  shows "hs_store (snd (registerRoutes mem_ops lib env header req s)) = hs_store s"
  by (cases req) (simp_all add: registerRoutes_def guarded assms adminLogin_store health_def)

end
