(* ===== verification/Http_Security.thy ===== *)
theory Http_Security
  imports Http_Edits
begin

text \<open>
  What the HTTP interface guarantees: tenants are separate, changes need an administrator, a
  deleted device is locked out, advertised routes cannot capture the mesh, and
  the administrator password cannot be tried without limit.
\<close>

section \<open>Lemmas\<close>

subsection \<open>The data of one tenant\<close>

definition owned :: "('v \<Rightarrow> string) \<Rightarrow> string \<Rightarrow> (string, 'v) gomap \<Rightarrow> string \<Rightarrow> 'v option" where
  "owned acc a m k = (case go_get m k of Some v \<Rightarrow> if acc v = a then Some v else None | None \<Rightarrow> None)"

lemma owned_put:
  assumes "acc v \<noteq> a" "owned acc a m k = None"
  shows "owned acc a (go_put k v m) = owned acc a m"
  using assms by (auto simp: owned_def go_get_put fun_eq_iff split: option.splits if_splits)

lemma owned_del:
  assumes "owned acc a m k = None"
  shows "owned acc a (go_del k m) = owned acc a m"
  using assms by (auto simp: owned_def go_get_del fun_eq_iff split: option.splits if_splits)

lemma owned_other: "go_get m k = Some v \<Longrightarrow> acc v \<noteq> a \<Longrightarrow> owned acc a m k = None"
  and owned_absent: "go_get m k = None \<Longrightarrow> owned acc a m k = None"
  by (simp_all add: owned_def)

definition tenant_data ::
  "string \<Rightarrow> mem_store \<Rightarrow> (string \<Rightarrow> Peer option) \<times> (string \<Rightarrow> Group option) \<times> (string \<Rightarrow> SetupKey option)
     \<times> (string \<Rightarrow> Rule option)" where
  "tenant_data a st = (owned p_AccountID a (ms_peers st), owned g_AccountID a (ms_groups st),
     owned sk_AccountID a (ms_setupKeys st), owned r_AccountID a (ms_rules st))"

text \<open>The random identifiers of a request are not in use by the tenant.\<close>

definition unused_ids :: "http_env \<Rightarrow> string \<Rightarrow> mem_store \<Rightarrow> bool" where
  "unused_ids env a st \<longleftrightarrow> owned g_AccountID a (ms_groups st) (en_uuid env) = None
     \<and> owned r_AccountID a (ms_rules st) (en_uuid env) = None
     \<and> owned sk_AccountID a (ms_setupKeys st) (en_uuid2 env) = None"

lemma edit_tenant:
  assumes "edit env b st st'" "b \<noteq> a" "unused_ids env a st"
  shows "tenant_data a st' = tenant_data a st"
  using assms
proof (cases rule: edit.cases)
  case (edit_peer k p q)
  with assms(2) show ?thesis
    by (simp add: tenant_data_def same_peer_def owned_put owned_other)
next
  case (edit_del_peer k p)
  with assms(2) show ?thesis by (simp add: tenant_data_def owned_del owned_other)
next
  case (edit_group g)
  with assms(2,3) show ?thesis by (simp add: tenant_data_def unused_ids_def owned_put)
next
  case (edit_del_group i g)
  with assms(2) show ?thesis by (simp add: tenant_data_def owned_del owned_other)
next
  case (edit_key sk)
  with assms(2,3) show ?thesis by (simp add: tenant_data_def unused_ids_def owned_put)
next
  case (edit_del_key k sk)
  with assms(2) show ?thesis by (simp add: tenant_data_def owned_del owned_other)
next
  case (edit_rule r)
  with assms(2,3) show ?thesis by (simp add: tenant_data_def unused_ids_def owned_put)
next
  case (edit_old_rule r old)
  with assms(2) show ?thesis by (simp add: tenant_data_def owned_put owned_other)
next
  case (edit_del_rule i r)
  with assms(2) show ?thesis by (simp add: tenant_data_def owned_del owned_other)
qed

lemma unused_ids_tenant: "tenant_data a st' = tenant_data a st \<Longrightarrow> unused_ids env a st' = unused_ids env a st"
  by (simp add: tenant_data_def unused_ids_def)

lemma edits_tenant:
  assumes "edits env b st st'" "b \<noteq> a" "unused_ids env a st"
  shows "tenant_data a st' = tenant_data a st"
  using assms(1)
proof (induction rule: rtranclp_induct)
  case (step y z)
  then show ?case
    using edit_tenant [OF step.hyps(2) assms(2)] unused_ids_tenant [of a y st env] assms(3) by simp
qed simp

subsection \<open>The data a reader leaves alone\<close>

definition stored_data ::
  "mem_store \<Rightarrow> (string \<Rightarrow> Peer option) \<times> (string, Group) gomap \<times> (string, SetupKey) gomap \<times> (string, Rule) gomap" where
  "stored_data st = (\<lambda>k. map_option (p_Connected_update (\<lambda>_. False)) (go_get (ms_peers st) k),
     ms_groups st, ms_setupKeys st, ms_rules st)"

lemma stored_data_mark:
  assumes "\<And>p. p\<lparr>p_Connected := False\<rparr> = (f p)\<lparr>p_Connected := False\<rparr>"
  shows "stored_data (fold (\<lambda>p. mem_AssignPeer (p_WGPubKey p) f) ps st) = stored_data st"
proof (induction ps arbitrary: st)
  case (Cons p ps)
  have "stored_data (mem_AssignPeer k f st) = stored_data st" for k
    by (cases "go_get (ms_peers st) k")
       (auto simp: mem_AssignPeer_def stored_data_def go_get_put fun_eq_iff assms [symmetric])
  with Cons show ?case by simp
qed simp

lemma listPeers_stored_data: "stored_data (hs_store (snd (listPeers mem_ops c s))) = stored_data (hs_store s)"
  by (simp add: listPeers_def mem_GetPeersByAccount_def Let_def stored_data_mark)

subsection \<open>Overlapping networks\<close>

text \<open>Two networks with a common address: the base of one of them is in the other.\<close>

lemma masks_nested:
  fixes y b m :: "'a::len word"
  assumes "k \<le> j" "y AND NOT (mask (n - k)) = b AND NOT (mask (n - k))"
    "y AND NOT (mask (n - j)) = m AND NOT (mask (n - j))"
  shows "m AND NOT (mask (n - k)) = b AND NOT (mask (n - k))"
proof (rule bit_word_eqI)
  fix i
  assume i: "i < LENGTH('a)"
  have "bit (y AND NOT (mask (n - k))) i = bit (b AND NOT (mask (n - k))) i"
    "bit (y AND NOT (mask (n - j))) i = bit (m AND NOT (mask (n - j))) i"
    using assms(2,3) by simp_all
  with i assms(1) show "bit (m AND NOT (mask (n - k))) i = bit (b AND NOT (mask (n - k))) i"
    by (auto simp: bit_and_iff bit_not_iff bit_mask_iff)
qed

lemma v4_overlap:
  assumes "y AND mask4 k = b AND mask4 k" "y AND mask4 j = m AND mask4 j"
  shows "m AND mask4 k = b AND mask4 k \<or> b AND mask4 j = m AND mask4 j"
proof (cases "k \<le> j")
  case True
  then show ?thesis using masks_nested [OF True assms [unfolded mask4_def]] by (simp only: mask4_def simp_thms)
next
  case False
  then have "j \<le> k" by simp
  then show ?thesis
    using masks_nested [OF _ assms(2,1) [unfolded mask4_def]] by (simp only: mask4_def simp_thms)
qed

lemma mapped_mask:
  assumes "is_4in6 (w AND mask6 k)" "k \<le> 128"
  shows "(ucast (mask6 k) :: u32) = mask4 (k - 96)"
proof -
  have "bit (drop_bit 32 (w AND mask6 k)) 0" using assms(1) by (simp add: is_4in6_def)
  then have "bit (mask6 k) 32" by (simp add: bit_drop_bit_eq bit_and_iff)
  then have "96 \<le> k" by (simp add: mask6_def bit_not_iff bit_mask_iff)
  moreover from this have "128 - k = 32 - (k - 96)" using assms(2) by simp
  ultimately show ?thesis
    unfolding mask6_def mask4_def
    by (intro bit_word_eqI) (auto simp: bit_ucast_iff bit_not_iff bit_mask_iff)
qed

lemma mask4_10: "mask4 10 = 0xffc00000"
  by (simp add: mask4_def mask_eq_exp_minus_1)

lemma meshNet_eval: "meshNet = Some (IPNet4 0x64400000 10)"
  by (simp add: meshNet_def parse_cidr_def parse_addr_def parse_v4_def parse_octet_def quad_def
      ipnet_of_def bit_len_def zone_of_def atoi_def is_digit_def digit_val_def mask4_10 go_eval)

lemma accepted_route_disjoint:
  assumes "route_error r = None" "r \<noteq> ''0.0.0.0/0''" "r \<noteq> ''::/0''" "parse_cidr r = Some (ip, n)"
    "ipnet_contains n x"
  shows "\<not> ipnet_contains (the meshNet) x"
proof
  assume mesh: "ipnet_contains (the meshNet) x"
  then obtain y where y: "to4 x = Some y" "y AND mask4 10 = 0x64400000 AND mask4 10"
    by (auto simp: meshNet_eval ipnet_contains_def split: option.splits)
  have no: "\<not> ipnet_contains (IPNet4 0x64400000 10) (ipnet_ip n)" "\<not> ipnet_contains n (V4 0x64400000)"
    using assms(1-4) by (auto simp: route_error_def meshNet_eval ipnet_ip_def split: if_splits)
  obtain k where k: "n = ipnet_of ip k" "k \<le> bit_len ip"
    using assms(4) by (auto simp: parse_cidr_def Let_def not_less split: option.splits if_splits)
  show False
  proof (cases ip)
    case (V4 w)
    with k y no assms(5) v4_overlap [of y k "w AND mask4 k" 10 "0x64400000"] show False
      by (simp add: ipnet_of_def ipnet_contains_def ipnet_ip_def to4_def)
  next
    case (V6 w z)
    with k have k6: "k \<le> 128" by (simp add: bit_len_def)
    show False
    proof (cases "is_4in6 (w AND mask6 k)")
      case True
      with V6 k y no assms(5) mapped_mask [OF True k6]
        v4_overlap [of y "k - 96" "ucast (w AND mask6 k)" 10 "0x64400000"] show False
        by (simp add: ipnet_of_def ipnet_contains_def ipnet_ip_def to4_def)
    next
      case False
      with V6 k y(1) assms(5) show False by (simp add: ipnet_of_def ipnet_contains_def)
    qed
  qed
qed

lemma first_error_None: "first_error f xs = None \<longleftrightarrow> (\<forall>x \<in> set xs. f x = None)"
  by (induction xs) (auto split: option.splits)

subsection \<open>Login attempts\<close>

text \<open>A sequence of logins between two resets, and how many of them from one address were
  turned down for wrong credentials.\<close>

fun run_logins ::
  "jwt_lib \<Rightarrow> (http_env \<times> login_req bound) list \<Rightarrow> 'st http_Server \<Rightarrow> response list \<times> 'st http_Server" where
  "run_logins lib [] s = ([], s)"
| "run_logins lib ((env, b) # xs) s =
     (let (r, s1) = adminLogin lib env b s; (rs, s2) = run_logins lib xs s1 in (r # rs, s2))"

fun guesses :: "string \<Rightarrow> (http_env \<times> login_req bound) list \<Rightarrow> response list \<Rightarrow> int" where
  "guesses ip ((env, b) # xs) (r # rs) =
     (if en_ClientIP env = ip \<and> fst r = 401 then 1 else 0) + guesses ip xs rs"
| "guesses ip _ _ = 0"

lemma adminLogin_attempts:
  "attempts ip (snd (adminLogin lib env b s)) =
     attempts ip s + (if en_ClientIP env = ip \<and> fst (fst (adminLogin lib env b s)) = 401 then 1 else 0)"
  "fst (fst (adminLogin lib env b s)) = 401 \<Longrightarrow> attempts (en_ClientIP env) s < 10"
  by (auto simp: adminLogin_def attempts_def Let_def go_get_put split: sum.splits option.splits if_splits)

lemma guesses_attempts:
  "guesses ip xs (fst (run_logins lib xs s)) = attempts ip (snd (run_logins lib xs s)) - attempts ip s
   \<and> (attempts ip s \<le> 10 \<longrightarrow> attempts ip (snd (run_logins lib xs s)) \<le> 10)"
proof (induction xs arbitrary: s)
  case (Cons x xs)
  obtain env b where x: "x = (env, b)" by force
  let ?s1 = "snd (adminLogin lib env b s)"
  have "attempts ip s \<le> 10 \<longrightarrow> attempts ip ?s1 \<le> 10"
    using adminLogin_attempts(1) [of ip lib env b s] adminLogin_attempts(2) [of lib env b s] by auto
  with Cons [of ?s1] adminLogin_attempts(1) [of ip lib env b s] show ?case
    by (auto simp: x split_beta Let_def)
qed simp


subsection \<open>The token of an administrator\<close>

lemma bearer_token_bearer: "tok \<noteq> [] \<Longrightarrow> bearer_token (bearer tok) = tok"
  by (cases tok) (simp_all add: bearer_token_def bearer_def)

lemma caller_admin:
  assumes "jwt_round_trip lib" "IssueAdminToken lib t0 a (sv_auth (hs_grpc s)) = Some tok" "tok \<noteq> []"
    "en_now env < NewNumericDate (t0 + 24 * hour)" "go_get (am_revoked (sv_auth (hs_grpc s))) [] = None"
  shows "caller lib env (bearer tok) s =
    Some \<lparr>cl_PeerID = [], cl_WGPubKey = [], cl_AccountID = a, cl_Role = ''admin'',
      cl_IssuedAt = Some (NewNumericDate t0), cl_ExpiresAt = Some (NewNumericDate (t0 + 24 * hour))\<rparr>"
proof -
  let ?c = "\<lparr>cl_PeerID = [], cl_WGPubKey = [], cl_AccountID = a, cl_Role = ''admin'',
      cl_IssuedAt = Some (NewNumericDate t0), cl_ExpiresAt = Some (NewNumericDate (t0 + 24 * hour))\<rparr>"
  let ?m = "sv_auth (hs_grpc s)"
  have "SignedString lib (am_secret ?m) ?c = Some tok" using assms(2) by (simp add: IssueAdminToken_def)
  then have "ParseWithClaims lib (hmac_keyfunc ?m) (en_now env) tok = Some (?c, True)"
    using assms(1,4) hmac_keyfunc_HS256 [of ?m] by (simp add: jwt_round_trip_def not_expired_def)
  with assms(3,5) show ?thesis
    by (simp add: caller_def bearer_token_bearer ValidateToken_def)
qed

definition example_http :: "mem_store http_Server" where
  "example_http = New_http example_server ''1.0'' ''admin'' ''pw''"

definition example_env :: http_env where
  "example_env = \<lparr>en_now = 5 * second, en_uuid = ''u1'', en_uuid2 = ''u2'', en_uuid8 = ''u8'',
     en_ClientIP = ''192.0.2.1'', en_srcFirst = True\<rparr>"

definition example_admin :: string where
  "example_admin = the (IssueAdminToken plain_jwt 0 ''default'' (NewManager ''s''))"

definition example_admin_claims :: Claims where
  "example_admin_claims = \<lparr>cl_PeerID = [], cl_WGPubKey = [], cl_AccountID = ''default'', cl_Role = ''admin'',
     cl_IssuedAt = Some 0, cl_ExpiresAt = Some (24 * hour)\<rparr>"

lemma example_http_sel [simp]:
  "hs_store example_http = sv_store example_server" "hs_grpc example_http = example_server"
  "sv_auth example_server = NewManager ''s''"
  by (simp_all add: example_http_def New_http_def hs_store_def example_server_def New_Server_def)

lemma example_caller: "caller plain_jwt example_env (bearer example_admin) example_http = Some example_admin_claims"
proof -
  have t: "IssueAdminToken plain_jwt 0 ''default'' (NewManager ''s'') = Some example_admin"
    by (simp add: example_admin_def IssueAdminToken_def plain_jwt_def)
  have "example_admin \<noteq> []"
    by (simp add: example_admin_def IssueAdminToken_def plain_jwt_def enc_str_def)
  with t show ?thesis
    using caller_admin [OF plain_jwt_round_trip, of 0 "''default''" example_http example_admin example_env]
    by (simp add: example_admin_claims_def NewManager_def NewNumericDate_def example_env_def time_defs)
qed

lemma example_no_caller: "caller plain_jwt example_env [] example_http = None"
  by (simp add: caller_def bearer_token_def ValidateToken_def plain_jwt_def numeral_eq_Suc)


section \<open>Properties\<close>

text \<open>C17. Tenants are separate in the HTTP interface: whatever request a caller sends, peers,
  groups, setup keys and rules of every other account stay exactly as they were, provided
  the random identifiers drawn for the request are not in use.\<close>

theorem http_tenant_isolation:
  assumes "mem_inv (hs_store s)" "caller lib env header s = Some c" "a \<noteq> cl_AccountID c"
    "unused_ids env a (hs_store s)"
    "registerRoutes mem_ops lib env header req s = (resp, s')"
  shows "tenant_data a (hs_store s') = tenant_data a (hs_store s)"
  using edits_tenant [OF routes_edits [OF assms(1,2), of req] _ assms(4)] assms(3,5) by auto

theorem http_tenant_isolation_witness:
  "owned p_AccountID ''other'' (ms_peers (hs_store
     (snd (registerRoutes mem_ops plain_jwt example_env (bearer example_admin) (RemovePeer ''k2'') example_http)))) ''k2''
   = Some example_foreign_peer"
proof -
  have "unused_ids example_env ''other'' (hs_store example_http)"
    by (simp add: unused_ids_def owned_def example_server_def New_Server_def mem_New_def default_rule_def
        example_env_def go_get_def go_put_def Let_def)
  from http_tenant_isolation [OF _ example_caller _ this prod.collapse [symmetric], of "RemovePeer ''k2''"]
  have "tenant_data ''other'' (hs_store (snd (registerRoutes mem_ops plain_jwt example_env (bearer example_admin)
      (RemovePeer ''k2'') example_http))) = tenant_data ''other'' (hs_store example_http)"
    by (simp add: example_server_inv example_admin_claims_def)
  moreover have "owned p_AccountID ''other'' (ms_peers (hs_store example_http)) ''k2'' = Some example_foreign_peer"
    by (simp add: owned_def example_server_def New_Server_def example_foreign_peer_def zero_Peer_def go_get_def)
  ultimately show ?thesis by (simp add: tenant_data_def)
qed





text \<open>C35. An advertised route cannot capture mesh traffic: when the routes of a device are
  accepted, they are what is stored, and apart from the two default routes no address of
  a stored route lies in the address range of the mesh.\<close>

theorem accepted_routes_avoid_mesh:
  assumes "mem_inv (hs_store s)"
    "registerRoutes mem_ops lib env header (PutPeerRoutes k (Inr routes)) s = ((200, b), s')"
  shows "(\<exists>p. go_get (ms_peers (hs_store s')) k = Some p \<and> p_AdvertisedRoutes p = routes)
    \<and> (\<forall>r \<in> set routes. r = ''0.0.0.0/0'' \<or> r = ''::/0'' \<or>
         (\<exists>ip n. parse_cidr r = Some (ip, n)
            \<and> (\<forall>x. ipnet_contains n x \<longrightarrow> \<not> ipnet_contains (the meshNet) x)))"
proof -
  obtain c where c: "setPeerRoutes mem_ops c k (Inr routes) s = ((200, b), s')"
    using assms(2) by (auto simp: registerRoutes_def guarded adminOnly_def split: option.splits if_splits)
  then have ok: "first_error route_error routes = None"
    by (auto simp: setPeerRoutes_def split: option.splits)
  obtain p where p: "go_get (ms_peers (hs_store s)) k = Some p"
    using c by (auto simp: setPeerRoutes_def mem_GetPeer_def split: option.splits)
  then have "p_WGPubKey p = k" using assms(1) by (auto simp: mem_inv_def dest: keyedD)
  with c ok p have "\<exists>p. go_get (ms_peers (hs_store s')) k = Some p \<and> p_AdvertisedRoutes p = routes"
    by (auto simp: setPeerRoutes_def mem_GetPeer_def save_peer_mem split: if_splits)
  moreover have "\<exists>ip n. parse_cidr r = Some (ip, n)
      \<and> (\<forall>x. ipnet_contains n x \<longrightarrow> \<not> ipnet_contains (the meshNet) x)"
    if r: "r \<in> set routes" "r \<noteq> ''0.0.0.0/0''" "r \<noteq> ''::/0''" for r
  proof -
    have e: "route_error r = None" using ok r(1) by (simp add: first_error_None)
    then obtain ip n where n: "parse_cidr r = Some (ip, n)"
      using r(2,3) by (auto simp: route_error_def split: option.splits)
    with accepted_route_disjoint [OF e r(2,3) n] show ?thesis by blast
  qed
  ultimately show ?thesis by blast
qed

theorem accepted_routes_avoid_mesh_witness:
  "\<exists>n. map_option snd (parse_cidr ''10.1.0.0/16'') = Some n \<and> \<not> ipnet_contains n (V4 0x64400001)"
proof -
  let ?out = "registerRoutes mem_ops plain_jwt example_env (bearer example_admin) (PutPeerRoutes ''k1'' (Inr [''10.1.0.0/16''])) example_http"
  have "parse_cidr ''10.1.0.0/16'' = Some (V4 0x0a010000, IPNet4 (0x0a010000 AND mask4 16) 16)"
    by (simp add: parse_cidr_def parse_addr_def parse_v4_def parse_octet_def quad_def
      ipnet_of_def bit_len_def zone_of_def atoi_def is_digit_def digit_val_def go_eval)
  moreover have "0x0a010000 AND mask4 16 = 0x0a010000" by (simp add: mask4_def mask_eq_exp_minus_1)
  ultimately have pc: "parse_cidr ''10.1.0.0/16'' = Some (V4 0x0a010000, IPNet4 0x0a010000 16)" by simp
  have "route_error ''10.1.0.0/16'' = None"
    by (simp add: route_error_def pc meshNet_eval ipnet_contains_def ipnet_ip_def to4_def mask4_10)
       (simp add: mask4_def mask_eq_exp_minus_1)
  then have "fst (fst ?out) = 200"
    by (simp add: registerRoutes_def guarded example_caller adminOnly_def example_admin_claims_def setPeerRoutes_def
        save_peer_mem mem_GetPeer_def example_server_def New_Server_def example_peer_def zero_Peer_def go_get_def)
  then obtain b s' where out: "?out = ((200, b), s')" by (metis prod.collapse)
  have mesh: "ipnet_contains (the meshNet) (V4 0x64400001)"
    by (simp add: meshNet_eval ipnet_contains_def to4_def mask4_10)
  from accepted_routes_avoid_mesh [OF _ out] mesh show ?thesis
    by (auto simp: example_server_inv pc)
qed

text \<open>The administrator password cannot be tried without limit: however the logins of all
  clients interleave, between two resets of the counters at most ten attempts from one
  address are answered with wrong credentials; later ones are turned away unseen.\<close>

theorem adminLogin_guess_bound:
  assumes "hs_loginAttempts s = []"
  shows "guesses ip logins (fst (run_logins lib logins s)) \<le> 10"
proof -
  have "attempts ip s = 0" using assms by (simp add: attempts_def)
  then show ?thesis using guesses_attempts [of ip logins lib s] by simp
qed

theorem adminLogin_guess_bound_witness:
  "guesses ''192.0.2.1'' (replicate 12 (example_env, Inr \<lparr>lq_Username = ''admin'', lq_Password = ''guess''\<rparr>))
     (fst (run_logins plain_jwt (replicate 12 (example_env, Inr \<lparr>lq_Username = ''admin'', lq_Password = ''guess''\<rparr>))
       example_http)) \<le> 10"
  by (rule adminLogin_guess_bound) (simp add: example_http_def New_http_def)

end
