(* ===== verification/Mgmt_System.thy ===== *)
theory Mgmt_System
  imports Http_Security
begin

text \<open>
  The management server as a whole: its configuration (\<^verbatim>\<open>management/internal/config/config.go\<close>),
  how \<^verbatim>\<open>management/cmd/server/main.go\<close> puts its parts together, and its run as a transition
  system whose steps are the calls of both interfaces, each taken to be atomic. The
  environment of the process is a function from variable names to values, with the
  empty string for a variable that is not set.
\<close>

section \<open>Configuration\<close>

record Config =
  cf_GRPCAddr :: string
  cf_HTTPAddr :: string
  cf_JWTSecret :: string
  cf_LogLevel :: string
  cf_NetworkCIDR :: string
  cf_DNSSuffix :: string
  cf_DatabaseURL :: string
  cf_DefaultKey :: string
  cf_TLSCertFile :: string
  cf_TLSKeyFile :: string
  cf_TLSStateDir :: string
  cf_AdminUser :: string
  cf_AdminPassword :: string
  cf_BlocklistURL :: string
  cf_BlocklistRefresh :: string

type_synonym environ = "string \<Rightarrow> string"

definition getEnv :: "environ \<Rightarrow> string \<Rightarrow> string \<Rightarrow> string" where
  "getEnv env key fallback = (if env key \<noteq> [] then env key else fallback)"

text \<open>No configuration: the process exits. The random bytes are absent when the source fails.\<close>

definition Load :: "environ \<Rightarrow> byte list option \<Rightarrow> Config option" where
  "Load env rnd =
     (let secret = env ''MGMT_JWT_SECRET'' in
      if length secret < 32 then None
      else
        (case (if env ''BLINEX_DEFAULT_KEY'' = []
               then map_option (\<lambda>b. ''msk-'' @ EncodeToString b) rnd
               else Some (env ''BLINEX_DEFAULT_KEY'')) of
           None \<Rightarrow> None
         | Some defaultKey \<Rightarrow>
             Some \<lparr>cf_GRPCAddr = getEnv env ''MGMT_GRPC_ADDR'' '':50051'',
                   cf_HTTPAddr = getEnv env ''MGMT_HTTP_ADDR'' '':8080'',
                   cf_JWTSecret = secret,
                   cf_LogLevel = getEnv env ''LOG_LEVEL'' ''info'',
                   cf_NetworkCIDR = getEnv env ''MGMT_NETWORK_CIDR'' ''100.64.0.0/10'',
                   cf_DNSSuffix = getEnv env ''MGMT_DNS_SUFFIX'' ''blinex'',
                   cf_DatabaseURL = getEnv env ''DATABASE_URL'' [],
                   cf_DefaultKey = defaultKey,
                   cf_TLSCertFile = getEnv env ''TLS_CERT_FILE'' [],
                   cf_TLSKeyFile = getEnv env ''TLS_KEY_FILE'' [],
                   cf_TLSStateDir = getEnv env ''TLS_STATE_DIR'' ''/var/lib/blinex'',
                   cf_AdminUser = getEnv env ''MGMT_ADMIN_USER'' ''admin'',
                   cf_AdminPassword = getEnv env ''MGMT_ADMIN_PASSWORD'' [],
                   cf_BlocklistURL = getEnv env ''MGMT_BLOCKLIST_URL'' ''https://urlhaus.abuse.ch/downloads/hostfile/'',
                   cf_BlocklistRefresh = getEnv env ''MGMT_BLOCKLIST_REFRESH'' ''6h''\<rparr>))"


section \<open>Start\<close>

text \<open>The servers over an open store; nothing when the pool cannot be set up.\<close>

definition start_servers :: "'st Store \<Rightarrow> gtime \<Rightarrow> string \<Rightarrow> Config \<Rightarrow> 'st \<Rightarrow> 'st http_Server option" where
  "start_servers ops now version cfg st =
     (let authMgr = NewManager (cf_JWTSecret cfg) in
      case NewIPAM (cf_NetworkCIDR cfg) of
        None \<Rightarrow> None
      | Some ipam0 \<Rightarrow>
          (let ipam = (case GetAllPeers ops st of Inl _ \<Rightarrow> ipam0 | Inr allPeers \<Rightarrow> PreloadPeers allPeers ipam0);
               grpcSrv = New_Server now st authMgr ipam (cf_NetworkCIDR cfg) (cf_DNSSuffix cfg) (Some NewStore)
           in Some (New_http grpcSrv version (cf_AdminUser cfg) (cf_AdminPassword cfg))))"

text \<open>Without a database the store is the in-memory one.\<close>

definition start_mem :: "gtime \<Rightarrow> string \<Rightarrow> string \<Rightarrow> Config \<Rightarrow> mem_store http_Server option" where
  "start_mem now uuid version cfg =
     (if cf_DatabaseURL cfg \<noteq> [] then None
      else start_servers mem_ops now version cfg (mem_New uuid now (cf_DefaultKey cfg)))"

declare getEnv_def [go_eval] Load_def [go_eval]
  start_servers_def [go_eval] start_mem_def [go_eval]


section \<open>The running server\<close>

inductive mgmt_step :: "jwt_lib \<Rightarrow> mem_store http_Server \<Rightarrow> mem_store http_Server \<Rightarrow> bool" for lib where
  step_http: "mgmt_step lib s (snd (registerRoutes mem_ops lib env header req s))"
| step_reset: "mgmt_step lib s (reset_attempts s)"
| step_login: "mgmt_step lib s (s\<lparr>hs_grpc := snd (Login mem_ops lib now u u8 addr lreq (hs_grpc s))\<rparr>)"
| step_sync: "mgmt_step lib s (s\<lparr>hs_grpc := snd (Sync_start mem_ops now ch addr claims k sent (hs_grpc s))\<rparr>)"
| step_push: "mgmt_step lib s (s\<lparr>hs_grpc := snd (Sync_push mem_ops now ss sent (hs_grpc s))\<rparr>)"
| step_end: "mgmt_step lib s (s\<lparr>hs_grpc := Sync_end mem_ops now ss (hs_grpc s)\<rparr>)"
| step_meta: "mgmt_step lib s (s\<lparr>hs_grpc := snd (UpdatePeerMeta mem_ops now u8 claims k meta (hs_grpc s))\<rparr>)"
| step_country: "mgmt_step lib s (s\<lparr>hs_grpc := resolveCountry mem_ops country k ip (hs_grpc s)\<rparr>)"
| step_feed: "mgmt_step lib s (s\<lparr>hs_grpc := (hs_grpc s)\<lparr>sv_blocklist := bl\<rparr>\<rparr>)"

text \<open>A configured start: the pool does not begin at 255.255.255.255 (see \<open>ipam_start\<close>).\<close>

definition mgmt_start :: "mem_store http_Server \<Rightarrow> bool" where
  "mgmt_start s \<longleftrightarrow> (\<exists>now uuid version cfg. start_mem now uuid version cfg = Some s)
     \<and> net_base (ipam_network (sv_ipam (hs_grpc s))) \<noteq> -1"

text \<open>The invariant: the maps are well formed, the pool is consistent, every stored device is in
  the group Default and has the address its key holds in the pool, and every stored rule
  passes validation.\<close>

definition peer_ok :: "IPAM \<Rightarrow> string \<Rightarrow> Peer \<Rightarrow> bool" where
  "peer_ok i k p \<longleftrightarrow> DefaultGroupName \<in> set (p_Groups p) \<and> lease_of i k = Some (p_IP p)"

definition peers_ok :: "IPAM \<Rightarrow> mem_store \<Rightarrow> bool" where
  "peers_ok i st \<longleftrightarrow> (\<forall>k p. go_get (ms_peers st) k = Some p \<longrightarrow> peer_ok i k p)"

definition rules_ok :: "mem_store \<Rightarrow> bool" where
  "rules_ok st \<longleftrightarrow> (\<forall>i r. go_get (ms_rules st) i = Some r \<longrightarrow> rule_ok r)"

definition mgmt_inv :: "mem_store Server \<Rightarrow> bool" where
  "mgmt_inv g \<longleftrightarrow> mem_inv (sv_store g) \<and> pool_inv (sv_ipam g) \<and> peers_ok (sv_ipam g) (sv_store g)
     \<and> rules_ok (sv_store g)"


section \<open>Lemmas\<close>

lemma edit_inv:
  assumes "edit env a st st'" "mem_inv st"
  shows "mem_inv st'"
  using assms
proof (cases rule: edit.cases)
  case (edit_peer k p q)
  then have "p_WGPubKey q = k" using assms(2) by (auto simp: same_peer_def mem_inv_def dest: keyedD)
  with edit_peer assms(2) show ?thesis by (auto simp: mem_inv_def)
qed (auto simp: mem_inv_def)

lemma edit_peers_ok:
  assumes "edit env a st st'" "peers_ok i st"
  shows "peers_ok i st'"
  using assms
proof (cases rule: edit.cases)
  case (edit_peer k p q)
  then have "peer_ok i k q" using assms(2) by (auto simp: peers_ok_def peer_ok_def same_peer_def)
  with edit_peer assms(2) show ?thesis by (auto simp: peers_ok_def go_get_put)
qed (auto simp: peers_ok_def go_get_del split: if_splits)

lemma edit_rules_ok:
  assumes "edit env a st st'" "rules_ok st"
  shows "rules_ok st'"
  using assms
proof (cases rule: edit.cases)
  case (edit_old_rule r old)
  then have "rule_ok r" using assms(2) by (auto simp: rules_ok_def)
  with edit_old_rule assms(2) show ?thesis by (auto simp: rules_ok_def go_get_put)
qed (auto simp: rules_ok_def go_get_put go_get_del split: if_splits)

lemma edits_keep:
  assumes "edits env a st st'" "mem_inv st" "rules_ok st"
  shows "mem_inv st' \<and> rules_ok st' \<and> (\<forall>i. peers_ok i st \<longrightarrow> peers_ok i st')"
  using assms(1)
proof (induction rule: rtranclp_induct)
  case (step y z)
  then show ?case using edit_inv edit_rules_ok edit_peers_ok by blast
qed (use assms in auto)

text \<open>Forgetting the lease of a key that has no record.\<close>

lemma peers_ok_Release:
  "peers_ok i st \<Longrightarrow> go_get (ms_peers st) k = None \<Longrightarrow> peers_ok (Release k i) st"
  by (auto simp: peers_ok_def peer_ok_def lease_of_Release)

lemma peers_ok_Allocate:
  assumes "peers_ok i st"
  shows "peers_ok (snd (Allocate k i)) st"
  using assms pool.alloc_keeps_holder [of i] by (auto simp: peers_ok_def peer_ok_def)

lemma mgmt_inv_edits:
  assumes "mgmt_inv g" "edits env a (sv_store g) st"
  shows "mgmt_inv (g\<lparr>sv_store := st\<rparr>)"
  using assms edits_keep [OF assms(2)] by (auto simp: mgmt_inv_def)

lemma mgmt_inv_cong:
  "sv_store g' = sv_store g \<Longrightarrow> sv_ipam g' = sv_ipam g \<Longrightarrow> mgmt_inv g' = mgmt_inv g"
  by (simp add: mgmt_inv_def)

lemma mgmt_inv_store:
  assumes "mgmt_inv g" "edits env a (sv_store g) (sv_store g')" "sv_ipam g' = sv_ipam g"
  shows "mgmt_inv g'"
  using mgmt_inv_edits [OF assms(1,2)] assms(3) mgmt_inv_cong [of g' "g\<lparr>sv_store := sv_store g'\<rparr>"] by simp


subsection \<open>Requests over HTTP\<close>

lemma routes_ipam:
  obtains "sv_ipam (hs_grpc (snd (registerRoutes mem_ops lib env header req s))) = sv_ipam (hs_grpc s)"
  | k where "sv_ipam (hs_grpc (snd (registerRoutes mem_ops lib env header req s))) = Release k (sv_ipam (hs_grpc s))"
      "go_get (ms_peers (hs_store (snd (registerRoutes mem_ops lib env header req s)))) k = None"
proof (cases "caller lib env header s")
  case None
  then have "sv_ipam (hs_grpc (snd (registerRoutes mem_ops lib env header req s))) = sv_ipam (hs_grpc s)"
    by (cases req) (simp_all add: registerRoutes_def guarded adminLogin_store health_def)
  then show thesis by (rule that(1))
next
  case (Some c)
  note [simp] = registerRoutes_def guarded adminLogin_store health_def adminOnly_def Some
  show thesis
  proof (cases "\<exists>k. req = RemovePeer k \<and> cl_Role c = ''admin''")
    case True
    then obtain k where k: "req = RemovePeer k" "cl_Role c = ''admin''" by blast
    show thesis
    proof (cases rule: deletePeer_cases [of env c k s])
      case 1
      with k show thesis by (intro that(1)) simp
    next
      case (2 p)
      with k show thesis by (intro that(2) [of k]) simp_all
    qed
  next
    case False
    have [simp]: "sv_ipam (hs_grpc (snd (save_peer_and_reply mem_ops a p t))) = sv_ipam (hs_grpc t)" for a p t
      by (simp add: save_peer_mem)
    have "sv_ipam (hs_grpc (snd (registerRoutes mem_ops lib env header req s))) = sv_ipam (hs_grpc s)"
      using False
      by (cases req)
         (simp_all add: listPeers_def updatePeer_def setPeerRoutes_def setPeerExitNode_def listGroups_def
           createGroup_def deleteGroup_def listSetupKeys_def createSetupKey_def deleteSetupKey_def listRules_def
           createRule_def updateRule_def deleteRule_def Let_def split: sum.split option.split)
    then show thesis by (rule that(1))
  qed
qed

lemma mgmt_inv_http:
  assumes "mgmt_inv (hs_grpc s)"
  shows "mgmt_inv (hs_grpc (snd (registerRoutes mem_ops lib env header req s)))" (is "mgmt_inv ?g")
proof -
  have inv: "mem_inv (hs_store s)" using assms by (simp add: mgmt_inv_def hs_store_def)
  obtain a where e: "edits env a (sv_store (hs_grpc s)) (sv_store ?g)"
  proof (cases "caller lib env header s")
    case None
    then show thesis using routes_refused [of lib env header s req] that [of "[]"] by (simp add: hs_store_def)
  next
    case (Some c)
    then show thesis using routes_edits [OF inv Some, of req] that by (simp add: hs_store_def)
  qed
  note m = mgmt_inv_edits [OF assms e]
  show ?thesis
  proof (cases rule: routes_ipam [of lib env header req s])
    case 1
    then show ?thesis by (rule mgmt_inv_store [OF assms e])
  next
    case (2 k)
    with m show ?thesis
      by (simp add: mgmt_inv_def pool_inv_Release peers_ok_Release hs_store_def)
  qed
qed


subsection \<open>Calls over gRPC\<close>

text \<open>A change of a stored record that keeps who the peer is, through the pointer and the save.\<close>

lemma assign_save_edits:
  assumes "mem_inv st" "go_get (ms_peers st) k = Some p" "same_peer p q"
  shows "edits env (p_AccountID p) st
    (st\<lparr>ms_peers := go_put k q (ms_peers st)\<rparr>)"
  using edit_peer [OF assms(2) refl assms(3), of env] by (simp add: r_into_rtranclp)

lemma touch_edits:
  assumes "mem_inv st"
  shows "\<exists>a. edits env a st (touchLastSeen mem_ops now p st)"
proof (cases "go_get (ms_peers st) (p_WGPubKey p)")
  case None
  then have "touchLastSeen mem_ops now p st = st" by (simp add: touchLastSeen_def mem_GetPeer_def)
  then show ?thesis by auto
next
  case (Some q)
  then have "p_WGPubKey q = p_WGPubKey p" using assms by (auto simp: mem_inv_def dest: keyedD)
  then have "touchLastSeen mem_ops now p st =
      st\<lparr>ms_peers := go_put (p_WGPubKey p) (q\<lparr>p_LastSeen := now\<rparr>) (ms_peers st)\<rparr>"
    using Some by (simp add: touchLastSeen_def mem_GetPeer_def mem_AssignPeer_def mem_SavePeer_def Let_def)
  moreover have "same_peer q (q\<lparr>p_LastSeen := now\<rparr>)" by (simp add: same_peer_def)
  ultimately show ?thesis using assign_save_edits [OF assms Some] by metis
qed

lemma mgmt_inv_touch:
  assumes "mgmt_inv g"
  shows "mgmt_inv (g\<lparr>sv_store := touchLastSeen mem_ops now p (sv_store g)\<rparr>)"
proof -
  have "mem_inv (sv_store g)" using assms by (simp add: mgmt_inv_def)
  from touch_edits [OF this, of example_env now p] obtain a
    where "edits example_env a (sv_store g) (touchLastSeen mem_ops now p (sv_store g))" ..
  then show ?thesis by (rule mgmt_inv_edits [OF assms])
qed

lemma mgmt_inv_end: "mgmt_inv g \<Longrightarrow> mgmt_inv (Sync_end mem_ops now ss g)"
  using mgmt_inv_touch [of "unregisterSub (p_WGPubKey (ss_peer ss)) g" now "ss_peer ss"]
  by (simp add: Sync_end_def Let_def unregisterSub_def mgmt_inv_def)

lemma mgmt_inv_push: "mgmt_inv g \<Longrightarrow> mgmt_inv (snd (Sync_push mem_ops now ss sent g))"
  using mgmt_inv_end [of "g\<lparr>sv_chans := go_put (ss_ch ss) False (sv_chans g)\<rparr>" now ss]
  by (auto simp: Sync_push_def Let_def mgmt_inv_def split: option.split)

lemma mgmt_inv_put:
  assumes "mgmt_inv g" "go_get (ms_peers (sv_store g)) k = Some p" "same_peer p q"
  shows "mgmt_inv (g\<lparr>sv_store := (sv_store g)\<lparr>ms_peers := go_put k q (ms_peers (sv_store g))\<rparr>\<rparr>)"
proof (rule mgmt_inv_edits [OF assms(1)])
  have "mem_inv (sv_store g)" using assms(1) by (simp add: mgmt_inv_def)
  then show "edits example_env (p_AccountID p) (sv_store g) ((sv_store g)\<lparr>ms_peers := go_put k q (ms_peers (sv_store g))\<rparr>)"
    by (rule assign_save_edits [OF _ assms(2,3)])
qed

lemma mgmt_inv_sync:
  assumes inv: "mgmt_inv g"
  shows "mgmt_inv (snd (Sync_start mem_ops now ch addr claims k sent g))"
proof (cases "go_get (ms_peers (sv_store g)) k")
  case None
  then show ?thesis using inv by (simp add: Sync_start_def mem_GetPeer_def)
next
  case (Some p)
  then have key: "p_WGPubKey p = k" using inv by (auto simp: mgmt_inv_def mem_inv_def dest: keyedD)
  let ?p = "p\<lparr>p_LastSeen := now\<rparr>"
  define g1 where "g1 = registerSub k \<lparr>sub_peerKey = k, sub_accountID = p_AccountID p, sub_ch = ch\<rparr>
    (g\<lparr>sv_chans := go_put ch False (sv_chans g)\<rparr>)"
  have i1: "mgmt_inv g1" using inv by (simp add: g1_def registerSub_def mgmt_inv_def)
  have st1: "sv_store g1 = sv_store g" by (simp add: g1_def registerSub_def)
  define g2 where "g2 = g1\<lparr>sv_store := touchLastSeen mem_ops now p (sv_store g1)\<rparr>"
  have i2: "mgmt_inv g2" unfolding g2_def by (rule mgmt_inv_touch [OF i1])
  have touch: "touchLastSeen mem_ops now p (sv_store g1) = (sv_store g)\<lparr>ms_peers := go_put k ?p (ms_peers (sv_store g))\<rparr>"
    using touch_mem [of "sv_store g" p now] Some key st1 by simp
  have p2: "go_get (ms_peers (sv_store g2)) k = Some ?p" by (simp add: g2_def touch)
  define ip where "ip = sourceIP addr"
  define g3 where "g3 = (if ip \<noteq> [] \<and> ip \<noteq> ''unknown'' \<and> ip \<noteq> p_PublicIP p
    then resolveCountryAsync k ip (g2\<lparr>sv_store := (sv_store g2)\<lparr>ms_peers := go_put k (?p\<lparr>p_PublicIP := ip\<rparr>) (ms_peers (sv_store g2))\<rparr>\<rparr>)
    else g2)"
  have "same_peer ?p (?p\<lparr>p_PublicIP := ip\<rparr>)" by (simp add: same_peer_def)
  from mgmt_inv_put [OF i2 p2 this] i2 have i3: "mgmt_inv g3"
    by (simp add: g3_def mgmt_inv_def)
  have "snd (Sync_start mem_ops now ch addr claims k sent g) \<in>
      {g, g3, Sync_end mem_ops now \<lparr>ss_peer = ?p, ss_ch = ch\<rparr> g3}"
    using Some key p2
    by (simp add: Sync_start_def mem_GetPeer_def Let_def g1_def [symmetric] g2_def [symmetric] ip_def [symmetric]
        mem_DerefPeer_def mem_AssignPeer_def mem_SavePeer_def g3_def sync_message_mem)
  then show ?thesis using inv i3 mgmt_inv_end [OF i3] by auto
qed

lemma mgmt_inv_meta:
  assumes inv: "mgmt_inv g"
  shows "mgmt_inv (snd (UpdatePeerMeta mem_ops now u8 claims k meta g))"
proof (cases "go_get (ms_peers (sv_store g)) k")
  case None
  then show ?thesis using inv by (simp add: UpdatePeerMeta_def mem_GetPeer_def)
next
  case (Some p)
  then have key: "p_WGPubKey p = k" using inv by (auto simp: mgmt_inv_def mem_inv_def dest: keyedD)
  define upd :: "Peer \<Rightarrow> Peer" where "upd = (\<lambda>p. (case meta of None \<Rightarrow> p
    | Some m \<Rightarrow> p\<lparr>p_Hostname := m_Hostname m, p_OS := m_Os m, p_Kernel := m_Kernel m,
        p_Version := m_CoreVersion m, p_DNSLabel := ToDNSLabel u8 (m_Hostname m),
        p_LocalIP := (if m_LocalIp m \<noteq> [] then m_LocalIp m else p_LocalIP p)\<rparr>)\<lparr>p_LastSeen := now\<rparr>)"
  have same: "same_peer p (upd p)" by (simp add: upd_def same_peer_def split: option.split)
  then have "p_WGPubKey (upd p) = k" using key by (simp add: same_peer_def)
  then have "snd (UpdatePeerMeta mem_ops now u8 claims k meta g) \<in>
      {g, g\<lparr>sv_store := (sv_store g)\<lparr>ms_peers := go_put k (upd p) (ms_peers (sv_store g))\<rparr>\<rparr>}"
    using Some
    by (simp add: UpdatePeerMeta_def mem_GetPeer_def Let_def mem_AssignPeer_def mem_SavePeer_def
        flip: upd_def)
  then show ?thesis using inv mgmt_inv_put [OF inv Some same] by auto
qed

lemma mgmt_inv_country:
  assumes inv: "mgmt_inv g"
  shows "mgmt_inv (resolveCountry mem_ops country k ip g)"
proof (cases "go_get (ms_peers (sv_store g)) k")
  case None
  then show ?thesis using inv by (simp add: resolveCountry_def mem_GetPeer_def split: option.split)
next
  case (Some p)
  then have key: "p_WGPubKey p = k" using inv by (auto simp: mgmt_inv_def mem_inv_def dest: keyedD)
  have "mgmt_inv (g\<lparr>sv_store := (sv_store g)\<lparr>ms_peers := go_put k (p\<lparr>p_Country := c\<rparr>) (ms_peers (sv_store g))\<rparr>\<rparr>)" for c
    by (rule mgmt_inv_put [OF inv Some]) (simp add: same_peer_def)
  with inv Some key show ?thesis
    by (simp add: resolveCountry_def mem_GetPeer_def mem_AssignPeer_def mem_SavePeer_def Let_def split: option.split)
qed

lemma Login_ipam:
  "sv_ipam (snd (Login ops lib now u u8 addr req g)) \<in> {sv_ipam g, snd (Allocate (lr_WgPubKey req) (sv_ipam g))}"
  by (auto simp: Login_def enrol_def Let_def split: prod.split sum.split)

lemma enrol_ipam: "sv_ipam (snd (enrol ops lib now sk ip p g)) = sv_ipam g"
  by (auto simp: enrol_def Let_def split: sum.split)

lemma increment_frame:
  "ms_peers (case mem_IncrementSetupKeyUsage i st of Inl _ \<Rightarrow> st | Inr st' \<Rightarrow> st') = ms_peers st"
  "ms_rules (case mem_IncrementSetupKeyUsage i st of Inl _ \<Rightarrow> st | Inr st' \<Rightarrow> st') = ms_rules st"
  by (auto simp: mem_IncrementSetupKeyUsage_def split: option.split)

lemma peer_ok_enrolled:
  assumes "enrolled mem_ops st (login_peer now u u8 addr req sk ip) p" "peers_ok i st"
    "lease_of j (lr_WgPubKey req) = Some ip"
  shows "peer_ok j (lr_WgPubKey req) p"
proof -
  have "DefaultGroupName \<in> set (p_Groups (login_peer now u u8 addr req sk ip))"
    by (simp add: login_peer_def login_groups_def zero_Peer_def)
  moreover have "DefaultGroupName \<in> set (p_Groups e)" if "mem_GetPeer (lr_WgPubKey req) st = Inr e" for e
    using that assms(2) by (auto simp: peers_ok_def peer_ok_def mem_GetPeer_Inr)
  ultimately have "DefaultGroupName \<in> set (p_Groups p)"
    using assms(1) by (auto simp: enrolled_def split: sum.splits)
  moreover have "p_IP p = ip" using enrolled_sel [OF assms(1)] by simp
  ultimately show ?thesis using assms(3) by (simp add: peer_ok_def)
qed

lemma mgmt_inv_login:
  assumes inv: "mgmt_inv g"
  shows "mgmt_inv (snd (Login mem_ops lib now u u8 addr req g))"
proof (cases "fst (Login mem_ops lib now u u8 addr req g)")
  case (Inl c)
  then have "sv_store (snd (Login mem_ops lib now u u8 addr req g)) = sv_store g"
    using Login_failure [of mem_ops lib now u u8 addr req g c] by (metis prod.collapse)
  then show ?thesis
    using inv Login_ipam [of mem_ops lib now u u8 addr req g]
    by (auto simp: mgmt_inv_def pool_inv_Allocate peers_ok_Allocate)
next
  case (Inr resp)
  then have "Login mem_ops lib now u u8 addr req g = (Inr resp, snd (Login mem_ops lib now u u8 addr req g))"
    by (metis prod.collapse)
  then show ?thesis
  proof (rule Login_success)
    fix sk ip ipam p limits
    let ?g' = "snd (Login mem_ops lib now u u8 addr req g)"
    assume a: "Allocate (lr_WgPubKey req) (sv_ipam g) = (Inr ip, ipam)"
      and p: "enrolled mem_ops (sv_store g) (login_peer now u u8 (sourceIP addr) req sk ip) p"
      and e: "enrol mem_ops lib now sk ip p (g\<lparr>sv_loginLimits := limits, sv_ipam := ipam\<rparr>) = (Inr resp, ?g')"
    have ipam: "ipam = snd (Allocate (lr_WgPubKey req) (sv_ipam g))" "sv_ipam ?g' = ipam"
      using a enrol_ipam [of mem_ops lib now sk ip p "g\<lparr>sv_loginLimits := limits, sv_ipam := ipam\<rparr>"] e by simp_all
    have key: "p_WGPubKey p = lr_WgPubKey req" using enrolled_sel [OF p] by simp
    have ok: "peer_ok ipam (lr_WgPubKey req) p"
      using inv lease_of_Allocate [OF a] by (intro peer_ok_enrolled [OF p]) (auto simp: mgmt_inv_def)
    have mem: "mem_inv (sv_store ?g')"
      using mem.enrol_inv [OF _ e] inv by (simp add: mgmt_inv_def)
    obtain st1 where st1: "st1 = (sv_store g)\<lparr>ms_peers := go_put (lr_WgPubKey req) p (ms_peers (sv_store g))\<rparr>"
      and st: "sv_store ?g' = (case mem_IncrementSetupKeyUsage (sk_ID sk) st1 of Inl _ \<Rightarrow> st1 | Inr st2 \<Rightarrow> st2)"
      using e by (elim enrol_success) (auto simp: mem_SavePeer_def key)
    have fr: "ms_peers (sv_store ?g') = ms_peers st1" "ms_rules (sv_store ?g') = ms_rules st1"
      unfolding st by (rule increment_frame)+
    have "peers_ok ipam (sv_store g)" using inv by (simp add: ipam(1) mgmt_inv_def peers_ok_Allocate)
    then have "peers_ok ipam (sv_store ?g')" using ok by (simp add: peers_ok_def fr st1 go_get_put)
    moreover have "rules_ok (sv_store ?g')" using inv by (simp add: mgmt_inv_def rules_ok_def fr st1)
    ultimately show "mgmt_inv ?g'"
      using mem inv by (simp add: mgmt_inv_def ipam pool_inv_Allocate)
  qed
qed


subsection \<open>Every run keeps the invariant\<close>

lemma default_rule_ok: "rule_ok (default_rule now a)"
  by (simp add: rule_ok_def default_rule_def bad_action_def validateRuleFields_def endpoint_error_def
      has_prefix_def DefaultGroupName_def validProtocols_def to_lower_def lower_char_def)

lemma mgmt_inv_start: "mgmt_start s \<Longrightarrow> mgmt_inv (hs_grpc s)"
proof -
  assume start: "mgmt_start s"
  then obtain now uuid version cfg where m: "start_mem now uuid version cfg = Some s"
    and b: "net_base (ipam_network (sv_ipam (hs_grpc s))) \<noteq> -1"
    by (auto simp: mgmt_start_def)
  obtain i where i: "NewIPAM (cf_NetworkCIDR cfg) = Some i"
    using m by (auto simp: start_mem_def start_servers_def Let_def split: if_splits option.splits)
  have all: "GetAllPeers mem_ops (mem_New uuid now k) = Inr []" for k
    by (simp add: mem_ops_def mem_GetAllPeers_def mem_New_def go_values_def Let_def)
  have g: "sv_store (hs_grpc s) = mem_New uuid now (cf_DefaultKey cfg)" "sv_ipam (hs_grpc s) = i"
    using m i by (auto simp: start_mem_def start_servers_def Let_def New_http_def New_Server_def all
        PreloadPeers_def split: if_splits)
  have "pool_inv i" using b i g(2) by (intro pool_inv_start) (auto simp: ipam_start_def)
  moreover have "rules_ok (mem_New uuid now k)" "peers_ok i (mem_New uuid now k)" for k
    using default_rule_ok
    by (auto simp: rules_ok_def peers_ok_def mem_New_def Let_def go_get_put split: if_splits)
  ultimately show ?thesis by (simp add: mgmt_inv_def g mem_inv_New)
qed

interpretation mgmt: invariant_system mgmt_start "mgmt_step lib" "\<lambda>s. mgmt_inv (hs_grpc s)" for lib
proof unfold_locales
  fix s t
  assume "mgmt_step lib s t" "mgmt_inv (hs_grpc s)"
  then show "mgmt_inv (hs_grpc t)"
    by (cases rule: mgmt_step.cases)
       (simp_all add: mgmt_inv_http mgmt_inv_login mgmt_inv_sync mgmt_inv_push mgmt_inv_end mgmt_inv_meta
         mgmt_inv_country reset_attempts_def mgmt_inv_def [of "_\<lparr>sv_blocklist := _\<rparr>"] mgmt_inv_def [of "hs_grpc s"])
qed (fact mgmt_inv_start)


section \<open>Properties\<close>

definition example_config :: Config where
  "example_config =
     \<lparr>cf_GRPCAddr = '':50051'', cf_HTTPAddr = '':8080'', cf_JWTSecret = ''s'', cf_LogLevel = ''info'',
      cf_NetworkCIDR = ''100.64.0.0/10'', cf_DNSSuffix = ''blinex'', cf_DatabaseURL = [], cf_DefaultKey = ''seed'',
      cf_TLSCertFile = [], cf_TLSKeyFile = [], cf_TLSStateDir = [], cf_AdminUser = ''admin'',
      cf_AdminPassword = ''pw'', cf_BlocklistURL = [], cf_BlocklistRefresh = ''6h''\<rparr>"

definition example_start :: "mem_store http_Server" where
  "example_start = New_http (New_Server 0 (mem_New ''u'' 0 ''seed'') (NewManager ''s'') example_pool
     ''100.64.0.0/10'' ''blinex'' (Some NewStore)) ''1.0'' ''admin'' ''pw''"

definition example_running :: "mem_store http_Server" where
  "example_running = example_start\<lparr>hs_grpc :=
     snd (Login mem_ops plain_jwt 0 ''u'' ''u8'' None (example_login ''k1'') (hs_grpc example_start))\<rparr>"

lemma example_start_ok: "mgmt_start example_start"
proof -
  have p: "NewIPAM ''100.64.0.0/10'' = Some example_pool" "net_base (ipam_network example_pool) \<noteq> -1"
    using example_pool_start by (simp_all add: example_pool_def ipam_start_def NewIPAM_def split: option.splits)
       (simp_all add: go_eval)
  then have "start_mem 0 ''u'' ''1.0'' example_config = Some example_start"
    by (simp add: start_mem_def start_servers_def example_config_def example_start_def mem_ops_def
        mem_GetAllPeers_def mem_New_def go_values_def PreloadPeers_def Let_def)
  with p show ?thesis
    unfolding mgmt_start_def by (auto simp: example_start_def New_http_def New_Server_def)
qed

lemma example_running_reach: "reach mgmt_start (mgmt_step plain_jwt) example_running"
  unfolding example_running_def by (rule reach_step, rule reach_init, rule example_start_ok, rule step_login)

lemma example_running_peer: "\<exists>p. go_get (ms_peers (hs_store example_running)) ''k1'' = Some p \<and> p_IP p = ''100.64.0.1''"
  by (simp add: example_running_def example_start_def example_login_def example_pool_def hs_store_def
      New_http_def time_sub_def go_eval)



lemma getEnv_nonempty: "d \<noteq> [] \<Longrightarrow> getEnv env k d \<noteq> []"
  by (simp add: getEnv_def)

text \<open>The configuration has usable secrets, and the domain filter is always on: the signing
  secret has at least 32 characters, the first setup key is not empty, and the address of the
  block-list feed is never empty, also when the variable is set to the empty string.\<close>

theorem Load_never_disables_feed:
  assumes "Load env rnd = Some cfg"
  shows "32 \<le> length (cf_JWTSecret cfg) \<and> cf_DefaultKey cfg \<noteq> [] \<and> cf_BlocklistURL cfg \<noteq> []"
  using assms getEnv_nonempty
  by (auto simp: Load_def Let_def not_less split: if_splits option.splits)

theorem Load_never_disables_feed_witness:
  "\<exists>cfg. Load (\<lambda>v. if v = ''MGMT_JWT_SECRET'' then replicate 32 (CHR ''x'') else []) (Some [0xab, 0x01]) = Some cfg
     \<and> cf_BlocklistURL cfg \<noteq> [] \<and> cf_DefaultKey cfg = ''msk-ab01''"
proof -
  let ?env = "\<lambda>v. if v = ''MGMT_JWT_SECRET'' then replicate 32 (CHR ''x'') else []"
  obtain cfg where c: "Load ?env (Some [0xab, 0x01]) = Some cfg" by (simp add: Load_def Let_def)
  then have "cf_DefaultKey cfg = ''msk-ab01''"
    by (auto simp: Load_def Let_def EncodeToString_def hex_digit_def)
  with c Load_never_disables_feed [OF c] show ?thesis by blast
qed

end
