(* ===== verification/Store_Postgres.thy ===== *)
theory Store_Postgres
  imports Mgmt_Grpc
begin

text \<open>
  The persistent store of the management server (\<^verbatim>\<open>management/internal/store/postgres/store.go\<close>). The
  library that talks to the database is the parameter \<open>gorm\<close>, one record of operations for each
  table; a table is the list of its rows, and an operation that the database refuses is none. What
  the code relies on are the laws \<open>table_laws\<close>: rows are found by their columns, a row is replaced by
  its primary key, and neither primary keys nor unique columns ever collide. Times are stored exactly.

  The store keeps the contract \<open>store_laws\<close>, so what is proved of the services from the contract holds
  for this store as well.
\<close>

section \<open>Rows\<close>

record pg_account =
  pa_ID :: string
  pa_Name :: string
  pa_CreatedAt :: gtime

record pg_setupKey =
  ps_ID :: string
  ps_AccountID :: string
  ps_Key :: string
  ps_Name :: string
  ps_Ephemeral :: bool
  ps_UsedCount :: int
  ps_AutoGroups :: string
  ps_ExpiresAt :: gtime
  ps_CreatedAt :: gtime

record pg_peer =
  pp_ID :: string
  pp_AccountID :: string
  pp_WGPubKey :: string
  pp_IP :: string
  pp_LocalIP :: string
  pp_PublicIP :: string
  pp_Country :: string
  pp_Hostname :: string
  pp_OS :: string
  pp_Kernel :: string
  pp_Version :: string
  pp_DNSLabel :: string
  pp_Groups :: string
  pp_AllowedIPs :: string
  pp_AdvertisedRoutes :: string
  pp_ExitNode :: string
  pp_LastSeen :: gtime
  pp_CreatedAt :: gtime

record pg_group =
  pgr_ID :: string
  pgr_AccountID :: string
  pgr_Name :: string
  pgr_CreatedAt :: gtime

record pg_rule =
  pr_ID :: string
  pr_AccountID :: string
  pr_Name :: string
  pr_Src :: string
  pr_Dst :: string
  pr_Protocol :: string
  pr_Port :: int
  pr_Action :: string
  pr_Enabled :: bool
  pr_Priority :: int
  pr_CreatedAt :: gtime


section \<open>Lists in a column\<close>

definition joinIPs :: "string list \<Rightarrow> string" where
  "joinIPs ips = fold (\<lambda>(i, ip) out. (if i > 0 then out @ '','' else out) @ ip) (enumerate 0 ips) []"

text \<open>The loop of \<^verbatim>\<open>splitIPs\<close>, with the characters since \<^verbatim>\<open>start\<close>.\<close>

fun split_loop :: "string \<Rightarrow> string \<Rightarrow> string list" where
  "split_loop cur [] = (if cur \<noteq> [] then [cur] else [])"
| "split_loop cur (c # s) =
     (if c = CHR '','' then (if cur \<noteq> [] then [cur] else []) @ split_loop [] s
      else split_loop (cur @ [c]) s)"

definition splitIPs :: "string \<Rightarrow> string list" where
  "splitIPs s = (if s = [] then [] else split_loop [] s)"

definition toDomainSetupKey :: "pg_setupKey \<Rightarrow> SetupKey" where
  "toDomainSetupKey sk =
     \<lparr>sk_ID = ps_ID sk, sk_AccountID = ps_AccountID sk, sk_Key = ps_Key sk, sk_Name = ps_Name sk,
      sk_Ephemeral = ps_Ephemeral sk, sk_UsedCount = ps_UsedCount sk, sk_AutoGroups = splitIPs (ps_AutoGroups sk),
      sk_CreatedAt = ps_CreatedAt sk, sk_ExpiresAt = ps_ExpiresAt sk\<rparr>"

definition toDomainPeer :: "pg_peer \<Rightarrow> Peer" where
  "toDomainPeer p =
     \<lparr>p_ID = pp_ID p, p_AccountID = pp_AccountID p, p_WGPubKey = pp_WGPubKey p, p_IP = pp_IP p,
      p_LocalIP = pp_LocalIP p, p_PublicIP = pp_PublicIP p, p_Country = pp_Country p,
      p_Hostname = pp_Hostname p, p_OS = pp_OS p, p_Kernel = pp_Kernel p, p_Version = pp_Version p,
      p_DNSLabel = pp_DNSLabel p, p_Groups = splitIPs (pp_Groups p), p_AllowedIPs = splitIPs (pp_AllowedIPs p),
      p_AdvertisedRoutes = splitIPs (pp_AdvertisedRoutes p), p_ExitNode = pp_ExitNode p, p_Connected = False,
      p_LastSeen = pp_LastSeen p, p_CreatedAt = pp_CreatedAt p\<rparr>"

definition toDomainRule :: "pg_rule \<Rightarrow> Rule" where
  "toDomainRule r =
     \<lparr>r_ID = pr_ID r, r_AccountID = pr_AccountID r, r_Name = pr_Name r, r_Src = pr_Src r, r_Dst = pr_Dst r,
      r_Protocol = pr_Protocol r, r_Port = pr_Port r, r_Action = pr_Action r, r_Enabled = pr_Enabled r,
      r_Priority = pr_Priority r, r_CreatedAt = pr_CreatedAt r\<rparr>"

text \<open>The struct literals in \<^verbatim>\<open>SavePeer\<close>, \<^verbatim>\<open>SaveRule\<close> and \<^verbatim>\<open>CreateSetupKey\<close>.\<close>

definition peer_row :: "Peer \<Rightarrow> pg_peer" where
  "peer_row dp =
     \<lparr>pp_ID = p_ID dp, pp_AccountID = p_AccountID dp, pp_WGPubKey = p_WGPubKey dp, pp_IP = p_IP dp,
      pp_LocalIP = p_LocalIP dp, pp_PublicIP = p_PublicIP dp, pp_Country = p_Country dp,
      pp_Hostname = p_Hostname dp, pp_OS = p_OS dp, pp_Kernel = p_Kernel dp, pp_Version = p_Version dp,
      pp_DNSLabel = p_DNSLabel dp, pp_Groups = joinIPs (p_Groups dp), pp_AllowedIPs = joinIPs (p_AllowedIPs dp),
      pp_AdvertisedRoutes = joinIPs (p_AdvertisedRoutes dp), pp_ExitNode = p_ExitNode dp,
      pp_LastSeen = p_LastSeen dp, pp_CreatedAt = p_CreatedAt dp\<rparr>"

definition rule_row :: "Rule \<Rightarrow> pg_rule" where
  "rule_row dr =
     \<lparr>pr_ID = r_ID dr, pr_AccountID = r_AccountID dr, pr_Name = r_Name dr, pr_Src = r_Src dr, pr_Dst = r_Dst dr,
      pr_Protocol = r_Protocol dr, pr_Port = r_Port dr, pr_Action = r_Action dr, pr_Enabled = r_Enabled dr,
      pr_Priority = r_Priority dr, pr_CreatedAt = r_CreatedAt dr\<rparr>"

definition setupKey_row :: "SetupKey \<Rightarrow> pg_setupKey" where
  "setupKey_row dk =
     \<lparr>ps_ID = sk_ID dk, ps_AccountID = sk_AccountID dk, ps_Key = sk_Key dk, ps_Name = sk_Name dk,
      ps_Ephemeral = sk_Ephemeral dk, ps_UsedCount = 0, ps_AutoGroups = joinIPs (sk_AutoGroups dk),
      ps_ExpiresAt = sk_ExpiresAt dk, ps_CreatedAt = sk_CreatedAt dk\<rparr>"


section \<open>The database library\<close>

text \<open>\<open>tb_FirstOrCreate\<close> has the condition of its second argument and the row it creates when no row
  meets the condition; \<open>tb_FindBy\<close> is \<^verbatim>\<open>Order(...).Find\<close>; \<open>tb_Delete\<close> also counts the rows.\<close>

record 'row table =
  tb_First :: "('row \<Rightarrow> bool) \<Rightarrow> 'row list \<Rightarrow> 'row option"
  tb_Find :: "('row \<Rightarrow> bool) \<Rightarrow> 'row list \<Rightarrow> 'row list option"
  tb_FindBy :: "('row \<Rightarrow> int) \<Rightarrow> ('row \<Rightarrow> bool) \<Rightarrow> 'row list \<Rightarrow> 'row list option"
  tb_FirstOrCreate :: "('row \<Rightarrow> bool) \<Rightarrow> 'row \<Rightarrow> 'row list \<Rightarrow> ('row \<times> 'row list) option"
  tb_Create :: "'row \<Rightarrow> 'row list \<Rightarrow> 'row list option"
  tb_Save :: "'row \<Rightarrow> 'row list \<Rightarrow> 'row list option"
  tb_Delete :: "('row \<Rightarrow> bool) \<Rightarrow> 'row list \<Rightarrow> ('row list \<times> nat) option"
  tb_Update :: "('row \<Rightarrow> bool) \<Rightarrow> ('row \<Rightarrow> 'row) \<Rightarrow> 'row list \<Rightarrow> 'row list option"

record gorm =
  gm_accounts :: "pg_account table"
  gm_setupKeys :: "pg_setupKey table"
  gm_peers :: "pg_peer table"
  gm_groups :: "pg_group table"
  gm_rules :: "pg_rule table"

record pg_store =
  db_accounts :: "pg_account list"
  db_setupKeys :: "pg_setupKey list"
  db_peers :: "pg_peer list"
  db_groups :: "pg_group list"
  db_rules :: "pg_rule list"

abbreviation stored :: "'a option \<Rightarrow> ('a \<Rightarrow> 'b) \<Rightarrow> 'b res" where
  "stored r f \<equiv> (case r of None \<Rightarrow> Inl StoreFailure | Some x \<Rightarrow> Inr (f x))"

text \<open>A delete by identifier and account, which fails when no row was affected.\<close>

abbreviation deleted :: "store_error \<Rightarrow> ('row list \<times> nat) option \<Rightarrow> ('row list \<Rightarrow> 'st) \<Rightarrow> 'st res" where
  "deleted err r f \<equiv> (case r of None \<Rightarrow> Inl StoreFailure | Some (rows, n) \<Rightarrow> if n = 0 then Inl err else Inr (f rows))"


section \<open>The store\<close>

definition pg_GetOrCreateAccount :: "gorm \<Rightarrow> gtime \<Rightarrow> string \<Rightarrow> pg_store \<Rightarrow> (Account \<times> pg_store) res" where
  "pg_GetOrCreateAccount g now i s =
     stored (tb_FirstOrCreate (gm_accounts g)
               (\<lambda>a. (i \<noteq> [] \<longrightarrow> pa_ID a = i \<and> pa_Name a = i) \<and> pa_CreatedAt a = now)
               \<lparr>pa_ID = i, pa_Name = i, pa_CreatedAt = now\<rparr> (db_accounts s))
       (\<lambda>(a, rows). (\<lparr>acc_ID = pa_ID a, acc_Name = pa_Name a, acc_CreatedAt = pa_CreatedAt a\<rparr>, s\<lparr>db_accounts := rows\<rparr>))"

definition pg_GetSetupKey :: "gorm \<Rightarrow> gtime \<Rightarrow> string \<Rightarrow> pg_store \<Rightarrow> SetupKey res" where
  "pg_GetSetupKey g now key s =
     (case tb_First (gm_setupKeys g) (\<lambda>sk. ps_Key sk = key) (db_setupKeys s) of
        None \<Rightarrow> Inl SetupKeyNotFound
      | Some sk \<Rightarrow> if ps_ExpiresAt sk < now then Inl SetupKeyExpired else Inr (toDomainSetupKey sk))"

definition pg_CreateSetupKey :: "gorm \<Rightarrow> SetupKey \<Rightarrow> pg_store \<Rightarrow> pg_store res" where
  "pg_CreateSetupKey g dk s =
     stored (tb_Create (gm_setupKeys g) (setupKey_row dk) (db_setupKeys s)) (\<lambda>rows. s\<lparr>db_setupKeys := rows\<rparr>)"

definition pg_GetSetupKeysByAccount :: "gorm \<Rightarrow> string \<Rightarrow> pg_store \<Rightarrow> SetupKey list res" where
  "pg_GetSetupKeysByAccount g accountID s =
     stored (tb_Find (gm_setupKeys g) (\<lambda>r. ps_AccountID r = accountID) (db_setupKeys s)) (map toDomainSetupKey)"

definition pg_DeleteSetupKey :: "gorm \<Rightarrow> string \<Rightarrow> string \<Rightarrow> pg_store \<Rightarrow> pg_store res" where
  "pg_DeleteSetupKey g accountID i s =
     deleted SetupKeyNotFound (tb_Delete (gm_setupKeys g) (\<lambda>r. ps_ID r = i \<and> ps_AccountID r = accountID) (db_setupKeys s))
       (\<lambda>rows. s\<lparr>db_setupKeys := rows\<rparr>)"

definition pg_IncrementSetupKeyUsage :: "gorm \<Rightarrow> string \<Rightarrow> pg_store \<Rightarrow> pg_store res" where
  "pg_IncrementSetupKeyUsage g keyID s =
     stored (tb_Update (gm_setupKeys g) (\<lambda>r. ps_ID r = keyID) (\<lambda>r. r\<lparr>ps_UsedCount := ps_UsedCount r + 1\<rparr>) (db_setupKeys s))
       (\<lambda>rows. s\<lparr>db_setupKeys := rows\<rparr>)"

definition pg_GetGroupsByAccount :: "gorm \<Rightarrow> string \<Rightarrow> pg_store \<Rightarrow> Group list res" where
  "pg_GetGroupsByAccount g accountID s =
     stored (tb_FindBy (gm_groups g) pgr_CreatedAt (\<lambda>r. pgr_AccountID r = accountID) (db_groups s))
       (map (\<lambda>r. \<lparr>g_ID = pgr_ID r, g_AccountID = pgr_AccountID r, g_Name = pgr_Name r, g_CreatedAt = pgr_CreatedAt r\<rparr>))"

definition pg_CreateGroup :: "gorm \<Rightarrow> Group \<Rightarrow> pg_store \<Rightarrow> pg_store res" where
  "pg_CreateGroup g dg s =
     stored (tb_Create (gm_groups g)
               \<lparr>pgr_ID = g_ID dg, pgr_AccountID = g_AccountID dg, pgr_Name = g_Name dg, pgr_CreatedAt = g_CreatedAt dg\<rparr> (db_groups s))
       (\<lambda>rows. s\<lparr>db_groups := rows\<rparr>)"

definition pg_DeleteGroup :: "gorm \<Rightarrow> string \<Rightarrow> string \<Rightarrow> pg_store \<Rightarrow> pg_store res" where
  "pg_DeleteGroup g accountID i s =
     deleted GroupNotFound (tb_Delete (gm_groups g) (\<lambda>r. pgr_ID r = i \<and> pgr_AccountID r = accountID) (db_groups s))
       (\<lambda>rows. s\<lparr>db_groups := rows\<rparr>)"

definition pg_GetPeer :: "gorm \<Rightarrow> string \<Rightarrow> pg_store \<Rightarrow> Peer res" where
  "pg_GetPeer g wgPubKey s =
     (case tb_First (gm_peers g) (\<lambda>p. pp_WGPubKey p = wgPubKey) (db_peers s) of
        None \<Rightarrow> Inl PeerNotFound | Some p \<Rightarrow> Inr (toDomainPeer p))"

definition pg_GetPeersByAccount :: "gorm \<Rightarrow> string \<Rightarrow> pg_store \<Rightarrow> Peer list res" where
  "pg_GetPeersByAccount g accountID s =
     stored (tb_Find (gm_peers g) (\<lambda>p. pp_AccountID p = accountID) (db_peers s)) (map toDomainPeer)"

definition pg_GetAllPeers :: "gorm \<Rightarrow> pg_store \<Rightarrow> Peer list res" where
  "pg_GetAllPeers g s = stored (tb_Find (gm_peers g) (\<lambda>_. True) (db_peers s)) (map toDomainPeer)"

definition pg_SavePeer :: "gorm \<Rightarrow> Peer \<Rightarrow> pg_store \<Rightarrow> pg_store res" where
  "pg_SavePeer g dp s = stored (tb_Save (gm_peers g) (peer_row dp) (db_peers s)) (\<lambda>rows. s\<lparr>db_peers := rows\<rparr>)"

definition pg_DeletePeer :: "gorm \<Rightarrow> string \<Rightarrow> pg_store \<Rightarrow> pg_store res" where
  "pg_DeletePeer g wgPubKey s =
     stored (tb_Delete (gm_peers g) (\<lambda>p. pp_WGPubKey p = wgPubKey) (db_peers s)) (\<lambda>(rows, _). s\<lparr>db_peers := rows\<rparr>)"

definition pg_GetRulesByAccount :: "gorm \<Rightarrow> string \<Rightarrow> pg_store \<Rightarrow> Rule list res" where
  "pg_GetRulesByAccount g accountID s =
     stored (tb_FindBy (gm_rules g) pr_Priority (\<lambda>r. pr_AccountID r = accountID) (db_rules s)) (map toDomainRule)"

definition pg_SaveRule :: "gorm \<Rightarrow> Rule \<Rightarrow> pg_store \<Rightarrow> pg_store res" where
  "pg_SaveRule g dr s = stored (tb_Save (gm_rules g) (rule_row dr) (db_rules s)) (\<lambda>rows. s\<lparr>db_rules := rows\<rparr>)"

definition pg_DeleteRule :: "gorm \<Rightarrow> string \<Rightarrow> string \<Rightarrow> pg_store \<Rightarrow> pg_store res" where
  "pg_DeleteRule g accountID i s =
     deleted RuleNotFound (tb_Delete (gm_rules g) (\<lambda>r. pr_ID r = i \<and> pr_AccountID r = accountID) (db_rules s))
       (\<lambda>rows. s\<lparr>db_rules := rows\<rparr>)"

text \<open>A peer that was returned is a copy: assignments to it do not reach the store.\<close>

definition pg_ops :: "gorm \<Rightarrow> pg_store Store" where
  "pg_ops g =
     \<lparr>GetOrCreateAccount = pg_GetOrCreateAccount g, GetSetupKey = pg_GetSetupKey g,
      GetSetupKeysByAccount = pg_GetSetupKeysByAccount g, CreateSetupKey = pg_CreateSetupKey g,
      DeleteSetupKey = pg_DeleteSetupKey g, IncrementSetupKeyUsage = pg_IncrementSetupKeyUsage g,
      GetGroupsByAccount = pg_GetGroupsByAccount g, CreateGroup = pg_CreateGroup g,
      DeleteGroup = pg_DeleteGroup g, GetPeer = pg_GetPeer g, AssignPeer = (\<lambda>_ _ s. s),
      DerefPeer = (\<lambda>_ p _. p),
      GetPeersByAccount = pg_GetPeersByAccount g, GetAllPeers = pg_GetAllPeers g,
      SavePeer = pg_SavePeer g, DeletePeer = pg_DeletePeer g,
      GetRulesByAccount = pg_GetRulesByAccount g, SaveRule = pg_SaveRule g, DeleteRule = pg_DeleteRule g\<rparr>"

text \<open>The part of \<^verbatim>\<open>New\<close> behind the schema: every peer without the group Default gets it.\<close>

definition backfill_one :: "gorm \<Rightarrow> pg_peer \<Rightarrow> pg_peer list option \<Rightarrow> pg_peer list option" where
  "backfill_one g p rows =
     (case rows of
        None \<Rightarrow> None
      | Some rs \<Rightarrow>
          if list_ex (\<lambda>gr. gr = DefaultGroupName) (splitIPs (pp_Groups p)) then Some rs
          else tb_Update (gm_peers g) (\<lambda>r. pp_ID r = pp_ID p)
                 (\<lambda>r. r\<lparr>pp_Groups := joinIPs (DefaultGroupName # splitIPs (pp_Groups p))\<rparr>) rs)"

definition pg_New :: "gorm \<Rightarrow> pg_store \<Rightarrow> pg_store option" where
  "pg_New g s =
     (case tb_Find (gm_peers g) (\<lambda>_. True) (db_peers s) of
        None \<Rightarrow> None
      | Some allPeers \<Rightarrow>
          map_option (\<lambda>rows. s\<lparr>db_peers := rows\<rparr>) (fold (backfill_one g) allPeers (Some (db_peers s))))"

definition Seed :: "gorm \<Rightarrow> gtime \<Rightarrow> string \<Rightarrow> string \<Rightarrow> pg_store \<Rightarrow> pg_store option" where
  "Seed g now accountID key s =
     (case tb_FirstOrCreate (gm_accounts g) (\<lambda>a. accountID \<noteq> [] \<longrightarrow> pa_ID a = accountID)
             \<lparr>pa_ID = accountID, pa_Name = ''Default'', pa_CreatedAt = now\<rparr> (db_accounts s) of
        None \<Rightarrow> None
      | Some (_, accounts) \<Rightarrow>
     (case tb_FirstOrCreate (gm_setupKeys g) (\<lambda>k. key \<noteq> [] \<longrightarrow> ps_Key k = key)
             \<lparr>ps_ID = ''default-key'', ps_AccountID = accountID, ps_Key = key, ps_Name = ''Default key'', ps_Ephemeral = False,
              ps_UsedCount = 0, ps_AutoGroups = [], ps_ExpiresAt = now + 365 * 24 * hour, ps_CreatedAt = now\<rparr> (db_setupKeys s) of
        None \<Rightarrow> None
      | Some (_, setupKeys) \<Rightarrow>
     (case tb_FirstOrCreate (gm_groups g)
             (\<lambda>gr. (accountID \<noteq> [] \<longrightarrow> pgr_AccountID gr = accountID) \<and> pgr_Name gr = DefaultGroupName)
             \<lparr>pgr_ID = accountID @ ''-default'', pgr_AccountID = accountID, pgr_Name = DefaultGroupName, pgr_CreatedAt = now\<rparr> (db_groups s) of
        None \<Rightarrow> None
      | Some (_, groups) \<Rightarrow>
     (case tb_FirstOrCreate (gm_rules g)
             (\<lambda>r. (accountID \<noteq> [] \<longrightarrow> pr_AccountID r = accountID) \<and> pr_Name r = ''Default allow'')
             (rule_row (default_rule now accountID)) (db_rules s) of
        None \<Rightarrow> None
      | Some (_, rules) \<Rightarrow>
          Some (s\<lparr>db_accounts := accounts, db_setupKeys := setupKeys, db_groups := groups, db_rules := rules\<rparr>)))))"

lemmas pg_defs =
  joinIPs_def splitIPs_def toDomainSetupKey_def toDomainPeer_def toDomainRule_def peer_row_def rule_row_def setupKey_row_def
  pg_GetOrCreateAccount_def pg_GetSetupKey_def pg_CreateSetupKey_def pg_GetSetupKeysByAccount_def pg_DeleteSetupKey_def
  pg_IncrementSetupKeyUsage_def pg_GetGroupsByAccount_def pg_CreateGroup_def pg_DeleteGroup_def pg_GetPeer_def
  pg_GetPeersByAccount_def pg_GetAllPeers_def pg_SavePeer_def pg_DeletePeer_def pg_GetRulesByAccount_def pg_SaveRule_def
  pg_DeleteRule_def backfill_one_def pg_New_def Seed_def

declare pg_defs [go_eval] pg_ops_def [go_eval] split_loop.simps [go_eval]

section \<open>Laws of the library\<close>

definition table_ok :: "('row \<Rightarrow> string) \<Rightarrow> ('row \<Rightarrow> string) \<Rightarrow> 'row list \<Rightarrow> bool" where
  "table_ok pk uniq rows \<longleftrightarrow> distinct (map pk rows) \<and> distinct (map uniq rows)"

definition table_laws :: "('row \<Rightarrow> string) \<Rightarrow> ('row \<Rightarrow> string) \<Rightarrow> 'row table \<Rightarrow> bool" where
  "table_laws pk uniq t \<longleftrightarrow>
     (\<forall>P rows. tb_First t P rows = None \<longleftrightarrow> filter P rows = [])
     \<and> (\<forall>P rows r. tb_First t P rows = Some r \<longrightarrow> r \<in> set rows \<and> P r)
     \<and> (\<forall>P rows rs. tb_Find t P rows = Some rs \<longrightarrow> mset rs = mset (filter P rows))
     \<and> (\<forall>key P rows rs. tb_FindBy t key P rows = Some rs \<longrightarrow> mset rs = mset (filter P rows) \<and> sorted (map key rs))
     \<and> (\<forall>P r rows. tb_FirstOrCreate t P r rows =
          (case tb_First t P rows of Some q \<Rightarrow> Some (q, rows) | None \<Rightarrow> map_option (Pair r) (tb_Create t r rows)))
     \<and> (\<forall>r rows rows'. table_ok pk uniq rows \<longrightarrow> tb_Create t r rows = Some rows' \<longrightarrow>
          mset rows' = add_mset r (mset rows) \<and> table_ok pk uniq rows')
     \<and> (\<forall>r rows rows'. table_ok pk uniq rows \<longrightarrow> tb_Save t r rows = Some rows' \<longrightarrow>
          mset rows' = add_mset r (mset (filter (\<lambda>q. pk q \<noteq> pk r) rows)) \<and> table_ok pk uniq rows')
     \<and> (\<forall>P rows rows' n. tb_Delete t P rows = Some (rows', n) \<longrightarrow>
          mset rows' = mset (filter (\<lambda>r. \<not> P r) rows) \<and> n = length (filter P rows))
     \<and> (\<forall>P f rows rows'. table_ok pk uniq rows \<longrightarrow> tb_Update t P f rows = Some rows' \<longrightarrow>
          mset rows' = mset (map (\<lambda>r. if P r then f r else r) rows) \<and> table_ok pk uniq rows')"

definition gorm_laws :: "gorm \<Rightarrow> bool" where
  "gorm_laws g \<longleftrightarrow> table_laws pa_ID pa_ID (gm_accounts g) \<and> table_laws ps_ID ps_Key (gm_setupKeys g)
     \<and> table_laws pp_ID pp_WGPubKey (gm_peers g) \<and> table_laws pgr_ID pgr_ID (gm_groups g)
     \<and> table_laws pr_ID pr_ID (gm_rules g)"

lemma table_lawsD:
  assumes "table_laws pk uniq t"
  shows First_None: "tb_First t P rows = None \<longleftrightarrow> filter P rows = []"
    and First_Some: "tb_First t P rows = Some r \<Longrightarrow> r \<in> set rows \<and> P r"
    and Find_rows: "tb_Find t P rows = Some rs \<Longrightarrow> mset rs = mset (filter P rows)"
    and FindBy_rows: "tb_FindBy t key P rows = Some rs \<Longrightarrow> mset rs = mset (filter P rows) \<and> sorted (map key rs)"
    and FirstOrCreate_rows: "tb_FirstOrCreate t P r rows =
          (case tb_First t P rows of Some q \<Rightarrow> Some (q, rows) | None \<Rightarrow> map_option (Pair r) (tb_Create t r rows))"
    and Create_rows: "table_ok pk uniq rows \<Longrightarrow> tb_Create t r rows = Some rows' \<Longrightarrow>
          mset rows' = add_mset r (mset rows) \<and> table_ok pk uniq rows'"
    and Save_rows: "table_ok pk uniq rows \<Longrightarrow> tb_Save t r rows = Some rows' \<Longrightarrow>
          mset rows' = add_mset r (mset (filter (\<lambda>q. pk q \<noteq> pk r) rows)) \<and> table_ok pk uniq rows'"
    and Delete_rows: "tb_Delete t P rows = Some (rows', n) \<Longrightarrow>
          mset rows' = mset (filter (\<lambda>r. \<not> P r) rows) \<and> n = length (filter P rows)"
    and Update_rows: "table_ok pk uniq rows \<Longrightarrow> tb_Update t P f rows = Some rows' \<Longrightarrow>
          mset rows' = mset (map (\<lambda>r. if P r then f r else r) rows) \<and> table_ok pk uniq rows'"
  using assms unfolding table_laws_def by meson+

text \<open>With a unique column a look-up by that column finds the one row that has the value.\<close>

lemma First_unique:
  assumes "table_laws pk uniq t" "table_ok pk uniq rows"
  shows "tb_First t (\<lambda>r. uniq r = k) rows = Some r \<longleftrightarrow> r \<in> set rows \<and> uniq r = k"
proof
  assume r: "r \<in> set rows \<and> uniq r = k"
  then have "tb_First t (\<lambda>r. uniq r = k) rows \<noteq> None"
    unfolding First_None [OF assms(1)] by (auto simp: filter_empty_conv)
  then obtain q where q: "tb_First t (\<lambda>r. uniq r = k) rows = Some q" by blast
  have "q = r" using First_Some [OF assms(1) q] r assms(2) by (auto simp: table_ok_def distinct_map dest: inj_onD)
  with q show "tb_First t (\<lambda>r. uniq r = k) rows = Some r" by simp
qed (rule First_Some [OF assms(1)])

lemma table_ok_filter:
  assumes "table_ok pk uniq rows" "mset rows' = mset (filter P rows)"
  shows "table_ok pk uniq rows'"
proof -
  have "distinct (map f rows')" if "distinct (map f rows)" for f :: "_ \<Rightarrow> string"
  proof -
    have "mset (map f rows') = mset (map f (filter P rows))" using assms(2) by simp
    then show ?thesis using distinct_map_filter [OF that, of P] mset_eq_imp_distinct_iff by blast
  qed
  then show ?thesis using assms(1) unfolding table_ok_def by blast
qed


section \<open>Lists in a column come back\<close>

definition plain :: "string list \<Rightarrow> bool" where
  "plain xs \<longleftrightarrow> (\<forall>x \<in> set xs. x \<noteq> [] \<and> CHR '','' \<notin> set x)"

lemma joinIPs_Cons: "joinIPs (x # xs) = x @ concat (map (\<lambda>y. CHR '','' # y) xs)"
proof -
  have "fold (\<lambda>(i, ip) out. (if i > 0 then out @ '','' else out) @ ip) (enumerate (Suc n) xs) out =
      out @ concat (map (\<lambda>y. CHR '','' # y) xs)" for n out
    by (induction xs arbitrary: n out) simp_all
  then show ?thesis by (simp add: joinIPs_def)
qed

lemma split_loop_plain: "CHR '','' \<notin> set x \<Longrightarrow> split_loop cur (x @ s) = split_loop (cur @ x) s"
  by (induction x arbitrary: cur) auto

lemma splitIPs_joinIPs:
  assumes "plain xs"
  shows "splitIPs (joinIPs xs) = xs"
proof (cases xs)
  case Nil
  then show ?thesis by (simp add: joinIPs_def splitIPs_def)
next
  case (Cons x ys)
  have "split_loop y (concat (map (\<lambda>y. CHR '','' # y) ys)) = y # ys" if "y \<noteq> []" "plain ys" for y
    using that by (induction ys arbitrary: y) (simp_all add: plain_def split_loop_plain)
  then show ?thesis using assms by (simp add: Cons plain_def splitIPs_def joinIPs_Cons split_loop_plain)
qed

lemma split_loop_members: "x \<in> set (split_loop cur s) \<Longrightarrow> CHR '','' \<notin> set cur \<Longrightarrow> x \<noteq> [] \<and> CHR '','' \<notin> set x"
  by (induction cur s rule: split_loop.induct) (auto split: if_splits)

lemma plain_splitIPs: "plain (splitIPs s)"
  using split_loop_members [of _ "[]" s] by (auto simp: plain_def splitIPs_def)

section \<open>The contract of the store\<close>

definition pg_inv :: "pg_store \<Rightarrow> bool" where
  "pg_inv s \<longleftrightarrow> table_ok pp_ID pp_WGPubKey (db_peers s)"

text \<open>What a column can hold: no entry is empty or has a comma in it, and nothing is kept of \<^verbatim>\<open>Connected\<close>.\<close>

definition plain_peer :: "Peer \<Rightarrow> bool" where
  "plain_peer p \<longleftrightarrow> \<not> p_Connected p \<and> plain (p_Groups p) \<and> plain (p_AllowedIPs p) \<and> plain (p_AdvertisedRoutes p)"

definition pg_apart :: "Peer \<Rightarrow> pg_store \<Rightarrow> bool" where
  "pg_apart p s \<longleftrightarrow> (\<forall>r \<in> set (db_peers s). pp_ID r = p_ID p \<longrightarrow> pp_WGPubKey r = p_WGPubKey p)"

lemma toDomainPeer_sel [simp]:
  "p_WGPubKey (toDomainPeer r) = pp_WGPubKey r" "p_AccountID (toDomainPeer r) = pp_AccountID r" "p_ID (toDomainPeer r) = pp_ID r"
  "p_Groups (toDomainPeer r) = splitIPs (pp_Groups r)"
  by (simp_all add: toDomainPeer_def)

lemma peer_row_sel [simp]: "pp_ID (peer_row p) = p_ID p" "pp_WGPubKey (peer_row p) = p_WGPubKey p"
  by (simp_all add: peer_row_def)

lemma peer_round_trip: "plain_peer p \<Longrightarrow> toDomainPeer (peer_row p) = p"
  by (simp add: toDomainPeer_def peer_row_def plain_peer_def splitIPs_joinIPs)

lemma peers_laws: "gorm_laws g \<Longrightarrow> table_laws pp_ID pp_WGPubKey (gm_peers g)"
  by (simp add: gorm_laws_def)

lemma pg_GetPeer_Inr:
  assumes "gorm_laws g" "pg_inv s"
  shows "pg_GetPeer g k s = Inr p \<longleftrightarrow> (\<exists>r \<in> set (db_peers s). pp_WGPubKey r = k \<and> p = toDomainPeer r)"
proof -
  have "pg_GetPeer g k s = Inr p \<longleftrightarrow> (\<exists>r. tb_First (gm_peers g) (\<lambda>p. pp_WGPubKey p = k) (db_peers s) = Some r \<and> p = toDomainPeer r)"
    by (auto simp: pg_GetPeer_def split: option.splits)
  then show ?thesis
    using First_unique [OF peers_laws [OF assms(1)], of "db_peers s" k] assms(2) by (simp add: pg_inv_def Bex_def)
qed

lemma pg_GetPeer_Inl: "pg_GetPeer g k s = Inl e \<Longrightarrow> e = PeerNotFound"
  by (simp add: pg_GetPeer_def split: option.splits)

lemma pg_GetPeer_cong:
  assumes "gorm_laws g" "pg_inv s" "pg_inv s'"
    "\<And>r. pp_WGPubKey r = k \<Longrightarrow> r \<in> set (db_peers s') \<longleftrightarrow> r \<in> set (db_peers s)"
  shows "pg_GetPeer g k s' = pg_GetPeer g k s"
proof -
  have "pg_GetPeer g k s' = Inr p \<longleftrightarrow> pg_GetPeer g k s = Inr p" for p
    unfolding pg_GetPeer_Inr [OF assms(1,2)] pg_GetPeer_Inr [OF assms(1,3)] using assms(4) by blast
  then show ?thesis using pg_GetPeer_Inl [of g k] by (cases "pg_GetPeer g k s"; cases "pg_GetPeer g k s'") auto
qed

lemma pg_SavePeer_rows:
  assumes "gorm_laws g" "pg_inv s" "pg_SavePeer g p s = Inr s'"
  shows "set (db_peers s') = insert (peer_row p) {q \<in> set (db_peers s). pp_ID q \<noteq> p_ID p} \<and> pg_inv s'"
proof -
  obtain rows where r: "tb_Save (gm_peers g) (peer_row p) (db_peers s) = Some rows" "s' = s\<lparr>db_peers := rows\<rparr>"
    using assms(3) by (auto simp: pg_SavePeer_def split: option.splits)
  have m: "mset rows = add_mset (peer_row p) (mset (filter (\<lambda>q. pp_ID q \<noteq> p_ID p) (db_peers s)))"
    "table_ok pp_ID pp_WGPubKey rows"
    using Save_rows [OF peers_laws [OF assms(1)] _ r(1)] assms(2) by (simp_all add: pg_inv_def)
  have "set rows = insert (peer_row p) {q \<in> set (db_peers s). pp_ID q \<noteq> p_ID p}"
    using arg_cong [OF m(1), of set_mset] by simp
  then show ?thesis using m(2) by (simp add: r(2) pg_inv_def)
qed

lemma pg_DeletePeer_rows:
  assumes "gorm_laws g" "pg_inv s" "pg_DeletePeer g k s = Inr s'"
  shows "set (db_peers s') = {q \<in> set (db_peers s). pp_WGPubKey q \<noteq> k} \<and> pg_inv s'"
proof -
  obtain rows n where r: "tb_Delete (gm_peers g) (\<lambda>p. pp_WGPubKey p = k) (db_peers s) = Some (rows, n)" "s' = s\<lparr>db_peers := rows\<rparr>"
    using assms(3) by (auto simp: pg_DeletePeer_def split: option.splits)
  have m: "mset rows = mset (filter (\<lambda>p. pp_WGPubKey p \<noteq> k) (db_peers s))"
    using Delete_rows [OF peers_laws [OF assms(1)] r(1)] by simp
  have "set rows = {q \<in> set (db_peers s). pp_WGPubKey q \<noteq> k}" using mset_eq_setD [OF m] by simp
  moreover have "table_ok pp_ID pp_WGPubKey rows" using table_ok_filter [OF _ m] assms(2) by (simp add: pg_inv_def)
  ultimately show ?thesis by (simp add: r(2) pg_inv_def)
qed

lemma pg_contract:
  assumes g: "gorm_laws g"
  shows "store_laws (pg_ops g) pg_inv plain_peer pg_apart"
proof (unfold_locales, goal_cases)
  case (1 st k p)
  then show ?case using pg_GetPeer_Inr [OF g, of st k p] by (auto simp: pg_ops_def)
next
  case (2 st a ps p)
  then obtain rs where rs: "tb_Find (gm_peers g) (\<lambda>p. pp_AccountID p = a) (db_peers st) = Some rs" "ps = map toDomainPeer rs"
    by (auto simp: pg_ops_def pg_GetPeersByAccount_def split: option.splits)
  have "set rs = {r \<in> set (db_peers st). pp_AccountID r = a}"
    using mset_eq_setD [OF Find_rows [OF peers_laws [OF g] rs(1)]] by simp
  then show ?case using pg_GetPeer_Inr [OF g 2(1)] by (auto simp: rs(2) pg_ops_def)
next
  case (3 st a ps)
  then obtain rs where rs: "tb_Find (gm_peers g) (\<lambda>p. pp_AccountID p = a) (db_peers st) = Some rs" "ps = map toDomainPeer rs"
    by (auto simp: pg_ops_def pg_GetPeersByAccount_def split: option.splits)
  have "table_ok pp_ID pp_WGPubKey rs"
    using table_ok_filter [OF _ Find_rows [OF peers_laws [OF g] rs(1)]] 3(1) by (simp add: pg_inv_def)
  then show ?case by (simp add: rs(2) table_ok_def comp_def)
next
  case (4 st p st')
  have "pg_SavePeer g p st = Inr st'" using 4(3) by (simp add: pg_ops_def)
  from pg_SavePeer_rows [OF g 4(1) this] have i: "pg_inv st'" and r: "peer_row p \<in> set (db_peers st')" by auto
  have "pg_GetPeer g (p_WGPubKey p) st' = Inr p"
    unfolding pg_GetPeer_Inr [OF g i] by (rule bexI [OF _ r]) (simp add: peer_round_trip [OF 4(2)])
  then show ?case by (simp add: pg_ops_def)
next
  case (5 st p st' k)
  have "pg_SavePeer g p st = Inr st'" using 5(3) by (simp add: pg_ops_def)
  from pg_SavePeer_rows [OF g 5(1) this] have i: "pg_inv st'"
    and r: "set (db_peers st') = insert (peer_row p) {q \<in> set (db_peers st). pp_ID q \<noteq> p_ID p}" by auto
  have "pg_GetPeer g k st' = pg_GetPeer g k st"
  proof (rule pg_GetPeer_cong [OF g 5(1) i])
    fix r :: pg_peer assume k: "pp_WGPubKey r = k"
    then have "r \<noteq> peer_row p" using 5(4) by auto
    moreover have "pp_ID r \<noteq> p_ID p" if "r \<in> set (db_peers st)"
      using 5(2,4) that k by (auto simp: pg_apart_def)
    ultimately show "r \<in> set (db_peers st') \<longleftrightarrow> r \<in> set (db_peers st)" unfolding r by blast
  qed
  then show ?case by (simp add: pg_ops_def)
next
  case (6 st k st' k')
  have r: "set (db_peers st') = {q \<in> set (db_peers st). pp_WGPubKey q \<noteq> k} \<and> pg_inv st'"
    using pg_DeletePeer_rows [OF g 6(1)] 6(2) by (simp add: pg_ops_def)
  show ?case
  proof (cases "k' = k")
    case True
    have "pg_GetPeer g k st' \<noteq> Inr p" for p using pg_GetPeer_Inr [OF g, of st' k p] r by auto
    then have "pg_GetPeer g k st' = Inl PeerNotFound" using pg_GetPeer_Inl [of g k st'] by (cases "pg_GetPeer g k st'") auto
    then show ?thesis by (simp add: True pg_ops_def)
  next
    case False
    then show ?thesis using pg_GetPeer_cong [OF g 6(1), of st' k'] r by (auto simp: pg_ops_def)
  qed
next
  case (10 a st rs r)
  then obtain xs where xs: "tb_FindBy (gm_rules g) pr_Priority (\<lambda>r. pr_AccountID r = a) (db_rules st) = Some xs" "rs = map toDomainRule xs"
    by (auto simp: pg_ops_def pg_GetRulesByAccount_def split: option.splits)
  have "set xs = {r \<in> set (db_rules st). pr_AccountID r = a}"
    using mset_eq_setD [OF conjunct1 [OF FindBy_rows [OF _ xs(1), of pr_ID pr_ID]]] g by (simp add: gorm_laws_def)
  then show ?case using 10(2) by (auto simp: xs(2) toDomainRule_def)
next
  case (11 i st st' k)
  then show ?case by (auto simp: pg_ops_def pg_IncrementSetupKeyUsage_def pg_GetPeer_def split: option.splits)
next
  case (12 st p st')
  then show ?case using pg_SavePeer_rows [OF g, of st p st'] by (simp add: pg_ops_def)
next
  case (13 st k st')
  then show ?case using pg_DeletePeer_rows [OF g, of st k st'] by (simp add: pg_ops_def)
next
  case (14 st i st')
  then show ?case by (auto simp: pg_ops_def pg_IncrementSetupKeyUsage_def pg_inv_def split: option.splits)
qed (simp_all add: pg_ops_def)

section \<open>A library with these laws\<close>

definition ref_table :: "('row \<Rightarrow> string) \<Rightarrow> ('row \<Rightarrow> string) \<Rightarrow> 'row table" where
  "ref_table pk uniq =
     (let create = (\<lambda>r rows. if table_ok pk uniq (rows @ [r]) then Some (rows @ [r]) else None) in
      \<lparr>tb_First = find,
       tb_Find = (\<lambda>P rows. Some (filter P rows)),
       tb_FindBy = (\<lambda>key P rows. Some (sort_key key (filter P rows))),
       tb_FirstOrCreate = (\<lambda>P r rows. case find P rows of Some q \<Rightarrow> Some (q, rows) | None \<Rightarrow> map_option (Pair r) (create r rows)),
       tb_Create = create,
       tb_Save = (\<lambda>r rows. create r (filter (\<lambda>q. pk q \<noteq> pk r) rows)),
       tb_Delete = (\<lambda>P rows. Some (filter (\<lambda>r. \<not> P r) rows, length (filter P rows))),
       tb_Update = (\<lambda>P f rows. let rows' = map (\<lambda>r. if P r then f r else r) rows
                              in if table_ok pk uniq rows' then Some rows' else None)\<rparr>)"

definition ref_gorm :: gorm where
  "ref_gorm = \<lparr>gm_accounts = ref_table pa_ID pa_ID, gm_setupKeys = ref_table ps_ID ps_Key,
     gm_peers = ref_table pp_ID pp_WGPubKey, gm_groups = ref_table pgr_ID pgr_ID, gm_rules = ref_table pr_ID pr_ID\<rparr>"

lemma ref_table_laws: "table_laws pk uniq (ref_table pk uniq)"
proof -
  have f: "find P xs = Some r \<Longrightarrow> r \<in> set xs \<and> P r" for P :: "'a \<Rightarrow> bool" and xs r
    by (induction xs) (auto split: if_splits)
  show ?thesis
    unfolding table_laws_def
    by (intro conjI allI impI)
      (auto simp: ref_table_def Let_def find_None_iff filter_empty_conv split: if_splits option.splits dest: f)
qed

lemma ref_gorm_laws: "gorm_laws ref_gorm"
  by (simp add: gorm_laws_def ref_gorm_def ref_table_laws)

text \<open>The contract holds for the store on this library, and with it what the services prove from it.\<close>

interpretation pg: store_laws "pg_ops ref_gorm" pg_inv plain_peer pg_apart
  by (rule pg_contract [OF ref_gorm_laws])


section \<open>Start\<close>

definition with_default :: "pg_peer \<Rightarrow> pg_peer" where
  "with_default r = (if DefaultGroupName \<in> set (splitIPs (pp_Groups r)) then r
     else r\<lparr>pp_Groups := joinIPs (DefaultGroupName # splitIPs (pp_Groups r))\<rparr>)"

lemma with_default_sel [simp]: "pp_ID (with_default r) = pp_ID r" "pp_WGPubKey (with_default r) = pp_WGPubKey r"
  by (simp_all add: with_default_def)

lemma plain_default: "plain (DefaultGroupName # splitIPs s)"
  using plain_splitIPs [of s] by (simp add: plain_def DefaultGroupName_def)

lemma with_default_domain:
  "toDomainPeer (with_default r) = (toDomainPeer r)\<lparr>p_Groups :=
     (if DefaultGroupName \<in> set (p_Groups (toDomainPeer r)) then p_Groups (toDomainPeer r)
      else DefaultGroupName # p_Groups (toDomainPeer r))\<rparr>"
  by (simp add: with_default_def toDomainPeer_def splitIPs_joinIPs [OF plain_default])

lemma backfill_rows:
  assumes "table_laws pp_ID pp_WGPubKey (gm_peers g)" "table_ok pp_ID pp_WGPubKey rows"
    "fold (backfill_one g) xs (Some rows) = Some rows'" "distinct (map pp_ID xs)" "set xs \<subseteq> set rows"
  shows "mset rows' = mset (map (\<lambda>r. if r \<in> set xs then with_default r else r) rows) \<and> table_ok pp_ID pp_WGPubKey rows'"
  using assms(3-5)
proof (induction xs arbitrary: rows' rule: rev_induct)
  case Nil
  then show ?case using assms(2) by simp
next
  case (snoc p xs)
  let ?mid = "\<lambda>r. if r \<in> set xs then with_default r else r"
  obtain mid where mid: "fold (backfill_one g) xs (Some rows) = Some mid" "backfill_one g p (Some mid) = Some rows'"
    using snoc.prems(1)
  proof (cases "fold (backfill_one g) xs (Some rows)")
    case None
    then show ?thesis using snoc.prems(1) by (simp add: backfill_one_def [of g p None])
  qed simp
  have ih: "mset mid = mset (map ?mid rows)" "table_ok pp_ID pp_WGPubKey mid"
    using snoc.IH [OF mid(1)] snoc.prems(2,3) by auto
  have p: "p \<in> set rows" "p \<notin> set xs" "pp_ID p \<notin> pp_ID ` set xs" using snoc.prems(2,3) by auto
  have inj: "q = p" if "q \<in> set rows" "pp_ID q = pp_ID p" for q
    using that p(1) assms(2) by (auto simp: table_ok_def distinct_map dest: inj_onD)
  show ?case
  proof (cases "DefaultGroupName \<in> set (splitIPs (pp_Groups p))")
    case True
    then have "rows' = mid" using mid(2) by (simp add: backfill_one_def list_ex_iff)
    moreover have "map ?mid rows = map (\<lambda>r. if r \<in> set (xs @ [p]) then with_default r else r) rows"
      using True by (auto simp: with_default_def)
    ultimately show ?thesis using ih by metis
  next
    case False
    let ?f = "\<lambda>r. r\<lparr>pp_Groups := joinIPs (DefaultGroupName # splitIPs (pp_Groups p))\<rparr>"
    have u: "tb_Update (gm_peers g) (\<lambda>r. pp_ID r = pp_ID p) ?f mid = Some rows'"
      using mid(2) False by (simp add: backfill_one_def list_ex_iff)
    from Update_rows [OF assms(1) ih(2) u] have
      m: "mset rows' = mset (map (\<lambda>r. if pp_ID r = pp_ID p then ?f r else r) mid)" "table_ok pp_ID pp_WGPubKey rows'" by auto
    have "mset rows' = mset (map (\<lambda>r. if pp_ID r = pp_ID p then ?f r else r) (map ?mid rows))"
      using m(1) ih(1) by (simp only: mset_map)
    also have "map (\<lambda>r. if pp_ID r = pp_ID p then ?f r else r) (map ?mid rows) =
        map (\<lambda>r. if pp_ID (?mid r) = pp_ID p then ?f (?mid r) else ?mid r) rows" by simp
    also have "map (\<lambda>r. if pp_ID (?mid r) = pp_ID p then ?f (?mid r) else ?mid r) rows =
        map (\<lambda>r. if r \<in> set (xs @ [p]) then with_default r else r) rows"
    proof (rule map_cong [OF refl])
      fix r assume r: "r \<in> set rows"
      show "(if pp_ID (?mid r) = pp_ID p then ?f (?mid r) else ?mid r) = (if r \<in> set (xs @ [p]) then with_default r else r)"
      proof (cases "r = p")
        case True
        then show ?thesis using p(2) False by (simp add: with_default_def)
      next
        case False
        then have "pp_ID (?mid r) \<noteq> pp_ID p" using inj [OF r] by auto
        then show ?thesis using False by simp
      qed
    qed
    finally show ?thesis using m(2) by simp
  qed
qed

lemma pg_New_rows:
  assumes "gorm_laws g" "pg_inv s" "pg_New g s = Some s'"
  shows "mset (db_peers s') = mset (map with_default (db_peers s)) \<and> pg_inv s'"
proof -
  note l = peers_laws [OF assms(1)]
  obtain xs rows where x: "tb_Find (gm_peers g) (\<lambda>_. True) (db_peers s) = Some xs"
    "fold (backfill_one g) xs (Some (db_peers s)) = Some rows" "s' = s\<lparr>db_peers := rows\<rparr>"
    using assms(3) by (auto simp: pg_New_def split: option.splits)
  have ms: "mset xs = mset (db_peers s)" using Find_rows [OF l x(1)] by simp
  have ok: "table_ok pp_ID pp_WGPubKey (db_peers s)" using assms(2) by (simp add: pg_inv_def)
  have "mset (map pp_ID xs) = mset (map pp_ID (db_peers s))" using ms by (simp only: mset_map)
  then have "distinct (map pp_ID xs)" using ok mset_eq_imp_distinct_iff unfolding table_ok_def by blast
  from backfill_rows [OF l ok x(2) this] mset_eq_setD [OF ms]
  have m: "mset rows = mset (map (\<lambda>r. if r \<in> set xs then with_default r else r) (db_peers s))" "table_ok pp_ID pp_WGPubKey rows"
    by auto
  have "map (\<lambda>r. if r \<in> set xs then with_default r else r) (db_peers s) = map with_default (db_peers s)"
    using mset_eq_setD [OF ms] by simp
  then show ?thesis using m by (simp only: x(3) pg_inv_def) simp
qed

lemma Seed_peers: "Seed g now a key s = Some s' \<Longrightarrow> db_peers s' = db_peers s"
  by (auto simp: Seed_def split: option.splits)


section \<open>Properties\<close>

definition empty_pg :: pg_store where
  "empty_pg = \<lparr>db_accounts = [], db_setupKeys = [], db_peers = [], db_groups = [], db_rules = []\<rparr>"

definition example_row :: "string \<Rightarrow> pg_peer" where
  "example_row grs = peer_row (zero_Peer\<lparr>p_ID := ''id1'', p_WGPubKey := ''k1'', p_AccountID := ''other'', p_IP := ''100.64.0.1''\<rparr>)\<lparr>pp_Groups := grs\<rparr>"

text \<open>A database with one peer in the given groups and a setup key of another account.\<close>

definition example_pg :: "string \<Rightarrow> pg_store" where
  "example_pg grs = empty_pg\<lparr>db_peers := [example_row grs],
     db_setupKeys := [\<lparr>ps_ID = ''sk'', ps_AccountID = ''default'', ps_Key = ''seed'', ps_Name = [], ps_Ephemeral = False,
       ps_UsedCount = 0, ps_AutoGroups = [], ps_ExpiresAt = 1, ps_CreatedAt = 0\<rparr>]\<rparr>"



text \<open>C10. Enrolment takes over no peer in the persistent store either: whatever the outcome of a login, a
  peer with another public key is as it was, and so is the peer with the same key when the setup key
  belongs to another account, provided that the new identifier is not in use.\<close>

theorem pg_Login_no_takeover:
  assumes "gorm_laws g" "pg_inv (sv_store s)" "Login (pg_ops g) lib now u u8 addr req s = (r, s')"
    "GetPeer (pg_ops g) k (sv_store s) = Inr p"
    "k \<noteq> lr_WgPubKey req \<or>
      (\<forall>sk. GetSetupKey (pg_ops g) now (lr_SetupKey req) (sv_store s) = Inr sk \<longrightarrow> sk_AccountID sk \<noteq> p_AccountID p)"
    "u \<notin> pp_ID ` set (db_peers (sv_store s))"
  shows "GetPeer (pg_ops g) k (sv_store s') = Inr p"
proof (rule store_laws.Login_keeps_others [OF pg_contract [OF assms(1)] assms(2-5)])
  fix sk ip q
  let ?f = "login_peer now u u8 (sourceIP addr) req sk ip"
  assume q: "enrolled (pg_ops g) (sv_store s) ?f q"
  have u: "p_ID ?f = u" by (simp add: login_peer_def)
  show "pg_apart q (sv_store s)"
  proof (cases "GetPeer (pg_ops g) (p_WGPubKey ?f) (sv_store s)")
    case (Inl e)
    then have "p_ID q = u" using q u by (simp add: enrolled_def)
    then show ?thesis using assms(6) unfolding pg_apart_def by (metis imageI)
  next
    case (Inr old)
    then have i: "p_ID q = p_ID old" "p_WGPubKey q = p_WGPubKey ?f" using q by (auto simp: enrolled_def reenrol_def)
    obtain row where "row \<in> set (db_peers (sv_store s))" "pp_WGPubKey row = p_WGPubKey ?f" "old = toDomainPeer row"
      using Inr pg_GetPeer_Inr [OF assms(1,2)] by (auto simp: pg_ops_def)
    then show ?thesis
      using i assms(2) by (auto simp: pg_apart_def pg_inv_def table_ok_def distinct_map dest: inj_onD)
  qed
qed

theorem pg_Login_no_takeover_witness:
  "GetPeer (pg_ops ref_gorm) ''k1'' (sv_store (snd (Login (pg_ops ref_gorm) plain_jwt 0 ''u'' ''u8'' None (example_login ''k2'')
     (New_Server 0 (example_pg ''Default'') (NewManager ''s'') example_pool ''100.64.0.0/10'' ''blinex'' None))))
   = Inr (toDomainPeer (example_row ''Default''))"
proof -
  let ?s = "New_Server 0 (example_pg ''Default'') (NewManager ''s'') example_pool ''100.64.0.0/10'' ''blinex'' None"
  let ?r = "Login (pg_ops ref_gorm) plain_jwt 0 ''u'' ''u8'' None (example_login ''k2'') ?s"
  have st: "db_peers (sv_store ?s) = [example_row ''Default'']" by (simp add: New_Server_def example_pg_def)
  have row: "pp_WGPubKey (example_row ''Default'') = ''k1''" "pp_ID (example_row ''Default'') = ''id1''"
    by (simp_all add: example_row_def)
  have i: "pg_inv (sv_store ?s)" by (simp add: pg_inv_def st table_ok_def)
  have g: "GetPeer (pg_ops ref_gorm) ''k1'' (sv_store ?s) = Inr (toDomainPeer (example_row ''Default''))"
    using pg_GetPeer_Inr [OF ref_gorm_laws i, of "''k1''"] by (simp add: pg_ops_def st row)
  have e: "?r = (fst ?r, snd ?r)" by simp
  show ?thesis by (rule pg_Login_no_takeover [OF ref_gorm_laws i e g]) (simp_all add: example_login_def st row)
qed

text \<open>C30. Looking up an existing account fails: the condition that is given to the library contains the
  name and the time of the call besides the identifier, so no existing account meets it, and the
  insertion that follows collides with the primary key.\<close>

theorem pg_account_lookup_fails:
  assumes "gorm_laws g" "table_ok pa_ID pa_ID (db_accounts s)" "a \<in> set (db_accounts s)" "pa_ID a = i"
    "i \<noteq> []" "pa_CreatedAt a \<noteq> now"
  shows "pg_GetOrCreateAccount g now i s = Inl StoreFailure"
proof -
  have l: "table_laws pa_ID pa_ID (gm_accounts g)" using assms(1) by (simp add: gorm_laws_def)
  let ?P = "\<lambda>a. (i \<noteq> [] \<longrightarrow> pa_ID a = i \<and> pa_Name a = i) \<and> pa_CreatedAt a = now"
    and ?r = "\<lparr>pa_ID = i, pa_Name = i, pa_CreatedAt = now\<rparr>"
  have "b = a" if "b \<in> set (db_accounts s)" "pa_ID b = i" for b
    using that assms(2-4) by (auto simp: table_ok_def distinct_map dest: inj_onD)
  then have "filter ?P (db_accounts s) = []" using assms(4-6) by (auto simp: filter_empty_conv)
  then have f: "tb_First (gm_accounts g) ?P (db_accounts s) = None" using First_None [OF l] by blast
  have "tb_Create (gm_accounts g) ?r (db_accounts s) = None"
  proof (rule ccontr)
    assume "tb_Create (gm_accounts g) ?r (db_accounts s) \<noteq> None"
    then obtain rows where "tb_Create (gm_accounts g) ?r (db_accounts s) = Some rows" by blast
    from Create_rows [OF l assms(2) this] have m: "mset rows = mset (?r # db_accounts s)" "distinct (map pa_ID rows)"
      by (simp_all add: table_ok_def)
    have "mset (map pa_ID rows) = mset (map pa_ID (?r # db_accounts s))" using m(1) by (simp only: mset_map)
    then have "distinct (map pa_ID (?r # db_accounts s))" using m(2) mset_eq_imp_distinct_iff by blast
    then show False using assms(3,4) by auto
  qed
  then show ?thesis using f unfolding pg_GetOrCreateAccount_def FirstOrCreate_rows [OF l] by simp
qed

theorem pg_account_lookup_fails_witness:
  "pg_GetOrCreateAccount ref_gorm 7 ''default'' (empty_pg\<lparr>db_accounts := [\<lparr>pa_ID = ''default'', pa_Name = ''Default'', pa_CreatedAt = 1\<rparr>]\<rparr>)
   = Inl StoreFailure"
  by (rule pg_account_lookup_fails [OF ref_gorm_laws,
        where a = "\<lparr>pa_ID = ''default'', pa_Name = ''Default'', pa_CreatedAt = 1\<rparr>"]) (simp_all add: table_ok_def)

text \<open>After the start every peer is in the group Default: each stored peer is found as before, with its
  groups unchanged if Default is one of them and with Default put in front of them otherwise.\<close>

theorem pg_start_restores_default:
  assumes "gorm_laws g" "pg_inv s" "pg_New g s = Some s'" "GetPeer (pg_ops g) k s = Inr p"
  shows "GetPeer (pg_ops g) k s' = Inr (p\<lparr>p_Groups :=
    (if DefaultGroupName \<in> set (p_Groups p) then p_Groups p else DefaultGroupName # p_Groups p)\<rparr>)"
proof -
  have m: "mset (db_peers s') = mset (map with_default (db_peers s))" and i: "pg_inv s'"
    using pg_New_rows [OF assms(1-3)] by auto
  have r: "set (db_peers s') = with_default ` set (db_peers s)" using mset_eq_setD [OF m] by simp
  obtain row where row: "row \<in> set (db_peers s)" "pp_WGPubKey row = k" "p = toDomainPeer row"
    using assms(4) pg_GetPeer_Inr [OF assms(1,2)] by (auto simp: pg_ops_def)
  have "pg_GetPeer g k s' = Inr (toDomainPeer (with_default row))"
    unfolding pg_GetPeer_Inr [OF assms(1) i] using row(1,2) by (auto simp: r)
  then show ?thesis by (simp add: pg_ops_def row(3) with_default_domain)
qed

theorem pg_start_restores_default_witness:
  "\<exists>s' p. pg_New ref_gorm (example_pg ''staff'') = Some s'
     \<and> GetPeer (pg_ops ref_gorm) ''k1'' s' = Inr p \<and> p_Groups p = [DefaultGroupName, ''staff'']"
proof -
  let ?s = "example_pg ''staff''"
  have row: "pp_WGPubKey (example_row ''staff'') = ''k1''" "splitIPs (pp_Groups (example_row ''staff'')) = [''staff'']"
    by (simp_all add: example_row_def splitIPs_def)
  have st: "db_peers ?s = [example_row ''staff'']" by (simp add: example_pg_def)
  have i: "pg_inv ?s" by (simp add: pg_inv_def table_ok_def st)
  have g: "GetPeer (pg_ops ref_gorm) ''k1'' ?s = Inr (toDomainPeer (example_row ''staff''))"
    using pg_GetPeer_Inr [OF ref_gorm_laws i, of "''k1''"] by (simp add: pg_ops_def row st)
  obtain s' where n: "pg_New ref_gorm ?s = Some s'"
  proof -
    have "tb_Find (gm_peers ref_gorm) (\<lambda>_. True) (db_peers ?s) = Some [example_row ''staff'']"
      by (simp add: ref_gorm_def ref_table_def Let_def st)
    moreover have "\<exists>rows. backfill_one ref_gorm (example_row ''staff'') (Some [example_row ''staff'']) = Some rows"
      by (simp add: backfill_one_def ref_gorm_def) (simp add: ref_table_def Let_def table_ok_def)
    ultimately show ?thesis using that by (auto simp: pg_New_def st)
  qed
  from pg_start_restores_default [OF ref_gorm_laws i n g] n show ?thesis by (auto simp: row DefaultGroupName_def)
qed


end
