(* ===== verification/Dns_Resolver.thy ===== *)
theory Dns_Resolver
  imports Net_Addr
begin

text \<open>
  The agent's DNS resolver (\<^verbatim>\<open>client/internal/dns/resolver.go\<close>). The wire format belongs to
  \<^verbatim>\<open>golang.org/x/net/dns/dnsmessage\<close>: \<open>unpack\<close> and \<open>pack\<close> are arguments. The exchange with
  the upstream server is an argument too: the reply to a packet, or none when dialling,
  writing or reading fails. Handling a packet yields the packet written back, if any.
\<close>

section \<open>Model\<close>

record Resolver =
  rs_suffix :: string
  rs_upstream :: string
  rs_records :: "(string, addr option) gomap"
  rs_blocked :: "(string, unit) gomap"

definition New_Resolver :: "string \<Rightarrow> string \<Rightarrow> Resolver" where
  "New_Resolver sfx upstream =
     \<lparr>rs_suffix = to_lower (trim_with (\<lambda>c. c = CHR ''.'') sfx), rs_upstream = upstream,
      rs_records = [], rs_blocked = []\<rparr>"

definition normal_domain :: "string \<Rightarrow> string" where
  "normal_domain d = to_lower (trim_suffix (trim_space d) ''.'')"

definition SetBlocklist :: "string list \<Rightarrow> Resolver \<Rightarrow> Resolver" where
  "SetBlocklist domains r =
     r\<lparr>rs_blocked :=
         fold (\<lambda>d blocked. if normal_domain d = [] then blocked
                           else go_put (normal_domain d @ ''.'') () blocked) domains []\<rparr>"

definition isBlocked :: "string \<Rightarrow> Resolver \<Rightarrow> bool" where
  "isBlocked name r =
     (if rs_blocked r = [] then False
      else
        (let labels = split_on CHR ''.'' (trim_suffix name ''.'')
         in list_ex (\<lambda>i. go_get (rs_blocked r) (join_with ''.'' (drop i labels) @ ''.'') \<noteq> None)
              [0..<length labels]))"

definition fqdn :: "string \<Rightarrow> Resolver \<Rightarrow> string" where
  "fqdn label r = to_lower (label @ ''.'' @ rs_suffix r) @ ''.''"

definition Upsert :: "string \<Rightarrow> string \<Rightarrow> Resolver \<Rightarrow> Resolver" where
  "Upsert label ip r = r\<lparr>rs_records := go_put (fqdn label r) (parse_ip ip) (rs_records r)\<rparr>"

definition Remove :: "string \<Rightarrow> Resolver \<Rightarrow> Resolver" where
  "Remove label r = r\<lparr>rs_records := go_del (fqdn label r) (rs_records r)\<rparr>"

datatype rcode = RCodeSuccess | RCodeNameError | RCodeServerFailure
datatype qtype = TypeA | TypeOther nat

record Question =
  q_Name :: string
  q_Type :: qtype

record Answer =
  an_Name :: string
  an_TTL :: nat
  an_A :: u32

record Message =
  dm_ID :: nat
  dm_Response :: bool
  dm_Authoritative :: bool
  dm_RCode :: rcode
  dm_RecursionDesired :: bool
  dm_RecursionAvailable :: bool
  dm_Questions :: "Question list"
  dm_Answers :: "Answer list"

definition respondCode :: "(Message \<Rightarrow> string option) \<Rightarrow> Message \<Rightarrow> rcode \<Rightarrow> string option" where
  "respondCode pack msg rcode =
     pack \<lparr>dm_ID = dm_ID msg, dm_Response = True, dm_Authoritative = True, dm_RCode = rcode,
           dm_RecursionDesired = dm_RecursionDesired msg, dm_RecursionAvailable = False,
           dm_Questions = dm_Questions msg, dm_Answers = []\<rparr>"

definition respondNXDOMAIN :: "(Message \<Rightarrow> string option) \<Rightarrow> Message \<Rightarrow> string option" where
  "respondNXDOMAIN pack msg = respondCode pack msg RCodeNameError"

definition forward ::
  "(Message \<Rightarrow> string option) \<Rightarrow> (string \<Rightarrow> string \<Rightarrow> string option) \<Rightarrow> string \<Rightarrow> Message \<Rightarrow> Resolver
   \<Rightarrow> string option" where
  "forward pack exchange raw msg r =
     (case exchange (rs_upstream r) raw of
        None \<Rightarrow> respondCode pack msg RCodeServerFailure
      | Some reply \<Rightarrow> Some reply)"

definition handle ::
  "(string \<Rightarrow> Message option) \<Rightarrow> (Message \<Rightarrow> string option)
   \<Rightarrow> (string \<Rightarrow> string \<Rightarrow> string option) \<Rightarrow> string \<Rightarrow> Resolver \<Rightarrow> string option" where
  "handle unpack pack exchange raw r =
     (case unpack raw of
        None \<Rightarrow> None
      | Some msg \<Rightarrow>
          (case dm_Questions msg of
             [] \<Rightarrow> None
           | q # _ \<Rightarrow>
               (let name = to_lower (q_Name q);
                    answer = (if q_Type q = TypeA
                              then Option.bind (Option.bind (go_get (rs_records r) name) id) to4
                              else None)
                in case answer of
                     Some ip \<Rightarrow>
                       pack \<lparr>dm_ID = dm_ID msg, dm_Response = True, dm_Authoritative = True,
                             dm_RCode = RCodeSuccess,
                             dm_RecursionDesired = dm_RecursionDesired msg,
                             dm_RecursionAvailable = False, dm_Questions = dm_Questions msg,
                             dm_Answers = [\<lparr>an_Name = q_Name q, an_TTL = 60, an_A = ip\<rparr>]\<rparr>
                   | None \<Rightarrow>
                       if isBlocked name r then respondNXDOMAIN pack msg
                       else forward pack exchange raw msg r)))"

declare
  New_Resolver_def [go_eval] normal_domain_def [go_eval] SetBlocklist_def [go_eval]
  isBlocked_def [go_eval] fqdn_def [go_eval] Upsert_def [go_eval] Remove_def [go_eval]
  respondCode_def [go_eval] respondNXDOMAIN_def [go_eval] forward_def [go_eval]
  handle_def [go_eval]


section \<open>Lemmas\<close>

text \<open>A name lies under a domain: it is the domain, or ends in a dot and the domain.\<close>

definition under :: "string \<Rightarrow> string \<Rightarrow> bool" where
  "under name d \<longleftrightarrow> name = d \<or> (\<exists>x. name = x @ ''.'' @ d)"

lemma join_with_Cons: "ys \<noteq> [] \<Longrightarrow> join_with sep (x # ys) = x @ sep @ join_with sep ys"
  by (cases ys) auto

text \<open>The names the loop of \<^verbatim>\<open>isBlocked\<close> tries are exactly those the name lies under.\<close>

lemma under_split:
  "under s d \<longleftrightarrow> (\<exists>i < length (split_on CHR ''.'' s). join_with ''.'' (drop i (split_on CHR ''.'' s)) = d)"
  (is "_ \<longleftrightarrow> ?R s")
proof
  assume "under s d"
  then consider "s = d" | x where "s = x @ ''.'' @ d" by (auto simp: under_def)
  then show "?R s"
  proof cases
    case 1
    then show ?thesis by (intro exI [of _ 0]) simp
  next
    case 2
    then have "split_on CHR ''.'' s = split_on CHR ''.'' x @ split_on CHR ''.'' d"
      by (simp add: split_on_append_sep)
    then show ?thesis by (intro exI [of _ "length (split_on CHR ''.'' x)"]) simp
  qed
next
  assume "?R s"
  then obtain i where i: "i < length (split_on CHR ''.'' s)"
    "join_with ''.'' (drop i (split_on CHR ''.'' s)) = d" by blast
  show "under s d"
  proof (cases "i = 0")
    case True
    with i show ?thesis by (simp add: under_def)
  next
    case False
    let ?l = "split_on CHR ''.'' s"
    have "s = join_with ''.'' (take i ?l @ drop i ?l)" by simp
    also have "\<dots> = join_with ''.'' (take i ?l) @ ''.'' @ join_with ''.'' (drop i ?l)"
      using False i(1) by (intro join_with_append) auto
    finally show ?thesis using i(2) by (auto simp: under_def)
  qed
qed

lemma blocked_keys:
  "go_get (fold (\<lambda>d blocked. if normal_domain d = [] then blocked
                 else go_put (normal_domain d @ ''.'') () blocked) ds m) k = Some u \<longleftrightarrow>
     go_get m k = Some u \<or> (\<exists>d \<in> set ds. normal_domain d \<noteq> [] \<and> k = normal_domain d @ ''.'')"
  by (induction ds arbitrary: m) (auto simp: go_get_put)

lemma isBlocked_iff:
  "isBlocked (n @ ''.'') (SetBlocklist ds r) \<longleftrightarrow>
     (\<exists>d \<in> set ds. normal_domain d \<noteq> [] \<and> under n (normal_domain d))"
proof -
  have key: "go_get (rs_blocked (SetBlocklist ds r)) (k @ ''.'') \<noteq> None \<longleftrightarrow>
      (\<exists>d \<in> set ds. normal_domain d \<noteq> [] \<and> k = normal_domain d)" for k
    using blocked_keys [of ds "[]" "k @ ''.''"] by (auto simp: SetBlocklist_def)
  have "isBlocked (n @ ''.'') (SetBlocklist ds r) \<longleftrightarrow>
      (\<exists>i < length (split_on CHR ''.'' n).
         go_get (rs_blocked (SetBlocklist ds r)) (join_with ''.'' (drop i (split_on CHR ''.'' n)) @ ''.'') \<noteq> None)"
    by (auto simp: isBlocked_def Let_def list_ex_iff)
  then show ?thesis unfolding key under_split by blast
qed

text \<open>No query is dropped in silence: where the reply can be packed, one is written.\<close>

lemma handle_answers:
  "unpack raw = Some msg \<Longrightarrow> dm_Questions msg \<noteq> [] \<Longrightarrow> (\<And>m. pack m \<noteq> None) \<Longrightarrow>
     handle unpack pack exchange raw r \<noteq> None"
  by (auto simp: handle_def respondNXDOMAIN_def respondCode_def forward_def Let_def
      split: list.splits option.splits)

lemma records_SetBlocklist [simp]: "rs_records (SetBlocklist ds r) = rs_records r"
  and suffix_SetBlocklist [simp]: "rs_suffix (SetBlocklist ds r) = rs_suffix r"
  and fqdn_SetBlocklist [simp]: "fqdn l (SetBlocklist ds r) = fqdn l r"
  and upstream_SetBlocklist [simp]: "rs_upstream (SetBlocklist ds r) = rs_upstream r"
  by (simp_all add: SetBlocklist_def fqdn_def)


section \<open>Properties\<close>

definition example_query :: "string \<Rightarrow> Message" where
  "example_query n =
     \<lparr>dm_ID = 7, dm_Response = False, dm_Authoritative = False, dm_RCode = RCodeSuccess,
      dm_RecursionDesired = True, dm_RecursionAvailable = False,
      dm_Questions = [\<lparr>q_Name = n, q_Type = TypeA\<rparr>], dm_Answers = []\<rparr>"

text \<open>A packing that shows the reply code and the answers.\<close>

definition show_reply :: "Message \<Rightarrow> string option" where
  "show_reply m = Some (case dm_RCode m of
       RCodeSuccess \<Rightarrow> concat (map (\<lambda>a. show_v4 (an_A a)) (dm_Answers m))
     | RCodeNameError \<Rightarrow> ''NXDOMAIN'' | RCodeServerFailure \<Rightarrow> ''SERVFAIL'')"

text \<open>Blocking is exact: a query for a name that has no mesh record is answered NXDOMAIN if
  the name, in any letter case, is on the list or is a subdomain of a name on the list, and
  otherwise it goes upstream; a name that only ends in the same letters is not blocked.\<close>

theorem handle_blocks_exactly:
  assumes "unpack raw = Some msg" "dm_Questions msg = q # qs"
    "to_lower (q_Name q) = n @ ''.''" "go_get (rs_records r) (n @ ''.'') = None"
  shows "handle unpack pack exchange raw (SetBlocklist ds r) =
    (if \<exists>d \<in> set ds. normal_domain d \<noteq> [] \<and> under n (normal_domain d)
     then respondCode pack msg RCodeNameError
     else forward pack exchange raw msg r)"
  using assms
  by (auto simp: handle_def isBlocked_iff respondNXDOMAIN_def forward_def Let_def)

theorem handle_blocks_exactly_witness:
  "handle (\<lambda>n. Some (example_query n)) show_reply (\<lambda>_ _. None) ''A.Evil.Example.''
     (SetBlocklist ['' evil.example. ''] (New_Resolver ''blinex'' ''8.8.8.8:53'')) = Some ''NXDOMAIN''
   \<and> handle (\<lambda>n. Some (example_query n)) show_reply (\<lambda>_ _. None) ''notevil.example.''
     (SetBlocklist [''evil.example''] (New_Resolver ''blinex'' ''8.8.8.8:53'')) = Some ''SERVFAIL''"
proof -
  let ?r = "New_Resolver ''blinex'' ''8.8.8.8:53''"
  have low: "to_lower ''A.Evil.Example.'' = ''a.evil.example'' @ ''.''"
    "to_lower ''notevil.example.'' = ''notevil.example'' @ ''.''"
    "normal_domain '' evil.example. '' = ''evil.example''"
    "normal_domain ''evil.example'' = ''evil.example''"
    by (simp_all add: go_eval)
  have u: "under ''a.evil.example'' ''evil.example''"
    unfolding under_def by (intro disjI2 exI [of _ "''a''"]) simp
  have nu: "\<not> under ''notevil.example'' ''evil.example''"
    unfolding under_def by (auto simp: Cons_eq_append_conv)
  show ?thesis
    using handle_blocks_exactly [of "\<lambda>n. Some (example_query n)" "''A.Evil.Example.''"
        "example_query ''A.Evil.Example.''" _ _ "''a.evil.example''" ?r show_reply "\<lambda>_ _. None"
        "['' evil.example. '']"]
      handle_blocks_exactly [of "\<lambda>n. Some (example_query n)" "''notevil.example.''"
        "example_query ''notevil.example.''" _ _ "''notevil.example''" ?r show_reply "\<lambda>_ _. None"
        "[''evil.example'']"] low u nu
    by (simp add: example_query_def New_Resolver_def show_reply_def respondCode_def forward_def)
qed

text \<open>Mesh names resolve: after a record was inserted, an A query for its name in any letter
  case is answered with its address, even when a block list covers the name, and after it
  was removed the query is no longer answered from it.\<close>

theorem mesh_record_round_trip:
  assumes "unpack raw = Some msg" "dm_Questions msg = \<lparr>q_Name = name, q_Type = TypeA\<rparr> # qs"
    "to_lower name = fqdn label r" "Option.bind (parse_ip ip) to4 = Some w"
  shows "handle unpack pack exchange raw (SetBlocklist ds (Upsert label ip r)) =
      pack \<lparr>dm_ID = dm_ID msg, dm_Response = True, dm_Authoritative = True, dm_RCode = RCodeSuccess,
            dm_RecursionDesired = dm_RecursionDesired msg, dm_RecursionAvailable = False,
            dm_Questions = dm_Questions msg,
            dm_Answers = [\<lparr>an_Name = name, an_TTL = 60, an_A = w\<rparr>]\<rparr>
    \<and> handle unpack pack exchange raw (SetBlocklist ds (Remove label (Upsert label ip r))) =
      (if isBlocked (fqdn label r) (SetBlocklist ds r) then respondCode pack msg RCodeNameError
       else forward pack exchange raw msg r)"
proof -
  have "fqdn label (Upsert label ip r) = fqdn label r" by (simp add: fqdn_def Upsert_def)
  moreover have "isBlocked n (SetBlocklist ds (s\<lparr>rs_records := x\<rparr>)) = isBlocked n (SetBlocklist ds s)" for n x s
    by (simp add: isBlocked_def SetBlocklist_def)
  ultimately show ?thesis
    using assms
    by (simp add: handle_def Upsert_def Remove_def respondNXDOMAIN_def forward_def Let_def)
qed

theorem mesh_record_round_trip_witness:
  "handle (\<lambda>n. Some (example_query n)) show_reply (\<lambda>_ _. None) ''LAPTOP.blinex.''
     (SetBlocklist [''blinex''] (Upsert ''laptop'' ''100.64.0.7'' (New_Resolver ''.Blinex'' ''8.8.8.8:53'')))
     = Some ''100.64.0.7''"
  using mesh_record_round_trip [of "\<lambda>n. Some (example_query n)" "''LAPTOP.blinex.''"
      "example_query ''LAPTOP.blinex.''" "''LAPTOP.blinex.''" "[]" "''laptop''"
      "New_Resolver ''.Blinex'' ''8.8.8.8:53''" "''100.64.0.7''" 1681915911 show_reply "\<lambda>_ _. None" "[''blinex'']"]
  by (simp add: example_query_def show_reply_def New_Resolver_def fqdn_def go_eval)

end
