(* ===== verification/Peer_Link.thy ===== *)
theory Peer_Link
  imports Net_Addr
begin

text \<open>
  The data path to one peer (\<^verbatim>\<open>client/internal/peerlink/link.go\<close>): the policy that promotes a
  direct connection and demotes it again (\<^verbatim>\<open>probeState\<close>), and the link with its read and
  probe loops. Connections are numbers; each iteration of a loop is a step of its own, and
  the outcome of a read or a write is an argument of the step. Nanoseconds since the Unix
  epoch, as \<^verbatim>\<open>lastPong\<close> holds them, are integers.
\<close>

section \<open>The probe policy\<close>

definition probePing :: byte where "probePing = 0xFE"
definition probePong :: byte where "probePong = 0xFD"

definition probeTimeout :: duration where "probeTimeout = 10 * second"
definition upgradeThreshold :: int where "upgradeThreshold = 3"
definition minUpgradeBackoff :: duration where "minUpgradeBackoff = 15 * second"
definition maxUpgradeBackoff :: duration where "maxUpgradeBackoff = 5 * minute"
definition backoffResetAfter :: duration where "backoffResetAfter = 2 * minute"

record probeState =
  ps_consecutiveGood :: int
  ps_seenPong :: int
  ps_backoff :: duration
  ps_nextUpgrade :: gtime
  ps_promotedAt :: gtime
  ps_direct :: bool

definition newProbeState :: probeState where
  "newProbeState = \<lparr>ps_consecutiveGood = 0, ps_seenPong = 0, ps_backoff = minUpgradeBackoff,
     ps_nextUpgrade = 0, ps_promotedAt = 0, ps_direct = False\<rparr>"

text \<open>A tick is answered when a pong arrived that the previous tick had not seen.\<close>

definition answered :: "int \<Rightarrow> gtime \<Rightarrow> probeState \<Rightarrow> bool" where
  "answered pong now p \<longleftrightarrow> pong \<noteq> 0 \<and> pong \<noteq> ps_seenPong p \<and> time_sub now (unix_epoch + pong) < probeTimeout"

datatype verdict = Stay | Promote | Demote duration

definition observe :: "int \<Rightarrow> gtime \<Rightarrow> probeState \<Rightarrow> verdict \<times> probeState" where
  "observe pong now p =
     (let good = answered pong now p;
          p1 = p\<lparr>ps_seenPong := pong,
                 ps_consecutiveGood := (if good then ps_consecutiveGood p + 1 else 0)\<rparr>
      in if ps_direct p1 then
           (if good then (Stay, p1)
            else
              (let b = (if ps_promotedAt p1 \<noteq> 0 \<and> backoffResetAfter \<le> time_sub now (ps_promotedAt p1)
                        then minUpgradeBackoff else ps_backoff p1)
               in (Demote b,
                   p1\<lparr>ps_direct := False, ps_nextUpgrade := now + b,
                      ps_backoff := min (b * 2) maxUpgradeBackoff\<rparr>)))
         else if upgradeThreshold \<le> ps_consecutiveGood p1 \<and> ps_nextUpgrade p1 < now
         then (Promote, p1\<lparr>ps_direct := True, ps_promotedAt := now\<rparr>)
         else (Stay, p1))"


section \<open>The link\<close>

record Link =
  lk_iceConn :: "nat option"
  lk_useICE :: bool
  lk_lastPong :: int
  lk_closed :: bool
  lk_readers :: "nat list"
  lk_probers :: "(nat, probeState) gomap"

definition New_Link :: Link where
  "New_Link = \<lparr>lk_iceConn = None, lk_useICE = False, lk_lastPong = 0, lk_closed = False,
     lk_readers = [], lk_probers = []\<rparr>"

datatype path = ViaICE nat | ViaRelay

definition Write_link :: "bool \<Rightarrow> Link \<Rightarrow> path" where
  "Write_link ice_ok l =
     (if lk_useICE l then (case lk_iceConn l of Some c \<Rightarrow> if ice_ok then ViaICE c else ViaRelay | None \<Rightarrow> ViaRelay)
      else ViaRelay)"

text \<open>The connection that is replaced is closed, so a read from it fails from then on.\<close>

definition SetICEConn :: "nat \<Rightarrow> Link \<Rightarrow> Link" where
  "SetICEConn conn l =
     l\<lparr>lk_iceConn := Some conn, lk_readers := conn # lk_readers l,
       lk_probers := go_put conn newProbeState (lk_probers l)\<rparr>"

datatype read_action = Pong nat | Recorded | Inject "byte list"

definition iceRead_error :: "nat \<Rightarrow> Link \<Rightarrow> Link" where
  "iceRead_error conn l =
     l\<lparr>lk_useICE := False, lk_iceConn := (if lk_iceConn l = Some conn then None else lk_iceConn l),
       lk_readers := remove1 conn (lk_readers l)\<rparr>"

definition iceRead_packet :: "gtime \<Rightarrow> byte list \<Rightarrow> Link \<Rightarrow> read_action \<times> Link" where
  "iceRead_packet now buf l =
     (if buf \<noteq> [] \<and> hd buf = probePing then (Pong (length buf), l)
      else if buf \<noteq> [] \<and> hd buf = probePong then (Recorded, l\<lparr>lk_lastPong := now - unix_epoch\<rparr>)
      else (Inject buf, l))"

text \<open>One tick of the probe loop of a connection; the loop ends when it leaves the map.\<close>

definition probe_tick :: "nat \<Rightarrow> bool \<Rightarrow> gtime \<Rightarrow> Link \<Rightarrow> Link" where
  "probe_tick conn ping_ok now l =
     (case go_get (lk_probers l) conn of
        None \<Rightarrow> l
      | Some st \<Rightarrow>
          if lk_closed l \<or> lk_iceConn l \<noteq> Some conn then l\<lparr>lk_probers := go_del conn (lk_probers l)\<rparr>
          else if \<not> ping_ok then l\<lparr>lk_useICE := False, lk_probers := go_del conn (lk_probers l)\<rparr>
          else
            (case observe (lk_lastPong l) now st of
               (v, st') \<Rightarrow>
                 l\<lparr>lk_probers := go_put conn st' (lk_probers l),
                   lk_useICE := (case v of Promote \<Rightarrow> True | Demote _ \<Rightarrow> False | Stay \<Rightarrow> lk_useICE l)\<rparr>))"

definition UsingICE :: "Link \<Rightarrow> bool" where
  "UsingICE l = lk_useICE l"

definition Close_link :: "Link \<Rightarrow> Link" where
  "Close_link l = l\<lparr>lk_closed := True, lk_iceConn := None, lk_useICE := False\<rparr>"

definition short_key :: "string \<Rightarrow> string" where
  "short_key k = (if 8 < length k then take 8 k else k)"

lemmas link_consts =
  probePing_def probePong_def probeTimeout_def upgradeThreshold_def minUpgradeBackoff_def
  maxUpgradeBackoff_def backoffResetAfter_def

lemmas link_defs =
  link_consts newProbeState_def answered_def observe_def New_Link_def Write_link_def SetICEConn_def
  iceRead_error_def iceRead_packet_def probe_tick_def UsingICE_def Close_link_def short_key_def

declare link_defs [go_eval]


section \<open>Lemmas on the policy\<close>

text \<open>Runs of the policy over the ticks of a loop, oldest first, with the verdicts.\<close>

fun run_probe :: "(int \<times> gtime) list \<Rightarrow> probeState \<Rightarrow> verdict list \<times> probeState" where
  "run_probe [] p = ([], p)"
| "run_probe ((pong, now) # xs) p =
     (case observe pong now p of (v, p1) \<Rightarrow> case run_probe xs p1 of (vs, p2) \<Rightarrow> (v # vs, p2))"

definition probe_inv :: "probeState \<Rightarrow> bool" where
  "probe_inv p \<longleftrightarrow> 0 \<le> ps_consecutiveGood p \<and> minUpgradeBackoff \<le> ps_backoff p \<and> ps_backoff p \<le> maxUpgradeBackoff"

lemma probe_inv_new: "probe_inv newProbeState"
  by (simp add: probe_inv_def newProbeState_def link_consts time_defs)

lemma probe_inv_observe: "probe_inv p \<Longrightarrow> probe_inv (snd (observe pong now p))"
  by (auto simp: probe_inv_def observe_def Let_def link_consts time_defs)

lemma observe_seen [simp]: "ps_seenPong (snd (observe pong now p)) = pong"
  by (simp add: observe_def Let_def)

lemma observe_good:
  "ps_consecutiveGood (snd (observe pong now p)) = (if answered pong now p then ps_consecutiveGood p + 1 else 0)"
  by (simp add: observe_def Let_def)

lemma observe_promote:
  "fst (observe pong now p) = Promote \<Longrightarrow>
     \<not> ps_direct p \<and> answered pong now p \<and> upgradeThreshold \<le> ps_consecutiveGood p + 1 \<and> ps_nextUpgrade p < now"
  by (auto simp: observe_def Let_def upgradeThreshold_def split: if_splits)

lemma observe_demote:
  "fst (observe pong now p) = Demote r \<Longrightarrow>
     ps_direct p \<and> \<not> answered pong now p \<and> r \<in> {ps_backoff p, minUpgradeBackoff}
     \<and> ps_nextUpgrade (snd (observe pong now p)) = now + r \<and> \<not> ps_direct (snd (observe pong now p))"
  by (auto simp: observe_def Let_def split: if_splits)

lemma run_probe_append:
  "run_probe (xs @ ys) p =
     (let (vs, p1) = run_probe xs p; (ws, p2) = run_probe ys p1 in (vs @ ws, p2))"
  by (induction xs arbitrary: p) (auto split: prod.splits)

lemma run_probe_inv: "probe_inv p \<Longrightarrow> probe_inv (snd (run_probe xs p))"
proof (induction xs arbitrary: p)
  case (Cons x xs)
  obtain pong now where x: "x = (pong, now)" by force
  from Cons.IH [OF probe_inv_observe [OF Cons.prems, of pong now]] show ?case
    by (auto simp: x split: prod.splits)
qed simp

text \<open>The count of good ticks says that as many ticks at the end were answered.\<close>

definition fresh_pong :: "(int \<times> gtime) list \<Rightarrow> nat \<Rightarrow> bool" where
  "fresh_pong xs i \<longleftrightarrow>
     fst (xs ! i) \<noteq> 0 \<and> fst (xs ! i) \<noteq> (if i = 0 then 0 else fst (xs ! (i - 1)))
     \<and> time_sub (snd (xs ! i)) (unix_epoch + fst (xs ! i)) < probeTimeout"

lemma seen_after: "xs \<noteq> [] \<Longrightarrow> ps_seenPong (snd (run_probe xs p)) = fst (last xs)"
proof (induction xs arbitrary: p rule: rev_induct)
  case (snoc x xs)
  obtain pong now where x: "x = (pong, now)" by force
  show ?case by (simp add: run_probe_append x split: prod.splits) (metis observe_seen snd_conv)
qed simp

lemma good_ticks:
  "ps_consecutiveGood (snd (run_probe xs newProbeState)) \<le> int (length xs)
   \<and> (\<forall>i < length xs. int (length xs) - ps_consecutiveGood (snd (run_probe xs newProbeState)) \<le> int i \<longrightarrow> fresh_pong xs i)"
proof (induction xs rule: rev_induct)
  case Nil
  then show ?case by (simp add: newProbeState_def)
next
  case (snoc x xs)
  obtain pong now where x: "x = (pong, now)" by force
  let ?p = "snd (run_probe xs newProbeState)"
  let ?q = "snd (run_probe (xs @ [x]) newProbeState)"
  have q: "?q = snd (observe pong now ?p)"
    by (simp add: run_probe_append x split: prod.splits)
  have seen: "ps_seenPong ?p = (if xs = [] then 0 else fst (last xs))"
    using seen_after [of xs newProbeState] by (simp add: newProbeState_def)
  have old: "fresh_pong (xs @ [x]) i = fresh_pong xs i" if "i < length xs" for i
    using that less_imp_diff_less [OF that, of 1] by (simp add: fresh_pong_def nth_append)
  have new: "fresh_pong (xs @ [x]) (length xs)" if "answered pong now ?p"
    using that seen by (cases "xs = []") (simp_all add: fresh_pong_def answered_def x nth_append last_conv_nth)
  show ?case
  proof (cases "answered pong now ?p")
    case True
    then have c: "ps_consecutiveGood ?q = ps_consecutiveGood ?p + 1" by (simp add: q observe_good)
    have "fresh_pong (xs @ [x]) i"
      if "i < length (xs @ [x])" "int (length (xs @ [x])) - ps_consecutiveGood ?q \<le> int i" for i
    proof (cases "i < length xs")
      case True
      with that c snoc.IH old [of i] show ?thesis by simp
    next
      case False
      with that(1) have "i = length xs" by simp
      with new [OF \<open>answered pong now ?p\<close>] show ?thesis by simp
    qed
    with c snoc.IH show ?thesis by simp
  next
    case False
    then have "ps_consecutiveGood ?q = 0" by (simp add: q observe_good)
    then show ?thesis by auto
  qed
qed

lemma no_promotion_before:
  assumes "\<not> ps_direct p" "\<forall>(pong, now) \<in> set xs. now \<le> ps_nextUpgrade p"
  shows "Promote \<notin> set (fst (run_probe xs p)) \<and> ps_nextUpgrade (snd (run_probe xs p)) = ps_nextUpgrade p
    \<and> \<not> ps_direct (snd (run_probe xs p))"
  using assms
proof (induction xs arbitrary: p)
  case (Cons x xs)
  obtain pong now where x: "x = (pong, now)" by force
  have o: "fst (observe pong now p) = Stay" "ps_nextUpgrade (snd (observe pong now p)) = ps_nextUpgrade p"
    "\<not> ps_direct (snd (observe pong now p))"
    using Cons.prems by (auto simp: observe_def Let_def x)
  obtain q where q: "observe pong now p = (Stay, q)" using o(1) by (metis prod.collapse)
  from Cons.IH [of q] Cons.prems(2) o q show ?case by (auto simp: x split: prod.splits)
qed simp


section \<open>Properties\<close>

text \<open>C34. A direct path is promoted only on sustained evidence: when a tick of the probe loop
  promotes the path, the last three ticks all saw a pong that no tick before them had seen
  and that was younger than ten seconds.\<close>

theorem promote_needs_three_answers:
  assumes "fst (run_probe (xs @ [x]) newProbeState) = vs @ [Promote]"
  shows "3 \<le> length (xs @ [x])
    \<and> (\<forall>i. length (xs @ [x]) - 3 \<le> i \<and> i < length (xs @ [x]) \<longrightarrow> fresh_pong (xs @ [x]) i)"
proof -
  obtain pong now where x: "x = (pong, now)" by force
  let ?p = "snd (run_probe xs newProbeState)" and ?n = "int (length (xs @ [x]))"
  have "fst (observe pong now ?p) = Promote"
    using assms by (auto simp: run_probe_append x split: prod.splits)
  note pr = observe_promote [OF this]
  have q: "snd (run_probe (xs @ [x]) newProbeState) = snd (observe pong now ?p)"
    by (simp add: run_probe_append x split: prod.splits)
  have three: "3 \<le> ps_consecutiveGood (snd (run_probe (xs @ [x]) newProbeState))"
    using pr by (simp add: q observe_good upgradeThreshold_def)
  note g = good_ticks [of "xs @ [x]"]
  from g three have "3 \<le> length (xs @ [x])" by linarith
  moreover have "fresh_pong (xs @ [x]) i" if "length (xs @ [x]) - 3 \<le> i" "i < length (xs @ [x])" for i
  proof -
    have "?n - ps_consecutiveGood (snd (run_probe (xs @ [x]) newProbeState)) \<le> int i"
      using that(1) three by linarith
    with g that(2) show ?thesis by blast
  qed
  ultimately show ?thesis by blast
qed

theorem promote_needs_three_answers_witness:
  "fresh_pong [(1, unix_epoch + 2), (3, unix_epoch + 4), (5, unix_epoch + 6)] 2"
proof -
  have "fst (run_probe ([(1, unix_epoch + 2), (3, unix_epoch + 4)] @ [(5, unix_epoch + 6)]) newProbeState)
      = [Stay, Stay] @ [Promote]"
    by (simp add: newProbeState_def observe_def answered_def link_consts time_defs unix_epoch_def time_sub_def Let_def)
  from promote_needs_three_answers [OF this] show ?thesis by simp
qed

text \<open>A stalled path is abandoned at the first unanswered tick and stays abandoned for the
  announced time: the retry delay is between fifteen seconds and five minutes whatever the
  history, and no tick up to the end of the delay promotes the path again.\<close>

theorem stall_backs_off:
  assumes "probe_inv p" "observe pong now p = (Demote r, q)"
    "\<forall>(pong', now') \<in> set xs. now' \<le> now + r"
  shows "minUpgradeBackoff \<le> r \<and> r \<le> maxUpgradeBackoff \<and> \<not> answered pong now p
    \<and> Promote \<notin> set (fst (run_probe xs q))"
proof -
  have d: "ps_direct p \<and> \<not> answered pong now p \<and> r \<in> {ps_backoff p, minUpgradeBackoff}
     \<and> ps_nextUpgrade q = now + r \<and> \<not> ps_direct q"
    using observe_demote [of pong now p r] assms(2) by simp
  then have "minUpgradeBackoff \<le> r" "r \<le> maxUpgradeBackoff"
    using assms(1) by (auto simp: probe_inv_def link_consts time_defs)
  moreover have "Promote \<notin> set (fst (run_probe xs q))"
    using no_promotion_before [of q xs] d assms(3) by simp
  ultimately show ?thesis using d by simp
qed

theorem stall_backs_off_witness:
  "Promote \<notin> set (fst (run_probe [(9, 20)] (snd (observe 0 10 (newProbeState\<lparr>ps_direct := True\<rparr>)))))"
proof -
  let ?p = "newProbeState\<lparr>ps_direct := True\<rparr>"
  have i: "probe_inv ?p" using probe_inv_new by (simp add: probe_inv_def)
  have o: "observe 0 10 ?p = (Demote minUpgradeBackoff, snd (observe 0 10 ?p))"
    by (simp add: observe_def answered_def newProbeState_def Let_def)
  show ?thesis
    using stall_backs_off [OF i o, of "[(9, 20)]"] by (simp add: minUpgradeBackoff_def time_defs)
qed

text \<open>A replaced connection is used without a probe: when a new direct connection arrives
  while the link uses the old one, the next packet goes out over the new connection,
  although no pong was ever received over it. When the reader of the old connection
  reports its error after the new one was promoted, the link falls back to the relay and
  answered probes do not bring it back.\<close>

theorem replaced_connection_unprobed:
  assumes "lk_useICE l" "old \<noteq> conn"
  shows "Write_link True (SetICEConn conn l) = ViaICE conn
    \<and> go_get (lk_probers (SetICEConn conn l)) conn = Some newProbeState
    \<and> (\<forall>l2 st now. lk_iceConn l2 = Some conn \<and> go_get (lk_probers l2) conn = Some st \<and> ps_direct st
         \<and> \<not> lk_closed l2 \<and> answered (lk_lastPong l2) now st \<longrightarrow>
         \<not> lk_useICE (probe_tick conn True now (iceRead_error old l2)))"
proof -
  have "\<not> lk_useICE (probe_tick conn True now (iceRead_error old l2))"
    if "lk_iceConn l2 = Some conn" "go_get (lk_probers l2) conn = Some st" "ps_direct st" "\<not> lk_closed l2"
      "answered (lk_lastPong l2) now st" for l2 st now
  proof -
    have "fst (observe (lk_lastPong l2) now st) = Stay"
      using that(3,5) by (simp add: observe_def Let_def answered_def)
    with that assms(2) show ?thesis
      by (auto simp: iceRead_error_def probe_tick_def split: prod.splits)
  qed
  then show ?thesis using assms by (simp add: Write_link_def SetICEConn_def)
qed

theorem replaced_connection_unprobed_witness:
  "Write_link True (SetICEConn 2 (New_Link\<lparr>lk_useICE := True, lk_iceConn := Some 1\<rparr>)) = ViaICE 2"
  using replaced_connection_unprobed [of "New_Link\<lparr>lk_useICE := True, lk_iceConn := Some 1\<rparr>" 1 2]
  by (simp add: New_Link_def)

end
