(* ===== verification/Signal_Auth.thy ===== *)
theory Signal_Auth
  imports Mgmt_Auth Net_Addr
begin

text \<open>
  Authentication on the signal server (\<^verbatim>\<open>signal/internal/auth/auth.go\<close>), which verifies the
  tokens of the management server on its own: the unpadded URL-safe base64 decoder of the
  standard library, the check of the signature and of the claims, and the interceptor. The
  keyed hash and the JSON decoder are arguments.
\<close>

section \<open>Base64\<close>

definition b64_val :: "char \<Rightarrow> nat option" where
  "b64_val c =
     (let n = of_char c :: nat in
      if 65 \<le> n \<and> n \<le> 90 then Some (n - 65)
      else if 97 \<le> n \<and> n \<le> 122 then Some (n - 71)
      else if 48 \<le> n \<and> n \<le> 57 then Some (n + 4)
      else if n = 45 then Some 62
      else if n = 95 then Some 63
      else None)"

definition b64_char :: "nat \<Rightarrow> char" where
  "b64_char v =
     (if v < 26 then char_of (v + 65) else if v < 52 then char_of (v + 71)
      else if v < 62 then char_of (v - 4) else if v = 62 then CHR ''-'' else CHR ''_'')"

text \<open>The decoder skips line breaks and does not check the unused bits of the last character.\<close>

fun b64_quads :: "nat list \<Rightarrow> byte list option" where
  "b64_quads [] = Some []"
| "b64_quads [_] = None"
| "b64_quads [a, b] = Some [of_nat (a * 4 + b div 16)]"
| "b64_quads [a, b, c] = Some [of_nat (a * 4 + b div 16), of_nat ((b mod 16) * 16 + c div 4)]"
| "b64_quads (a # b # c # d # r) =
     map_option (\<lambda>bs. of_nat (a * 4 + b div 16) # of_nat ((b mod 16) * 16 + c div 4)
       # of_nat ((c mod 4) * 64 + d) # bs) (b64_quads r)"

fun all_some :: "'a option list \<Rightarrow> 'a list option" where
  "all_some [] = Some []"
| "all_some (None # xs) = None"
| "all_some (Some x # xs) = map_option ((#) x) (all_some xs)"

definition RawURL_DecodeString :: "string \<Rightarrow> byte list option" where
  "RawURL_DecodeString s =
     Option.bind (all_some (map b64_val (filter (\<lambda>c. c \<noteq> CHR 0x0A \<and> c \<noteq> CHR 0x0D) s))) b64_quads"

fun b64_enc :: "byte list \<Rightarrow> nat list" where
  "b64_enc [] = []"
| "b64_enc [x] = [unat x div 4, (unat x mod 4) * 16]"
| "b64_enc [x, y] = [unat x div 4, (unat x mod 4) * 16 + unat y div 16, (unat y mod 16) * 4]"
| "b64_enc (x # y # z # r) =
     unat x div 4 # ((unat x mod 4) * 16 + unat y div 16) # ((unat y mod 16) * 4 + unat z div 64)
       # (unat z mod 64) # b64_enc r"

definition RawURL_EncodeToString :: "byte list \<Rightarrow> string" where
  "RawURL_EncodeToString bs = map b64_char (b64_enc bs)"


section \<open>Verification of a token\<close>

definition bytes_of :: "string \<Rightarrow> byte list" where
  "bytes_of s = map (\<lambda>c. of_nat (of_char c)) s"

datatype jwt_error =
    InvalidFormat | InvalidSignatureEncoding | SignatureInvalid | InvalidClaims | ParsingClaims
  | Expired | MissingKey

definition unix_seconds :: "gtime \<Rightarrow> int" where
  "unix_seconds t = (t - unix_epoch) div second"

definition ValidateHS256 ::
  "(byte list \<Rightarrow> byte list \<Rightarrow> byte list) \<Rightarrow> (byte list \<Rightarrow> (string \<times> int) option) \<Rightarrow> gtime \<Rightarrow> string \<Rightarrow> string
   \<Rightarrow> jwt_error + string" where
  "ValidateHS256 hmac unmarshal now tokenStr secret =
     (case split_on (CHR ''.'') tokenStr of
        [h, p, s] \<Rightarrow>
          (case RawURL_DecodeString s of
             None \<Rightarrow> Inl InvalidSignatureEncoding
           | Some sig \<Rightarrow>
               if hmac (bytes_of secret) (bytes_of (h @ ''.'' @ p)) \<noteq> sig then Inl SignatureInvalid
               else
                 (case RawURL_DecodeString p of
                    None \<Rightarrow> Inl InvalidClaims
                  | Some claimsJSON \<Rightarrow>
                      (case unmarshal claimsJSON of
                         None \<Rightarrow> Inl ParsingClaims
                       | Some (wgPubKey, expiresAt) \<Rightarrow>
                           if 0 < expiresAt \<and> expiresAt < unix_seconds now then Inl Expired
                           else if wgPubKey = [] then Inl MissingKey
                           else Inr wgPubKey)))
      | _ \<Rightarrow> Inl InvalidFormat)"

definition StreamInterceptor ::
  "(byte list \<Rightarrow> byte list \<Rightarrow> byte list) \<Rightarrow> (byte list \<Rightarrow> (string \<times> int) option) \<Rightarrow> gtime \<Rightarrow> string
   \<Rightarrow> string list option \<Rightarrow> code + string" where
  "StreamInterceptor hmac unmarshal now secret md =
     (case md of
        None \<Rightarrow> Inl Unauthenticated
      | Some [] \<Rightarrow> Inl Unauthenticated
      | Some (v # _) \<Rightarrow>
          (let tok = (if 7 < length v \<and> to_lower (take 7 v) = ''bearer '' then drop 7 v else v)
           in case ValidateHS256 hmac unmarshal now tok secret of
                Inl _ \<Rightarrow> Inl Unauthenticated
              | Inr key \<Rightarrow> Inr key))"

declare b64_val_def [go_eval] b64_char_def [go_eval] RawURL_DecodeString_def [go_eval]
  RawURL_EncodeToString_def [go_eval] bytes_of_def [go_eval] unix_seconds_def [go_eval]
  ValidateHS256_def [go_eval] StreamInterceptor_def [go_eval]

text \<open>The compact form of a token, as its issuer writes it.\<close>

definition jwt_compact :: "(byte list \<Rightarrow> byte list \<Rightarrow> byte list) \<Rightarrow> byte list \<Rightarrow> byte list \<Rightarrow> string \<Rightarrow> string" where
  "jwt_compact hmac header claims secret =
     (let hp = RawURL_EncodeToString header @ ''.'' @ RawURL_EncodeToString claims
      in hp @ ''.'' @ RawURL_EncodeToString (hmac (bytes_of secret) (bytes_of hp)))"


section \<open>Lemmas\<close>

lemma b64_char_val: "v < 64 \<Longrightarrow> b64_val (b64_char v) = Some v"
  by (auto simp: b64_val_def b64_char_def Let_def)

lemma b64_char_plain: "v < 64 \<Longrightarrow> b64_char v \<noteq> CHR 0x0A \<and> b64_char v \<noteq> CHR 0x0D \<and> b64_char v \<noteq> CHR ''.''"
  using b64_char_val [of v] by (auto simp: b64_val_def Let_def)

lemma unat_byte: "unat (x :: byte) < 256"
proof -
  have "unat x < 2 ^ LENGTH(8)" by (rule unsigned_less)
  then show ?thesis by simp
qed

lemma b64_enc_less: "\<forall>v \<in> set (b64_enc bs). v < 64"
proof (induction bs rule: b64_enc.induct)
  case (2 x)
  then show ?case using unat_byte [of x] by auto
next
  case (3 x y)
  then show ?case using unat_byte [of x] unat_byte [of y] by auto
next
  case (4 x y z r)
  then show ?case using unat_byte [of x] unat_byte [of y] unat_byte [of z] by auto
qed simp

lemma digits:
  fixes m n b :: nat
  assumes "n < b"
  shows "(m * b + n) div b = m" "(m * b + n) mod b = n"
  using assms by simp_all

lemma byte_digits:
  fixes x y z :: byte
  shows "(unat x mod 4 * 16 + unat y div 16) div 16 = unat x mod 4"
    "(unat x mod 4 * 16 + unat y div 16) mod 16 = unat y div 16"
    "(unat y mod 16 * 4 + unat z div 64) div 4 = unat y mod 16"
    "(unat y mod 16 * 4 + unat z div 64) mod 4 = unat z div 64"
proof -
  have "unat y div 16 < 16" "unat z div 64 < 4"
    using unat_byte [of y] unat_byte [of z] by (simp_all add: less_mult_imp_div_less)
  then show "(unat x mod 4 * 16 + unat y div 16) div 16 = unat x mod 4"
    "(unat x mod 4 * 16 + unat y div 16) mod 16 = unat y div 16"
    "(unat y mod 16 * 4 + unat z div 64) div 4 = unat y mod 16"
    "(unat y mod 16 * 4 + unat z div 64) mod 4 = unat z div 64"
    by (simp_all only: digits)
qed

lemma b64_quads_enc: "b64_quads (b64_enc bs) = Some bs"
proof (induction bs rule: b64_enc.induct)
  case (4 x y z r)
  then show ?case by (simp only: b64_enc.simps b64_quads.simps byte_digits div_mult_mod_eq) simp
next
  case (3 x y)
  have "unat y mod 16 * 4 div 4 = unat y mod 16" by simp
  then show ?case by (simp only: b64_enc.simps b64_quads.simps byte_digits div_mult_mod_eq) simp
next
  case (2 x)
  have "unat x mod 4 * 16 div 16 = unat x mod 4" by simp
  then show ?case by (simp only: b64_enc.simps b64_quads.simps byte_digits div_mult_mod_eq) simp
qed simp

lemma all_some_map: "(\<And>x. x \<in> set xs \<Longrightarrow> f (g x) = Some x) \<Longrightarrow> all_some (map (f \<circ> g) xs) = Some xs"
  by (induction xs) auto

lemma b64_round_trip: "RawURL_DecodeString (RawURL_EncodeToString bs) = Some bs"
proof -
  have "filter (\<lambda>c. c \<noteq> CHR 0x0A \<and> c \<noteq> CHR 0x0D) (RawURL_EncodeToString bs) = RawURL_EncodeToString bs"
    using b64_enc_less [of bs] b64_char_plain by (auto simp: RawURL_EncodeToString_def intro!: filter_True)
  moreover have "all_some (map (b64_val \<circ> b64_char) (b64_enc bs)) = Some (b64_enc bs)"
    using b64_enc_less [of bs] b64_char_val by (intro all_some_map) auto
  ultimately show ?thesis
    by (simp add: RawURL_DecodeString_def) (simp add: RawURL_EncodeToString_def b64_quads_enc)
qed

lemma b64_no_dot: "CHR ''.'' \<notin> set (RawURL_EncodeToString bs)"
proof
  assume "CHR ''.'' \<in> set (RawURL_EncodeToString bs)"
  then obtain v where "v \<in> set (b64_enc bs)" "b64_char v = CHR ''.''" by (auto simp: RawURL_EncodeToString_def)
  then show False using b64_enc_less [of bs] b64_char_plain [of v] by simp
qed

lemma compact_parts:
  "split_on (CHR ''.'') (jwt_compact hmac header claims secret) =
     [RawURL_EncodeToString header, RawURL_EncodeToString claims,
      RawURL_EncodeToString (hmac (bytes_of secret)
        (bytes_of (RawURL_EncodeToString header @ ''.'' @ RawURL_EncodeToString claims)))]"
  by (simp add: jwt_compact_def Let_def split_on_append b64_no_dot split_on_absent)


section \<open>Properties\<close>

text \<open>The signal server admits the bearer of a token exactly as the claims say: for a token in
  compact form that is signed with the shared secret, with whatever header, the caller is
  admitted under the key the claims name unless the token has expired or names no key; and a
  token whose signature was made with a hash value other than the one of the shared secret
  is refused.\<close>

theorem signal_admits_signed:
  assumes "unmarshal claims = Some (key, exp)"
  shows "StreamInterceptor hmac unmarshal now secret (Some [bearer (jwt_compact hmac header claims secret)]) =
      (if key = [] \<or> 0 < exp \<and> exp < unix_seconds now then Inl Unauthenticated else Inr key)
    \<and> (hmac (bytes_of secret') (bytes_of (RawURL_EncodeToString header @ ''.'' @ RawURL_EncodeToString claims)) \<noteq>
         hmac (bytes_of secret) (bytes_of (RawURL_EncodeToString header @ ''.'' @ RawURL_EncodeToString claims)) \<longrightarrow>
       StreamInterceptor hmac unmarshal now secret (Some [bearer (jwt_compact hmac header claims secret')])
         = Inl Unauthenticated)"
proof -
  have low: "to_lower ''Bearer '' = ''bearer ''" by code_simp
  have tok: "StreamInterceptor hmac unmarshal now secret (Some [bearer (jwt_compact hmac header claims s)]) =
      (case ValidateHS256 hmac unmarshal now (jwt_compact hmac header claims s) secret of
         Inl _ \<Rightarrow> Inl Unauthenticated | Inr key \<Rightarrow> Inr key)" for s
    by (simp add: StreamInterceptor_def bearer_def jwt_compact_def Let_def low)
  show ?thesis
    using assms unfolding tok ValidateHS256_def compact_parts
    by (simp add: b64_round_trip)
qed


theorem signal_admits_signed_witness:
  "StreamInterceptor (@) (\<lambda>_. Some (''k1'', 0)) 0 ''s'' (Some [bearer (jwt_compact (@) [1, 2] [3] ''s'')]) = Inr ''k1''
   \<and> StreamInterceptor (@) (\<lambda>_. Some (''k1'', 0)) 0 ''s'' (Some [bearer (jwt_compact (@) [1, 2] [3] ''t'')])
     = Inl Unauthenticated"
  using signal_admits_signed [of "\<lambda>_. Some (''k1'', 0)" "[3]" "''k1''" 0 "(@)" 0 "''s''" "[1, 2]" "''t''"]
  by (simp add: bytes_of_def)

end
