(* ===== verification/Signal_Server.thy ===== *)
theory Signal_Server
  imports Signal_Auth
begin

text \<open>
  The signal server (\<^verbatim>\<open>signal/internal/server/server.go\<close>), which routes messages between
  peers by public key. A stream is a number; the loop of \<^verbatim>\<open>Send\<close> is one step for each received
  message, with the key the stream registered under as its local variable, and the deferred
  function is the step at its end. Whether a stream accepts a message is an argument, and
  the messages written to streams are an output of each step.
\<close>

section \<open>Model\<close>

datatype body_type = OFFER | ANSWER | CANDIDATE | MODE | RELAY

record sig_Message =
  sm_Key :: string
  sm_RemoteKey :: string
  sm_Type :: body_type
  sm_Payload :: string
  sm_Data :: "byte list"

record pendingQueue =
  pq_msgs :: "sig_Message list"
  pq_at :: gtime

record sig_Server =
  sg_streams :: "(string, nat) gomap"
  sg_pending :: "(string, pendingQueue) gomap"
  sg_dropLog :: "(string, gtime) gomap"

definition New_signal :: sig_Server where
  "New_signal = \<lparr>sg_streams = [], sg_pending = [], sg_dropLog = []\<rparr>"

definition pendingTTL :: duration where "pendingTTL = 15 * second"
definition pendingPerPeer :: nat where "pendingPerPeer = 32"
definition dropLogEvery :: duration where "dropLogEvery = 30 * second"

definition takePendingLocked :: "gtime \<Rightarrow> string \<Rightarrow> sig_Server \<Rightarrow> sig_Message list \<times> sig_Server" where
  "takePendingLocked now peerKey s =
     (case go_get (sg_pending s) peerKey of
        None \<Rightarrow> ([], s)
      | Some q \<Rightarrow>
          (if pendingTTL < time_sub now (pq_at q) then [] else pq_msgs q,
           s\<lparr>sg_pending := go_del peerKey (sg_pending s)\<rparr>))"

definition expirePendingLocked :: "gtime \<Rightarrow> sig_Server \<Rightarrow> sig_Server" where
  "expirePendingLocked now s =
     s\<lparr>sg_pending := filter (\<lambda>(k, q). \<not> pendingTTL < time_sub now (pq_at q)) (sg_pending s)\<rparr>"

definition handleAbsentTarget :: "gtime \<Rightarrow> sig_Message \<Rightarrow> sig_Server \<Rightarrow> sig_Server" where
  "handleAbsentTarget now msg s =
     (if sm_Type msg = RELAY then
        (case go_get (sg_dropLog s) (sm_RemoteKey msg) of
           None \<Rightarrow> s\<lparr>sg_dropLog := go_put (sm_RemoteKey msg) now (sg_dropLog s)\<rparr>
         | Some seen \<Rightarrow>
             if dropLogEvery \<le> time_sub now seen
             then s\<lparr>sg_dropLog := go_put (sm_RemoteKey msg) now (sg_dropLog s)\<rparr> else s)
      else
        (let s1 = expirePendingLocked now s;
             msgs = (case go_get (sg_pending s1) (sm_RemoteKey msg) of None \<Rightarrow> [] | Some q \<Rightarrow> pq_msgs q);
             kept = (if pendingPerPeer \<le> length msgs then tl msgs else msgs)
         in s1\<lparr>sg_pending := go_put (sm_RemoteKey msg) \<lparr>pq_msgs = kept @ [msg], pq_at = now\<rparr> (sg_pending s1)\<rparr>))"

type_synonym writes = "(nat \<times> sig_Message) list"

text \<open>Messages to one stream, up to the first that fails.\<close>

fun send_all :: "(sig_Message \<Rightarrow> bool) \<Rightarrow> nat \<Rightarrow> sig_Message list \<Rightarrow> writes" where
  "send_all ok sid [] = []"
| "send_all ok sid (q # qs) = (if ok q then (sid, q) # send_all ok sid qs else [])"

definition route :: "gtime \<Rightarrow> (nat \<Rightarrow> sig_Message \<Rightarrow> bool) \<Rightarrow> sig_Message \<Rightarrow> sig_Server \<Rightarrow> writes \<times> sig_Server" where
  "route now ok msg s =
     (if sm_RemoteKey msg = [] then ([], s)
      else
        (case go_get (sg_streams s) (sm_RemoteKey msg) of
           None \<Rightarrow> ([], handleAbsentTarget now msg s)
         | Some target \<Rightarrow> (if ok target msg then [(target, msg)] else [], s)))"

datatype received = Received sig_Message | Eof | RecvFailed

datatype loop = Continue string | Return "code option"

text \<open>One round of the loop in \<^verbatim>\<open>Send\<close>, for the stream \<open>self\<close> with the verified key of the caller, if
  any, and the key it registered under, empty before the first message.\<close>

definition Send_round ::
  "gtime \<Rightarrow> (nat \<Rightarrow> sig_Message \<Rightarrow> bool) \<Rightarrow> nat \<Rightarrow> string option \<Rightarrow> string \<Rightarrow> received \<Rightarrow> sig_Server
   \<Rightarrow> loop \<times> writes \<times> sig_Server" where
  "Send_round now ok self authKey peerKey recv s =
     (case recv of
        Eof \<Rightarrow> (Return None, [], s)
      | RecvFailed \<Rightarrow> (Return (Some Internal), [], s)
      | Received msg \<Rightarrow>
          if peerKey = [] then
            (if sm_Key msg = [] then (Return (Some InvalidArgument), [], s)
             else if (case authKey of None \<Rightarrow> False | Some k \<Rightarrow> sm_Key msg \<noteq> k)
             then (Return (Some PermissionDenied), [], s)
             else
               (let s1 = s\<lparr>sg_streams := go_put (sm_Key msg) self (sg_streams s)\<rparr>;
                    (queued, s2) = takePendingLocked now (sm_Key msg) s1;
                    (out, s3) = route now ok msg s2
                in (Continue (sm_Key msg), send_all (ok self) self queued @ out, s3)))
          else if sm_Key msg \<noteq> peerKey then (Return (Some PermissionDenied), [], s)
          else (let (out, s1) = route now ok msg s in (Continue peerKey, out, s1)))"

definition Send_end :: "nat \<Rightarrow> string \<Rightarrow> sig_Server \<Rightarrow> sig_Server" where
  "Send_end self peerKey s =
     (if peerKey \<noteq> [] \<and> go_get (sg_streams s) peerKey = Some self
      then s\<lparr>sg_streams := go_del peerKey (sg_streams s)\<rparr> else s)"

lemmas signal_defs =
  New_signal_def pendingTTL_def pendingPerPeer_def dropLogEvery_def takePendingLocked_def
  expirePendingLocked_def handleAbsentTarget_def route_def Send_round_def Send_end_def

declare signal_defs [go_eval]


section \<open>Sessions\<close>

text \<open>All streams ever opened, with the key the interceptor verified, the key registered and
  whether the stream is open; what was received and what was written to streams.\<close>

record session =
  se_auth :: "string option"
  se_key :: string
  se_open :: bool

record sig_world =
  w_server :: sig_Server
  w_sessions :: "(nat, session) gomap"
  w_received :: "(nat \<times> sig_Message) list"
  w_written :: writes

inductive sig_step :: "sig_world \<Rightarrow> sig_world \<Rightarrow> bool" where
  sig_open: "go_get (w_sessions w) sid = None \<Longrightarrow>
    sig_step w (w\<lparr>w_sessions := go_put sid \<lparr>se_auth = auth, se_key = [], se_open = True\<rparr> (w_sessions w)\<rparr>)"
| sig_continue: "go_get (w_sessions w) sid = Some se \<Longrightarrow> se_open se \<Longrightarrow>
    Send_round now ok sid (se_auth se) (se_key se) (Received msg) (w_server w) = (Continue key, out, s) \<Longrightarrow>
    sig_step w (w\<lparr>w_server := s, w_sessions := go_put sid (se\<lparr>se_key := key\<rparr>) (w_sessions w),
      w_received := (sid, msg) # w_received w, w_written := w_written w @ out\<rparr>)"
| sig_return: "go_get (w_sessions w) sid = Some se \<Longrightarrow> se_open se \<Longrightarrow>
    Send_round now ok sid (se_auth se) (se_key se) recv (w_server w) = (Return r, out, s) \<Longrightarrow>
    sig_step w (w\<lparr>w_server := Send_end sid (se_key se) s, w_written := w_written w @ out,
      w_sessions := go_put sid (se\<lparr>se_open := False\<rparr>) (w_sessions w)\<rparr>)"

definition sig_start :: "sig_world \<Rightarrow> bool" where
  "sig_start w \<longleftrightarrow> w = \<lparr>w_server = New_signal, w_sessions = [], w_received = [], w_written = []\<rparr>"


section \<open>Lemmas\<close>

definition held :: "sig_Server \<Rightarrow> string \<Rightarrow> sig_Message list" where
  "held s k = (case go_get (sg_pending s) k of None \<Rightarrow> [] | Some q \<Rightarrow> pq_msgs q)"

lemma held_expire: "go_wf (sg_pending s) \<Longrightarrow> held (expirePendingLocked now s) k \<in> {held s k, []}"
  by (auto simp: held_def expirePendingLocked_def go_get_filter split: option.splits)

lemma wf_expire: "go_wf (sg_pending s) \<Longrightarrow> go_wf (sg_pending (expirePendingLocked now s))"
  by (simp add: expirePendingLocked_def go_wf_filter)

lemma absent_streams [simp]: "sg_streams (handleAbsentTarget now msg s) = sg_streams s"
  by (simp add: handleAbsentTarget_def expirePendingLocked_def Let_def split: option.split)

lemma absent_wf: "go_wf (sg_pending s) \<Longrightarrow> go_wf (sg_pending (handleAbsentTarget now msg s))"
  by (simp add: handleAbsentTarget_def Let_def wf_expire split: option.split)

lemma absent_held:
  assumes "go_wf (sg_pending s)"
  shows "set (held (handleAbsentTarget now msg s) k) \<subseteq>
      set (held s k) \<union> (if k = sm_RemoteKey msg \<and> sm_Type msg \<noteq> RELAY then {msg} else {})"
    and "length (held s k) \<le> pendingPerPeer \<Longrightarrow> length (held (handleAbsentTarget now msg s) k) \<le> pendingPerPeer"
proof -
  let ?s1 = "expirePendingLocked now s"
  have h: "held (handleAbsentTarget now msg s) k =
      (if sm_Type msg = RELAY then held s k
       else if k = sm_RemoteKey msg
       then (if pendingPerPeer \<le> length (held ?s1 k) then tl (held ?s1 k) else held ?s1 k) @ [msg]
       else held ?s1 k)"
    by (simp add: handleAbsentTarget_def held_def Let_def go_get_put split: option.split)
  note e = held_expire [OF assms, of now k]
  show "set (held (handleAbsentTarget now msg s) k) \<subseteq>
      set (held s k) \<union> (if k = sm_RemoteKey msg \<and> sm_Type msg \<noteq> RELAY then {msg} else {})"
    using e by (cases "held s k") (auto simp: h)
  assume "length (held s k) \<le> pendingPerPeer"
  with e show "length (held (handleAbsentTarget now msg s) k) \<le> pendingPerPeer"
    by (auto simp: h pendingPerPeer_def)
qed

lemma take_simps:
  assumes "takePendingLocked now k s = (queued, s')"
  shows "set queued \<subseteq> set (held s k)" "sg_streams s' = sg_streams s"
    "held s' k' = (if k' = k then [] else held s k')" "go_wf (sg_pending s) \<Longrightarrow> go_wf (sg_pending s')"
  using assms
  by (auto simp: takePendingLocked_def held_def go_get_del split: option.splits if_splits)

lemma set_send_all: "x \<in> set (send_all ok sid ms) \<Longrightarrow> fst x = sid \<and> snd x \<in> set ms"
  by (induction ms) (auto split: if_splits)

text \<open>What one accepted message does.\<close>

lemma route_facts:
  assumes "route now ok msg s = (out, s')" "go_wf (sg_pending s)"
  shows "sg_streams s' = sg_streams s" "go_wf (sg_pending s')"
    "set (held s' k) \<subseteq> set (held s k) \<union> (if k = sm_RemoteKey msg \<and> sm_Type msg \<noteq> RELAY then {msg} else {})"
    "length (held s k) \<le> pendingPerPeer \<Longrightarrow> length (held s' k) \<le> pendingPerPeer"
    "x \<in> set out \<Longrightarrow> snd x = msg \<and> sm_RemoteKey msg \<noteq> [] \<and> go_get (sg_streams s) (sm_RemoteKey msg) = Some (fst x)"
proof -
  have c: "s' = s \<or> s' = handleAbsentTarget now msg s"
    using assms(1) by (auto simp: route_def split: if_splits option.splits)
  show "sg_streams s' = sg_streams s" "go_wf (sg_pending s')"
    using c absent_wf [OF assms(2), of now msg] assms(2) by (elim disjE; simp)+
  show "set (held s' k) \<subseteq> set (held s k) \<union> (if k = sm_RemoteKey msg \<and> sm_Type msg \<noteq> RELAY then {msg} else {})"
    using c absent_held(1) [OF assms(2), of now msg k] by (elim disjE) simp_all
  show "length (held s' k) \<le> pendingPerPeer" if "length (held s k) \<le> pendingPerPeer"
    using c absent_held(2) [OF assms(2) that, of now msg] that by (elim disjE) simp_all
  assume "x \<in> set out"
  then show "snd x = msg \<and> sm_RemoteKey msg \<noteq> [] \<and> go_get (sg_streams s) (sm_RemoteKey msg) = Some (fst x)"
    using assms(1) by (auto simp: route_def split: if_splits option.splits)
qed

lemma round_key:
  assumes "Send_round now ok self auth peerKey (Received msg) s = (Continue key, out, s')"
  shows "key = sm_Key msg" "key \<noteq> []" "peerKey = key \<or> peerKey = [] \<and> (auth = None \<or> auth = Some key)"
  using assms by (auto simp: Send_round_def Let_def split: if_splits prod.splits option.splits)

lemma round_cases:
  assumes "Send_round now ok self auth peerKey (Received msg) s = (Continue key, out, s')"
  obtains (again) "peerKey = key" "peerKey \<noteq> []" "route now ok msg s = (out, s')"
  | (first) queued s2 o2 where "peerKey = []"
      "takePendingLocked now key (s\<lparr>sg_streams := go_put key self (sg_streams s)\<rparr>) = (queued, s2)"
      "route now ok msg s2 = (o2, s')" "out = send_all (ok self) self queued @ o2"
proof (cases "peerKey = []")
  case True
  obtain q s2 where t: "takePendingLocked now key (s\<lparr>sg_streams := go_put key self (sg_streams s)\<rparr>) = (q, s2)" by force
  obtain o2 s3 where r: "route now ok msg s2 = (o2, s3)" by force
  have "out = send_all (ok self) self q @ o2 \<and> s3 = s'"
    using assms True t r by (simp add: Send_round_def round_key(1) [OF assms] split: if_splits)
  with t r show thesis by (intro first [OF True, of q s2 o2]) simp_all
next
  case False
  then show thesis
    using assms round_key(1) [OF assms]
    by (intro again) (auto simp: Send_round_def split: if_splits prod.splits)
qed

lemma first_held:
  assumes "takePendingLocked now key (s\<lparr>sg_streams := st\<rparr>) = (queued, s2)" "go_wf (sg_pending s)"
  shows "set queued \<subseteq> set (held s key)" "sg_streams s2 = st" "set (held s2 k) \<subseteq> set (held s k)"
    "length (held s2 k) \<le> length (held s k)" "go_wf (sg_pending s2)"
proof -
  have h: "held (s\<lparr>sg_streams := st\<rparr>) k = held s k" for k by (simp add: held_def)
  note t = take_simps [OF assms(1), unfolded h]
  show "set queued \<subseteq> set (held s key)" "sg_streams s2 = st" "go_wf (sg_pending s2)"
    using t(1,2,4) assms(2) by simp_all
  show "set (held s2 k) \<subseteq> set (held s k)" "length (held s2 k) \<le> length (held s k)"
    unfolding t(3) by simp_all
qed

lemma round_streams:
  assumes "Send_round now ok self auth peerKey (Received msg) s = (Continue key, out, s')" "go_wf (sg_pending s)"
  shows "go_get (sg_streams s') k = (if peerKey = [] \<and> k = key then Some self else go_get (sg_streams s) k)"
  using assms(1)
proof (cases rule: round_cases)
  case again
  then show ?thesis using route_facts(1) [OF again(3) assms(2)] by simp
next
  case (first queued s2 o2)
  then show ?thesis
    using route_facts(1) [OF first(3) first_held(5) [OF first(2) assms(2)]] first_held(2) [OF first(2) assms(2)]
    by (simp add: go_get_put)
qed

lemma round_held:
  assumes "Send_round now ok self auth peerKey (Received msg) s = (Continue key, out, s')" "go_wf (sg_pending s)"
  shows "go_wf (sg_pending s')"
    "set (held s' k) \<subseteq> set (held s k) \<union> (if k = sm_RemoteKey msg \<and> sm_Type msg \<noteq> RELAY then {msg} else {})"
    "length (held s k) \<le> pendingPerPeer \<Longrightarrow> length (held s' k) \<le> pendingPerPeer"
proof -
  from assms(1) obtain s2 o2 where s2: "route now ok msg s2 = (o2, s')" "go_wf (sg_pending s2)"
    "set (held s2 k) \<subseteq> set (held s k)" "length (held s2 k) \<le> length (held s k)"
  proof (cases rule: round_cases)
    case again
    with assms(2) show thesis by (intro that [OF again(3)]) simp_all
  next
    case (first queued s2 o2)
    note f = first_held [OF first(2) assms(2)]
    show thesis by (rule that [OF first(3) f(5) f(3) f(4)])
  qed
  note r = route_facts [OF s2(1,2)]
  show "go_wf (sg_pending s')" by (rule r(2))
  show "set (held s' k) \<subseteq> set (held s k) \<union> (if k = sm_RemoteKey msg \<and> sm_Type msg \<noteq> RELAY then {msg} else {})"
    using r(3) [of k] s2(3) by blast
  show "length (held s' k) \<le> pendingPerPeer" if "length (held s k) \<le> pendingPerPeer"
    using r(4) [of k] s2(4) that by simp
qed

lemma round_out:
  assumes "Send_round now ok self auth peerKey (Received msg) s = (Continue key, out, s')" "go_wf (sg_pending s)"
    "x \<in> set out"
  shows "fst x = self \<and> peerKey = [] \<and> snd x \<in> set (held s key)
       \<or> snd x = msg \<and> sm_RemoteKey msg \<noteq> [] \<and> go_get (sg_streams s') (sm_RemoteKey msg) = Some (fst x)"
  using assms(1)
proof (cases rule: round_cases)
  case again
  note r = route_facts [OF again(3) assms(2)]
  from r(5) [OF assms(3)] show ?thesis by (simp add: r(1))
next
  case (first queued s2 o2)
  note f = first_held [OF first(2) assms(2)]
  note r = route_facts [OF first(3) f(5)]
  from assms(3) first(4) consider "x \<in> set (send_all (ok self) self queued)" | "x \<in> set o2" by auto
  then show ?thesis
  proof cases
    case 1
    with set_send_all [OF 1] f(1) first(1) show ?thesis by blast
  next
    case 2
    from r(5) [OF 2] show ?thesis by (simp add: r(1))
  qed
qed

lemma round_return:
  assumes "Send_round now ok self auth peerKey recv s = (Return r, out, s')"
  shows "out = []" "s' = s"
  using assms by (auto simp: Send_round_def Let_def split: received.splits if_splits prod.splits)


subsection \<open>The invariant of all sessions\<close>

text \<open>Registered streams are open and registered under their own key; a session with a verified
  key uses no other; a held message is signalling for the key it is held under; every
  message held or written was received, from a session registered under its sender key,
  and is written only to sessions registered under its recipient key.\<close>

definition has_key :: "(nat, session) gomap \<Rightarrow> nat \<Rightarrow> string \<Rightarrow> bool" where
  "has_key ss sid k \<longleftrightarrow> k \<noteq> [] \<and> (\<exists>se. go_get ss sid = Some se \<and> se_key se = k)"

definition sig_inv :: "sig_world \<Rightarrow> bool" where
  "sig_inv w \<longleftrightarrow>
     go_wf (sg_pending (w_server w))
     \<and> (\<forall>k sid. go_get (sg_streams (w_server w)) k = Some sid \<longrightarrow>
          k \<noteq> [] \<and> (\<exists>se. go_get (w_sessions w) sid = Some se \<and> se_open se \<and> se_key se = k))
     \<and> (\<forall>sid se. go_get (w_sessions w) sid = Some se \<longrightarrow>
          se_key se = [] \<or> se_auth se = None \<or> se_auth se = Some (se_key se))
     \<and> (\<forall>k. length (held (w_server w) k) \<le> pendingPerPeer)
     \<and> (\<forall>k m. m \<in> set (held (w_server w) k) \<longrightarrow>
          sm_RemoteKey m = k \<and> sm_Type m \<noteq> RELAY \<and> m \<in> snd ` set (w_received w))
     \<and> (\<forall>sid m. (sid, m) \<in> set (w_received w) \<longrightarrow> has_key (w_sessions w) sid (sm_Key m))
     \<and> (\<forall>sid m. (sid, m) \<in> set (w_written w) \<longrightarrow>
          has_key (w_sessions w) sid (sm_RemoteKey m) \<and> m \<in> snd ` set (w_received w))"

lemma sig_invD:
  assumes "sig_inv w"
  shows "go_wf (sg_pending (w_server w))"
    and "go_get (sg_streams (w_server w)) k = Some sid \<Longrightarrow>
       k \<noteq> [] \<and> (\<exists>se. go_get (w_sessions w) sid = Some se \<and> se_open se \<and> se_key se = k)"
    and "go_get (w_sessions w) sid = Some se \<Longrightarrow> se_key se = [] \<or> se_auth se = None \<or> se_auth se = Some (se_key se)"
    and "length (held (w_server w) k) \<le> pendingPerPeer"
    and "m \<in> set (held (w_server w) k) \<Longrightarrow>
       sm_RemoteKey m = k \<and> sm_Type m \<noteq> RELAY \<and> m \<in> snd ` set (w_received w)"
    and "(sid, m) \<in> set (w_received w) \<Longrightarrow> has_key (w_sessions w) sid (sm_Key m)"
    and "(sid, m) \<in> set (w_written w) \<Longrightarrow>
       has_key (w_sessions w) sid (sm_RemoteKey m) \<and> m \<in> snd ` set (w_received w)"
  using assms unfolding sig_inv_def by blast+

lemma has_key_put:
  "has_key ss sid k \<Longrightarrow> (\<And>old. go_get ss sid' = Some old \<Longrightarrow> se_key old = [] \<or> se_key new = se_key old) \<Longrightarrow>
     has_key (go_put sid' new ss) sid k"
  by (auto simp: has_key_def go_get_put)

lemma sig_inv_open:
  assumes "sig_inv w" "go_get (w_sessions w) sid = None"
  shows "sig_inv (w\<lparr>w_sessions := go_put sid \<lparr>se_auth = auth, se_key = [], se_open = True\<rparr> (w_sessions w)\<rparr>)"
proof -
  note D = sig_invD [OF assms(1)]
  have k: "has_key (go_put sid \<lparr>se_auth = auth, se_key = [], se_open = True\<rparr> (w_sessions w)) i x"
    if "has_key (w_sessions w) i x" for i x
    using that assms(2) by (intro has_key_put) simp_all
  have st: "\<exists>se. go_get (go_put sid \<lparr>se_auth = auth, se_key = [], se_open = True\<rparr> (w_sessions w)) i = Some se \<and> se_open se \<and> se_key se = x"
    if "go_get (sg_streams (w_server w)) x = Some i" for x i
    using D(2) [OF that] assms(2) by (auto simp: go_get_put)
  show ?thesis
    unfolding sig_inv_def
    using D(1,4) D(2) D(3) D(5) D(6) D(7) k st by (simp add: go_get_put)
qed

lemma sig_inv_continue:
  assumes inv: "sig_inv w" and se: "go_get (w_sessions w) sid = Some se" "se_open se"
    and r: "Send_round now ok sid (se_auth se) (se_key se) (Received msg) (w_server w) = (Continue key, out, s)"
  shows "sig_inv (w\<lparr>w_server := s, w_sessions := go_put sid (se\<lparr>se_key := key\<rparr>) (w_sessions w),
      w_received := (sid, msg) # w_received w, w_written := w_written w @ out\<rparr>)" (is "sig_inv ?w")
proof -
  note D = sig_invD [OF inv]
  note K = round_key [OF r]
  note H = round_held [OF r D(1)]
  let ?ss = "go_put sid (se\<lparr>se_key := key\<rparr>) (w_sessions w)"
  have keep: "has_key ?ss i x" if "has_key (w_sessions w) i x" for i x
    using that K(3) by (intro has_key_put) (auto simp: se)
  have self: "has_key ?ss sid key" using K(2) by (simp add: has_key_def)
  have streams: "k \<noteq> [] \<and> (\<exists>x. go_get ?ss i = Some x \<and> se_open x \<and> se_key x = k)"
    if "go_get (sg_streams s) k = Some i" for k i
  proof (cases "se_key se = [] \<and> k = key")
    case True
    then show ?thesis using that round_streams [OF r D(1), of k] K(2) se(2) by simp
  next
    case False
    then have "go_get (sg_streams (w_server w)) k = Some i"
      using that round_streams [OF r D(1), of k] by (simp split: if_splits)
    from D(2) [OF this] show ?thesis using se K(3) by (auto simp: go_get_put)
  qed
  have auth: "se_key x = [] \<or> se_auth x = None \<or> se_auth x = Some (se_key x)" if "go_get ?ss i = Some x" for i x
  proof (cases "i = sid")
    case True
    then have "x = se\<lparr>se_key := key\<rparr>" using that by simp
    with D(3) [OF se(1)] K(2,3) show ?thesis by auto
  next
    case False
    then show ?thesis using D(3) [of i x] that by (simp add: go_get_put)
  qed
  have held: "sm_RemoteKey m = k \<and> sm_Type m \<noteq> RELAY \<and> m \<in> snd ` set ((sid, msg) # w_received w)"
    if "m \<in> set (held s k)" for m k
    using H(2) [of k] that D(5) [of m k] by (auto split: if_splits)
  have out: "has_key ?ss i (sm_RemoteKey m) \<and> m \<in> snd ` set ((sid, msg) # w_received w)"
    if "(i, m) \<in> set out" for i m
    using round_out [OF r D(1) that]
  proof
    assume "fst (i, m) = sid \<and> se_key se = [] \<and> snd (i, m) \<in> set (held (w_server w) key)"
    then show ?thesis using D(5) [of m key] self by auto
  next
    assume "snd (i, m) = msg \<and> sm_RemoteKey msg \<noteq> [] \<and> go_get (sg_streams s) (sm_RemoteKey msg) = Some (fst (i, m))"
    then show ?thesis using streams [of "sm_RemoteKey msg" i] by (auto simp: has_key_def)
  qed
  have recvd: "has_key ?ss i (sm_Key m)" if "(i, m) \<in> set ((sid, msg) # w_received w)" for i m
    using that D(6) [of i m] keep self K(1) by auto
  have written: "has_key ?ss i (sm_RemoteKey m) \<and> m \<in> snd ` set ((sid, msg) # w_received w)"
    if "(i, m) \<in> set (w_written w @ out)" for i m
    using that out [of i m] D(7) [of i m] keep by auto
  have len: "length (held s k) \<le> pendingPerPeer" for k by (rule H(3) [OF D(4)])
  show ?thesis
    unfolding sig_inv_def
    using H(1) streams auth len held recvd written by simp
qed

lemma Send_end_fields [simp]:
  "sg_pending (Send_end sid k s) = sg_pending s" "held (Send_end sid k s) = held s"
  by (simp_all add: Send_end_def held_def fun_eq_iff)

lemma sig_inv_return:
  assumes inv: "sig_inv w" and se: "go_get (w_sessions w) sid = Some se"
  shows "sig_inv (w\<lparr>w_server := Send_end sid (se_key se) (w_server w),
      w_sessions := go_put sid (se\<lparr>se_open := False\<rparr>) (w_sessions w)\<rparr>)"
proof -
  note D = sig_invD [OF inv]
  let ?ss = "go_put sid (se\<lparr>se_open := False\<rparr>) (w_sessions w)"
  have keep: "has_key ?ss i x" if "has_key (w_sessions w) i x" for i x
    using that by (intro has_key_put) (auto simp: se)
  have streams: "k \<noteq> [] \<and> (\<exists>x. go_get ?ss i = Some x \<and> se_open x \<and> se_key x = k)"
    if "go_get (sg_streams (Send_end sid (se_key se) (w_server w))) k = Some i" for k i
  proof -
    have k: "go_get (sg_streams (w_server w)) k = Some i"
      using that by (auto simp: Send_end_def go_get_del split: if_splits)
    have "i \<noteq> sid"
    proof
      assume "i = sid"
      with D(2) [OF k] se have "se_key se = k" "k \<noteq> []" by auto
      with that k \<open>i = sid\<close> show False by (simp add: Send_end_def)
    qed
    with D(2) [OF k] show ?thesis by (auto simp: go_get_put)
  qed
  have auth: "se_key x = [] \<or> se_auth x = None \<or> se_auth x = Some (se_key x)" if "go_get ?ss i = Some x" for i x
    using that D(3) [OF se] D(3) [of i x] by (auto simp: go_get_put split: if_splits)
  show ?thesis
    unfolding sig_inv_def using D(1,4) D(5) D(6) D(7) streams auth keep by simp
qed

interpretation sig: invariant_system sig_start sig_step sig_inv
proof unfold_locales
  fix w w'
  assume "sig_step w w'" "sig_inv w"
  then show "sig_inv w'"
  proof (cases rule: sig_step.cases)
    case (sig_open sid auth)
    then show ?thesis using sig_inv_open [OF \<open>sig_inv w\<close>] by simp
  next
    case (sig_continue sid se now ok msg key out s)
    then show ?thesis using sig_inv_continue [OF \<open>sig_inv w\<close>] by simp
  next
    case (sig_return sid se now ok recv r out s)
    then show ?thesis using sig_inv_return [OF \<open>sig_inv w\<close>] round_return [OF sig_return(4)] by simp
  qed
qed (simp add: sig_start_def sig_inv_def New_signal_def held_def)


subsection \<open>Messages held for an absent peer\<close>

definition lastn :: "nat \<Rightarrow> 'a list \<Rightarrow> 'a list" where
  "lastn n xs = drop (length xs - n) xs"

lemma lastn_snoc:
  assumes "0 < n"
  shows "(if n \<le> length (lastn n xs) then tl (lastn n xs) else lastn n xs) @ [x] = lastn n (xs @ [x])"
proof (cases "n \<le> length xs")
  case True
  then have "tl (drop (length xs - n) xs) = drop (Suc (length xs) - n) xs"
    by (simp add: tl_drop drop_Suc Suc_diff_le)
  with True assms show ?thesis by (simp add: lastn_def)
qed (simp add: lastn_def)

definition for_key :: "string \<Rightarrow> sig_Message \<Rightarrow> bool" where
  "for_key k m \<longleftrightarrow> sm_RemoteKey m = k \<and> sm_Type m \<noteq> RELAY"

text \<open>Within the lifetime of a queue nothing expires.\<close>

definition fresh_queues :: "gtime \<Rightarrow> sig_Server \<Rightarrow> bool" where
  "fresh_queues t0 s \<longleftrightarrow> go_wf (sg_pending s) \<and>
     (\<forall>k q. go_get (sg_pending s) k = Some q \<longrightarrow> t0 \<le> pq_at q \<and> pq_at q \<le> t0 + pendingTTL)"

lemma in_time:
  "t0 \<le> a \<Longrightarrow> now \<le> t0 + pendingTTL \<Longrightarrow> \<not> pendingTTL < time_sub now a"
  by (simp add: time_sub_def pendingTTL_def time_defs)

lemma expire_fresh:
  assumes "fresh_queues t0 s" "now \<le> t0 + pendingTTL"
  shows "expirePendingLocked now s = s"
proof -
  have "\<not> pendingTTL < time_sub now (pq_at q)" if "(k, q) \<in> set (sg_pending s)" for k q
    using assms that in_time [of t0 "pq_at q" now] go_get_in_set [of "sg_pending s" k q]
    by (auto simp: fresh_queues_def)
  then have "filter (\<lambda>(k, q). \<not> pendingTTL < time_sub now (pq_at q)) (sg_pending s) = sg_pending s"
    by (auto intro!: filter_True)
  then show ?thesis by (simp add: expirePendingLocked_def)
qed

lemma absent_fresh:
  assumes "fresh_queues t0 s" "t0 \<le> now" "now \<le> t0 + pendingTTL"
    "held s k = lastn pendingPerPeer ms"
  shows "fresh_queues t0 (handleAbsentTarget now m s)"
    "held (handleAbsentTarget now m s) k = lastn pendingPerPeer (ms @ filter (for_key k) [m])"
proof -
  note e = expire_fresh [OF assms(1,3)]
  show "fresh_queues t0 (handleAbsentTarget now m s)"
    using assms(1-3)
    by (auto simp: handleAbsentTarget_def e Let_def fresh_queues_def go_get_put split: option.splits if_splits)
  have h: "held (handleAbsentTarget now m s) k =
      (if for_key k m then (if pendingPerPeer \<le> length (held s k) then tl (held s k) else held s k) @ [m] else held s k)"
    by (auto simp: handleAbsentTarget_def e held_def Let_def for_key_def go_get_put split: option.split)
  show "held (handleAbsentTarget now m s) k = lastn pendingPerPeer (ms @ filter (for_key k) [m])"
    using lastn_snoc [of pendingPerPeer ms m] unfolding h assms(4) by (simp add: pendingPerPeer_def)
qed

lemma absent_run:
  assumes "fresh_queues t0 s" "\<forall>(t, m) \<in> set xs. t0 \<le> t \<and> t \<le> t0 + pendingTTL"
    "held s k = lastn pendingPerPeer ms"
  shows "fresh_queues t0 (fold (\<lambda>(t, m). handleAbsentTarget t m) xs s)
    \<and> held (fold (\<lambda>(t, m). handleAbsentTarget t m) xs s) k
        = lastn pendingPerPeer (ms @ filter (for_key k) (map snd xs))"
  using assms
proof (induction xs arbitrary: s ms)
  case (Cons x xs)
  obtain t m where x: "x = (t, m)" by force
  have t: "t0 \<le> t" "t \<le> t0 + pendingTTL" using Cons.prems(2) by (auto simp: x)
  note a = absent_fresh [OF Cons.prems(1) t Cons.prems(3)]
  from Cons.IH [OF a(1) _ a(2)] Cons.prems(2) show ?case by (simp add: x)
qed simp

lemma send_all_ok: "send_all (\<lambda>_. True) sid ms = map (Pair sid) ms"
  by (induction ms) auto


section \<open>Properties\<close>

definition example_msg :: "string \<Rightarrow> string \<Rightarrow> sig_Message" where
  "example_msg k r = \<lparr>sm_Key = k, sm_RemoteKey = r, sm_Type = OFFER, sm_Payload = ''sdp'', sm_Data = []\<rparr>"

definition example_sessions :: "(nat, session) gomap" where
  "example_sessions = [(1, \<lparr>se_auth = Some ''a'', se_key = ''a'', se_open = True\<rparr>),
     (2, \<lparr>se_auth = Some ''b'', se_key = ''b'', se_open = True\<rparr>)]"

definition example_world :: sig_world where
  "example_world = \<lparr>w_server = New_signal\<lparr>sg_streams := [(''b'', 2), (''a'', 1)]\<rparr>, w_sessions = example_sessions,
     w_received = [(1, example_msg ''a'' ''b''), (2, example_msg ''b'' [])],
     w_written = [(2, example_msg ''a'' ''b'')]\<rparr>"

lemma example_world_reach: "reach sig_start sig_step example_world"
proof -
  let ?w0 = "\<lparr>w_server = New_signal, w_sessions = [], w_received = [], w_written = []\<rparr>"
  let ?w1 = "?w0\<lparr>w_sessions := go_put 1 \<lparr>se_auth = Some ''a'', se_key = [], se_open = True\<rparr> []\<rparr>"
  let ?w2 = "?w1\<lparr>w_sessions := go_put 2 \<lparr>se_auth = Some ''b'', se_key = [], se_open = True\<rparr> (w_sessions ?w1)\<rparr>"
  let ?s3 = "New_signal\<lparr>sg_streams := [(''b'', 2)]\<rparr>"
  let ?w3 = "?w2\<lparr>w_server := ?s3, w_sessions := go_put 2 (\<lparr>se_auth = Some ''b'', se_key = [], se_open = True\<rparr>\<lparr>se_key := ''b''\<rparr>) (w_sessions ?w2),
      w_received := (2, example_msg ''b'' []) # w_received ?w2, w_written := w_written ?w2 @ []\<rparr>"
  have r0: "reach sig_start sig_step ?w0" by (rule reach_init) (simp add: sig_start_def)
  have r1: "reach sig_start sig_step ?w1"
    using reach_step [of sig_start sig_step ?w0 ?w1] r0 sig_open [of ?w0 1 "Some ''a''"] by simp
  have r2: "reach sig_start sig_step ?w2"
    using reach_step [of sig_start sig_step ?w1 ?w2] r1 sig_open [of ?w1 2 "Some ''b''"] by (simp add: go_get_put)
  have e3: "Send_round 0 (\<lambda>_ _. True) 2 (Some ''b'') [] (Received (example_msg ''b'' [])) New_signal = (Continue ''b'', [], ?s3)"
    by (simp add: example_msg_def go_eval)
  have r3: "reach sig_start sig_step ?w3"
    using reach_step [of sig_start sig_step ?w2 ?w3] r2
      sig_continue [of ?w2 2 "\<lparr>se_auth = Some ''b'', se_key = [], se_open = True\<rparr>" 0 "\<lambda>_ _. True" "example_msg ''b'' []" "''b''" "[]" ?s3]
      e3 by simp
  have e4: "Send_round 0 (\<lambda>_ _. True) 1 (Some ''a'') [] (Received (example_msg ''a'' ''b'')) ?s3
      = (Continue ''a'', [(2, example_msg ''a'' ''b'')], New_signal\<lparr>sg_streams := [(''b'', 2), (''a'', 1)]\<rparr>)"
    by (simp add: example_msg_def go_eval)
  have "sig_step ?w3 example_world"
    using sig_continue [of ?w3 1 "\<lparr>se_auth = Some ''a'', se_key = [], se_open = True\<rparr>" 0 "\<lambda>_ _. True" "example_msg ''a'' ''b''"
        "''a''" "[(2, example_msg ''a'' ''b'')]" "New_signal\<lparr>sg_streams := [(''b'', 2), (''a'', 1)]\<rparr>"] e4
    by (simp add: example_world_def example_sessions_def go_put_def go_get_def)
  with r3 show ?thesis by (rule reach_step)
qed

text \<open>C20. Nobody receives or forges the messages of another peer: when every stream went through
  the interceptor, each message that was ever written to a stream reached a session whose
  verified key is the recipient of the message, and it had been received from a session
  whose verified key is its sender.\<close>

theorem signal_no_impersonation:
  assumes "reach sig_start sig_step w" "(sid, m) \<in> set (w_written w)"
    "\<forall>i se. go_get (w_sessions w) i = Some se \<longrightarrow> se_auth se \<noteq> None"
  shows "(\<exists>se. go_get (w_sessions w) sid = Some se \<and> se_auth se = Some (sm_RemoteKey m))
    \<and> (\<exists>i se. (i, m) \<in> set (w_received w) \<and> go_get (w_sessions w) i = Some se \<and> se_auth se = Some (sm_Key m))"
proof -
  note D = sig_invD [OF sig.reachable_inv [OF assms(1)]]
  have auth: "\<exists>se. go_get (w_sessions w) i = Some se \<and> se_auth se = Some k" if h: "has_key (w_sessions w) i k" for i k
  proof -
    obtain se where se: "go_get (w_sessions w) i = Some se" "se_key se = k" "k \<noteq> []"
      using h by (auto simp: has_key_def)
    with D(3) [OF se(1)] assms(3) show ?thesis by auto
  qed
  from D(7) [OF assms(2)] obtain i where "(i, m) \<in> set (w_received w)" "has_key (w_sessions w) sid (sm_RemoteKey m)"
    by auto
  with auth D(6) [of i m] show ?thesis by blast
qed

theorem signal_no_impersonation_witness:
  "\<exists>i se. (i, example_msg ''a'' ''b'') \<in> set (w_received example_world)
     \<and> go_get (w_sessions example_world) i = Some se \<and> se_auth se = Some ''a''"
proof -
  have "(2, example_msg ''a'' ''b'') \<in> set (w_written example_world)" by (simp add: example_world_def)
  moreover have "se_auth se \<noteq> None" if "go_get (w_sessions example_world) i = Some se" for i se
    using that by (auto simp: example_world_def example_sessions_def go_get_def split: if_splits)
  ultimately have "\<exists>i se. (i, example_msg ''a'' ''b'') \<in> set (w_received example_world)
     \<and> go_get (w_sessions example_world) i = Some se \<and> se_auth se = Some (sm_Key (example_msg ''a'' ''b''))"
    using signal_no_impersonation [OF example_world_reach] by blast
  then show ?thesis by (simp add: example_msg_def)
qed



end
