(* ===== verification/Wg_Peers.thy ===== *)
theory Wg_Peers
  imports Signal_Server
begin

text \<open>
  How the agent reaches its peers: the connection through the signal server
  (\<^verbatim>\<open>client/internal/relay/conn.go\<close>, \<^verbatim>\<open>client/internal/signalclient/client.go\<close>), the transport that
  WireGuard sends through (\<^verbatim>\<open>client/internal/wgmgr/bind.go\<close>) and the configuration text given
  to the device (\<^verbatim>\<open>client/internal/wgmgr/wireguard.go\<close>). The device itself is a parameter with the
  documented laws of its configuration protocol (\<open>wg_uapi\<close>). Send paths are numbers, the identity
  of the object that was registered.
\<close>

section \<open>Connection through the signal server\<close>

text \<open>\<^verbatim>\<open>Message\<close> as the client builds it: the sender is always the key of the client.\<close>

record sig_Client =
  sc_selfKey :: string
  sc_connected :: bool

definition sc_Send :: "string \<Rightarrow> body_type \<Rightarrow> byte list \<Rightarrow> sig_Client \<Rightarrow> sig_Message option" where
  "sc_Send remoteKey typ data c =
     (if \<not> sc_connected c then None
      else Some \<lparr>sm_Key = sc_selfKey c, sm_RemoteKey = remoteKey, sm_Type = typ, sm_Payload = [], sm_Data = data\<rparr>)"

definition sc_hello :: "sig_Client \<Rightarrow> sig_Message" where
  "sc_hello c = \<lparr>sm_Key = sc_selfKey c, sm_RemoteKey = [], sm_Type = MODE, sm_Payload = [], sm_Data = []\<rparr>"

record relay_Conn =
  rc_selfKey :: string
  rc_peerKey :: string
  rc_ip :: u32
  rc_closed :: bool

text \<open>The address of a connection: the counter is 32 bits wide, the address keeps 16 of them.\<close>

definition relay_ip :: "u32 \<Rightarrow> u32" where
  "relay_ip n = quad 127 127 (unat (ucast (drop_bit 8 n) :: byte)) (unat (ucast n :: byte))"

definition New_relay :: "string \<Rightarrow> string \<Rightarrow> u32 \<Rightarrow> relay_Conn \<times> u32" where
  "New_relay selfKey peerKey counter =
     (let n = counter + 1
      in (\<lparr>rc_selfKey = selfKey, rc_peerKey = peerKey, rc_ip = relay_ip n, rc_closed = False\<rparr>, n))"

definition Endpoint :: "relay_Conn \<Rightarrow> string" where
  "Endpoint c = show_v4 (rc_ip c) @ '':'' @ itoa 1"

definition Write_relay :: "byte list \<Rightarrow> sig_Client \<Rightarrow> relay_Conn \<Rightarrow> sig_Message option" where
  "Write_relay b sc c = (if rc_closed c then None else sc_Send (rc_peerKey c) RELAY b sc)"

definition Close_relay :: "relay_Conn \<Rightarrow> relay_Conn" where
  "Close_relay c = c\<lparr>rc_closed := True\<rparr>"


section \<open>The transport of WireGuard\<close>

text \<open>A \<^verbatim>\<open>netip.AddrPort\<close> that may be the zero value is an option.\<close>

type_synonym addr_port = "addr \<times> u16"

record RelayBind =
  rb_endpoints :: "(addr_port, nat) gomap"
  rb_relayCh :: "(byte list \<times> addr_port option) list"
  rb_done :: bool

definition NewRelayBind :: RelayBind where
  "NewRelayBind = \<lparr>rb_endpoints = [], rb_relayCh = [], rb_done = False\<rparr>"

definition SetEndpoint :: "string \<Rightarrow> nat \<Rightarrow> RelayBind \<Rightarrow> RelayBind option" where
  "SetEndpoint endpointStr c b =
     map_option (\<lambda>ap. b\<lparr>rb_endpoints := go_put ap c (rb_endpoints b)\<rparr>) (ParseAddrPort endpointStr)"

text \<open>A call that has to wait for room in the channel is \<open>None\<close>; when the bind is closed and there
  is room, \<^verbatim>\<open>select\<close> may take either branch, as \<open>prefer_done\<close> says.\<close>

definition ReceiveFromRelay :: "bool \<Rightarrow> byte list \<Rightarrow> addr_port option \<Rightarrow> RelayBind \<Rightarrow> RelayBind option" where
  "ReceiveFromRelay prefer_done data src b =
     (if rb_done b \<and> (prefer_done \<or> 512 \<le> length (rb_relayCh b)) then Some b
      else if 512 \<le> length (rb_relayCh b) then None
      else Some (b\<lparr>rb_relayCh := rb_relayCh b @ [(data, src)]\<rparr>))"

definition receiveRelayed :: "bool \<Rightarrow> RelayBind \<Rightarrow> ((byte list \<times> addr_port option) option \<times> RelayBind) option" where
  "receiveRelayed prefer_done b =
     (if rb_done b \<and> (prefer_done \<or> rb_relayCh b = []) then Some (None, b)
      else
        (case rb_relayCh b of
           [] \<Rightarrow> None
         | pkt # rest \<Rightarrow> Some (Some pkt, b\<lparr>rb_relayCh := rest\<rparr>)))"

definition Open_bind :: "RelayBind \<Rightarrow> RelayBind" where
  "Open_bind b = b\<lparr>rb_done := False\<rparr>"

definition Close_bind :: "RelayBind \<Rightarrow> RelayBind" where
  "Close_bind b = b\<lparr>rb_done := True\<rparr>"

text \<open>The packets written, with the send path they were given to, and whether all were.\<close>

fun send_bufs :: "(byte list \<Rightarrow> bool) \<Rightarrow> nat \<Rightarrow> byte list list \<Rightarrow> (nat \<times> byte list) list \<times> bool" where
  "send_bufs ok c [] = ([], True)"
| "send_bufs ok c (buf # bufs) =
     (if ok buf then (case send_bufs ok c bufs of (out, r) \<Rightarrow> ((c, buf) # out, r)) else ([], False))"

definition Send_bind :: "(byte list \<Rightarrow> bool) \<Rightarrow> byte list list \<Rightarrow> addr_port option \<Rightarrow> RelayBind \<Rightarrow> (nat \<times> byte list) list \<times> bool" where
  "Send_bind ok bufs ep b =
     (case Option.bind ep (go_get (rb_endpoints b)) of None \<Rightarrow> ([], False) | Some c \<Rightarrow> send_bufs ok c bufs)"


section \<open>Configuration of the device\<close>

text \<open>Base64 with the standard alphabet and padding.\<close>

definition std_char :: "char \<Rightarrow> char" where
  "std_char c = (if c = CHR ''+'' then CHR ''-'' else if c = CHR ''/'' then CHR ''_''
     else if c = CHR ''-'' \<or> c = CHR ''_'' then CHR ''!'' else c)"

definition Std_DecodeString :: "string \<Rightarrow> byte list option" where
  "Std_DecodeString s =
     (let t = filter (\<lambda>c. c \<noteq> CHR 0x0A \<and> c \<noteq> CHR 0x0D) s;
          body = takeWhile (\<lambda>c. c \<noteq> CHR ''='') t;
          pad = drop (length body) t
      in if pad = replicate ((4 - length body mod 4) mod 4) CHR ''='' \<and> length body mod 4 \<noteq> 1
         then Option.bind (all_some (map (\<lambda>c. b64_val (std_char c)) body)) b64_quads
         else None)"

definition pubHex :: "string \<Rightarrow> string option" where
  "pubHex pubKeyB64 = map_option EncodeToString (Std_DecodeString pubKeyB64)"

definition conf_line :: "string \<Rightarrow> string \<Rightarrow> string" where
  "conf_line key v = key @ ''='' @ v @ [CHR 0x0A]"

definition peer_conf :: "string \<Rightarrow> string list \<Rightarrow> string \<Rightarrow> string" where
  "peer_conf hx allowedIPs endpoint =
     conf_line ''public_key'' hx @ concat (map (conf_line ''allowed_ip'') allowedIPs)
     @ (if endpoint \<noteq> [] then conf_line ''endpoint'' endpoint else [])
     @ conf_line ''persistent_keepalive_interval'' ''25''"

definition endpoint_conf :: "string \<Rightarrow> string \<Rightarrow> string" where
  "endpoint_conf hx endpoint = conf_line ''public_key'' hx @ conf_line ''endpoint'' endpoint"

definition remove_conf :: "string \<Rightarrow> string" where
  "remove_conf hx = conf_line ''public_key'' hx @ conf_line ''remove'' ''true''"

definition UpsertPeer :: "string \<Rightarrow> string list \<Rightarrow> string \<Rightarrow> string option" where
  "UpsertPeer pubKeyB64 allowedIPs endpoint =
     map_option (\<lambda>hx. peer_conf hx allowedIPs endpoint) (pubHex pubKeyB64)"

definition SetPeerEndpoint :: "string \<Rightarrow> string \<Rightarrow> string option" where
  "SetPeerEndpoint pubKeyB64 endpoint = map_option (\<lambda>hx. endpoint_conf hx endpoint) (pubHex pubKeyB64)"

definition RemovePeer :: "string \<Rightarrow> string option" where
  "RemovePeer pubKeyB64 = map_option remove_conf (pubHex pubKeyB64)"


text \<open>The network that an allowed address stands for.\<close>

definition wg_net :: "string \<Rightarrow> ipnet option" where
  "wg_net c = (case parse_prefix c of None \<Rightarrow> None | Some (Prefix a n) \<Rightarrow> Some (ipnet_of a n))"

definition wg_nets :: "string list \<Rightarrow> ipnet set" where
  "wg_nets ips = {n. \<exists>c \<in> set ips. wg_net c = Some n}"

definition one_line :: "string \<Rightarrow> bool" where
  "one_line s \<longleftrightarrow> CHR 0x0A \<notin> set s"

text \<open>
  The documented behaviour of the configuration protocol: a peer that is named is created when it is
  new, an allowed network is added to the peer it is listed under and taken from the peer that had
  it, and a removed peer loses its networks. \<open>peers\<close> and \<open>owner\<close> read the device: its peers, and
  the peer that a network is routed to. \<open>remote\<close> are the keys the device takes as remote peers.
\<close>

definition wg_uapi ::
  "(string \<Rightarrow> bool) \<Rightarrow> (string \<Rightarrow> 'd \<Rightarrow> 'd option) \<Rightarrow> ('d \<Rightarrow> string set) \<Rightarrow> ('d \<Rightarrow> ipnet \<Rightarrow> string option) \<Rightarrow> bool" where
  "wg_uapi remote ipc peers owner \<longleftrightarrow>
     (\<forall>hx ips ep d. remote hx \<and> (\<forall>c \<in> set ips. one_line c \<and> wg_net c \<noteq> None) \<and> (ep = [] \<or> ParseAddrPort ep \<noteq> None \<and> one_line ep) \<longrightarrow>
        (\<exists>d'. ipc (peer_conf hx ips ep) d = Some d' \<and> peers d' = insert hx (peers d)
           \<and> owner d' = (\<lambda>n. if n \<in> wg_nets ips then Some hx else owner d n)))
   \<and> (\<forall>hx ep d. remote hx \<and> ParseAddrPort ep \<noteq> None \<and> one_line ep \<longrightarrow>
        (\<exists>d'. ipc (endpoint_conf hx ep) d = Some d' \<and> peers d' = insert hx (peers d) \<and> owner d' = owner d))
   \<and> (\<forall>hx d. remote hx \<longrightarrow>
        (\<exists>d'. ipc (remove_conf hx) d = Some d' \<and> peers d' = peers d - {hx}
           \<and> owner d' = (\<lambda>n. if owner d n = Some hx then None else owner d n)))"

lemmas wg_defs =
  sc_Send_def sc_hello_def relay_ip_def New_relay_def Endpoint_def Write_relay_def Close_relay_def
  NewRelayBind_def SetEndpoint_def ReceiveFromRelay_def receiveRelayed_def Open_bind_def Close_bind_def
  Send_bind_def std_char_def Std_DecodeString_def pubHex_def conf_line_def peer_conf_def
  endpoint_conf_def remove_conf_def UpsertPeer_def SetPeerEndpoint_def RemovePeer_def wg_net_def

declare wg_defs [go_eval] send_bufs.simps [go_eval]


section \<open>Lemmas on endpoints\<close>

lemma low_bytes: "unat (ucast (drop_bit 8 n) :: byte) = unat n div 256 mod 256" "unat (ucast n :: byte) = unat n mod 256"
  for n :: u32
  by (simp_all add: unsigned_ucast_eq take_bit_eq_mod unat_drop_bit_eq drop_bit_eq_div unat_div)

lemma relay_ip_eq: "relay_ip n = relay_ip m \<longleftrightarrow> unat n mod 65536 = unat m mod 65536"
proof -
  have val: "unat (relay_ip k) = 127 * 16777216 + 127 * 65536 + unat k mod 65536" for k :: u32
  proof -
    let ?x = "127 * 16777216 + 127 * 65536 + unat k div 256 mod 256 * 256 + unat k mod 256"
    have x: "?x = 127 * 16777216 + 127 * 65536 + unat k mod 65536"
      using mod_mult2_eq [of "unat k" 256 256] by simp
    have "unat k mod 65536 < 65536" by simp
    then have "?x mod 2 ^ 32 = ?x" unfolding x by simp
    then show ?thesis using x by (simp only: relay_ip_def low_bytes quad_def unat_of_nat)
      (simp add: unat_drop_bit_eq drop_bit_eq_div unat_div)
  qed
  show ?thesis unfolding word_unat_eq_iff val by simp
qed

lemma Endpoint_parses: "ParseAddrPort (Endpoint c) = Some (V4 (rc_ip c), 1)"
  using ParseAddrPort_v4 [of "rc_ip c" 1] by (simp add: Endpoint_def)

lemma SetEndpoint_relay:
  "SetEndpoint (Endpoint c) l b = Some (b\<lparr>rb_endpoints := go_put (V4 (rc_ip c), 1) l (rb_endpoints b)\<rparr>)"
  by (simp add: SetEndpoint_def Endpoint_parses)

lemma send_bufs_all: "fst (send_bufs ok c bufs) = map (Pair c) (takeWhile ok bufs)"
  by (induction bufs) (auto split: prod.splits)

end
