(* ===== verification/Agent_Engine.thy ===== *)
theory Agent_Engine
  imports Mgmt_Session Dns_Resolver Peer_Link Wg_Peers
begin

text \<open>
  The engine of the agent (\<^verbatim>\<open>client/internal/engine/engine.go\<close>) and the set of known peers it compares
  updates with (\<^verbatim>\<open>client/internal/peer/manager.go\<close>). Everything the engine asks of the operating
  system, of WireGuard and of the ICE manager is a command (\<open>os_cmd\<close>) that is appended to a log;
  whether a command succeeds is an argument, a function of the log before it and of the command.
  Link and relay objects are numbers with their contents in a table, since the bind holds references
  to them. The list of a Go map is the order in which it is visited.
\<close>

section \<open>Known peers\<close>

type_synonym peer_set = "(string, pb_Peer) gomap"

record Update =
  up_Old :: pb_Peer
  up_New :: pb_Peer

definition allowedIPsEqual :: "string list \<Rightarrow> string list \<Rightarrow> bool" where
  "allowedIPsEqual a b \<longleftrightarrow> length a = length b \<and> list_all (\<lambda>(x, y). x = y) (zip a b)"

definition incomingMap :: "pb_Peer list \<Rightarrow> peer_set" where
  "incomingMap incoming = fold (\<lambda>p m. go_put (pb_WgPubKey p) p m) incoming []"

definition peer_changed :: "pb_Peer \<Rightarrow> pb_Peer \<Rightarrow> bool" where
  "peer_changed existing p \<longleftrightarrow>
     pb_Ip existing \<noteq> pb_Ip p \<or> pb_Hostname existing \<noteq> pb_Hostname p
     \<or> \<not> allowedIPsEqual (pb_AllowedIps existing) (pb_AllowedIps p)"

definition Diff :: "pb_Peer list \<Rightarrow> peer_set \<Rightarrow> pb_Peer list \<times> Update list \<times> pb_Peer list \<times> peer_set" where
  "Diff incoming peers =
     (let inc = incomingMap incoming;
          added = filter (\<lambda>p. go_get peers (pb_WgPubKey p) = None) incoming;
          updated = concat (map (\<lambda>p.
            case go_get peers (pb_WgPubKey p) of
              None \<Rightarrow> []
            | Some existing \<Rightarrow> if peer_changed existing p then [\<lparr>up_Old = existing, up_New = p\<rparr>] else []) incoming);
          removed = map snd (filter (\<lambda>(key, p). go_get inc key = None) peers)
      in (added, updated, removed, inc))"

definition All_peers :: "peer_set \<Rightarrow> pb_Peer list" where
  "All_peers peers = go_values peers"


section \<open>State and commands of the engine\<close>

datatype os_cmd =
    WgSet string
  | EnableForwarding
  | AddMasquerade string
  | RemoveMasquerade string
  | AddRoute string string
  | RemoveRoute string string
  | AddHostRoute "u32 option" addr string
  | RemoveHostRoute "u32 option" string
  | SetRouterSubnets "prefix list"
  | SetRouterACL "pb_Rule list"
  | StartConnect string
  | ClosePeer string
  | EnsureACLChain string
  | ApplyACLRules "pb_Rule list" string

record exitNodeState =
  xs_gwIP :: addr
  xs_gwIface :: string
  xs_hostIPs :: "u32 option list"

record Engine =
  eg_selfKey :: string
  eg_netstack :: bool
  eg_WGInterface :: string
  eg_ManagementURL :: string
  eg_SignalURL :: string
  eg_dns :: Resolver
  eg_bind :: RelayBind
  eg_peers :: peer_set
  eg_relayConns :: "(string, nat) gomap"
  eg_relayEndpts :: "(string, addr_port option) gomap"
  eg_unknownRelayLogged :: "(string, gtime) gomap"
  eg_links :: "(string, nat) gomap"
  eg_appliedRoutes :: "(string, string list) gomap"
  eg_exitNode :: "exitNodeState option"
  eg_lastRoutes :: "pb_Route list"
  eg_relayCounter :: u32
  eg_objects :: "(nat, relay_Conn \<times> Link) gomap"
  eg_log :: "os_cmd list"

definition New_Engine :: "string \<Rightarrow> bool \<Rightarrow> string \<Rightarrow> string \<Rightarrow> string \<Rightarrow> string \<Rightarrow> Engine" where
  "New_Engine selfKey netstack iface mgmURL sigURL upstream =
     \<lparr>eg_selfKey = selfKey, eg_netstack = netstack, eg_WGInterface = iface, eg_ManagementURL = mgmURL,
      eg_SignalURL = sigURL, eg_dns = New_Resolver ''blinex'' upstream, eg_bind = NewRelayBind,
      eg_peers = [], eg_relayConns = [], eg_relayEndpts = [], eg_unknownRelayLogged = [],
      eg_links = [], eg_appliedRoutes = [], eg_exitNode = None, eg_lastRoutes = [],
      eg_relayCounter = 0, eg_objects = [], eg_log = []\<rparr>"

record agent_env =
  ae_ok :: "os_cmd list \<Rightarrow> os_cmd \<Rightarrow> bool"
  ae_gateway :: "(addr \<times> string) option"
  ae_lookup :: "string \<Rightarrow> string list option"

definition issue :: "agent_env \<Rightarrow> os_cmd \<Rightarrow> Engine \<Rightarrow> bool \<times> Engine" where
  "issue env c e = (ae_ok env (eg_log e) c, e\<lparr>eg_log := eg_log e @ [c]\<rparr>)"

definition issue_conf :: "agent_env \<Rightarrow> string option \<Rightarrow> Engine \<Rightarrow> Engine" where
  "issue_conf env conf e = (case conf of None \<Rightarrow> e | Some text \<Rightarrow> snd (issue env (WgSet text) e))"


section \<open>Routes of the operating system\<close>

definition isDefaultRoute :: "string \<Rightarrow> bool" where
  "isDefaultRoute cidr \<longleftrightarrow> cidr = ''0.0.0.0/0'' \<or> cidr = ''::/0''"

definition diffRemoved :: "string list \<Rightarrow> string list \<Rightarrow> string list" where
  "diffRemoved old new = filter (\<lambda>s. s \<notin> set new) old"

definition diffAdded :: "string list \<Rightarrow> string list \<Rightarrow> string list" where
  "diffAdded old new = filter (\<lambda>s. s \<notin> set old) new"

fun issue_all :: "agent_env \<Rightarrow> os_cmd list \<Rightarrow> Engine \<Rightarrow> Engine" where
  "issue_all env [] e = e"
| "issue_all env (c # cs) e = issue_all env cs (snd (issue env c e))"

text \<open>The list of routes of a gateway is \<^verbatim>\<open>nil\<close> exactly when it is empty.\<close>

definition applyOSRoutes :: "agent_env \<Rightarrow> string \<Rightarrow> string list \<Rightarrow> string list \<Rightarrow> Engine \<Rightarrow> Engine" where
  "applyOSRoutes env peerKey oldRoutes newRoutes e =
     (let wanted = filter (\<lambda>cidr. \<not> isDefaultRoute cidr);
          iface = eg_WGInterface e;
          e1 = issue_all env (map (\<lambda>cidr. RemoveRoute cidr iface) (wanted (diffRemoved oldRoutes newRoutes))) e;
          e2 = issue_all env (map (\<lambda>cidr. AddRoute cidr iface) (wanted (diffAdded oldRoutes newRoutes))) e1
      in if newRoutes \<noteq> [] then e2\<lparr>eg_appliedRoutes := go_put peerKey newRoutes (eg_appliedRoutes e2)\<rparr> else e2)"

definition appliedTo :: "string \<Rightarrow> Engine \<Rightarrow> string list" where
  "appliedTo key e = (case go_get (eg_appliedRoutes e) key of None \<Rightarrow> [] | Some rs \<Rightarrow> rs)"

definition routesByGateway :: "pb_Route list \<Rightarrow> string \<Rightarrow> string list" where
  "routesByGateway routes gw = map rt_Network (filter (\<lambda>r. rt_Enabled r \<and> rt_Gateway r = gw) routes)"

text \<open>\<^verbatim>\<open>resolveHost\<close>: an error, or an address that is nil for an IPv6 literal.\<close>

definition resolveHost :: "(string \<Rightarrow> string list option) \<Rightarrow> string \<Rightarrow> u32 option option" where
  "resolveHost lookup addr =
     (let host = (case SplitHostPort addr of Some (h, _) \<Rightarrow> h | None \<Rightarrow> addr)
      in case parse_ip host of
           Some ip \<Rightarrow> Some (to4 ip)
         | None \<Rightarrow>
             (case lookup host of
                None \<Rightarrow> None
              | Some ips \<Rightarrow>
                  (case concat (map (\<lambda>s. case Option.bind (parse_ip s) to4 of None \<Rightarrow> [] | Some v \<Rightarrow> [v]) ips) of
                     [] \<Rightarrow> None
                   | v4 # _ \<Rightarrow> Some (Some v4))))"

fun pin_hosts :: "agent_env \<Rightarrow> addr \<Rightarrow> string \<Rightarrow> string list \<Rightarrow> Engine \<Rightarrow> u32 option list \<times> Engine" where
  "pin_hosts env gwIP gwIface [] e = ([], e)"
| "pin_hosts env gwIP gwIface (addr # addrs) e =
     (case resolveHost (ae_lookup env) addr of
        None \<Rightarrow> pin_hosts env gwIP gwIface addrs e
      | Some ip \<Rightarrow>
          if (case ip of None \<Rightarrow> False | Some v \<Rightarrow> is_loopback (V4 v)) then pin_hosts env gwIP gwIface addrs e
          else
            (case issue env (AddHostRoute ip gwIP gwIface) e of
               (ok, e1) \<Rightarrow>
                 (case pin_hosts env gwIP gwIface addrs e1 of
                    (ips, e2) \<Rightarrow> (if ok then ip # ips else ips, e2))))"

definition activateExitNode :: "agent_env \<Rightarrow> Engine \<Rightarrow> Engine" where
  "activateExitNode env e =
     (case ae_gateway env of
        None \<Rightarrow> e
      | Some (gwIP, gwIface) \<Rightarrow>
          (case pin_hosts env gwIP gwIface [eg_ManagementURL e, eg_SignalURL e] e of
             (hostIPs, e1) \<Rightarrow>
               (issue_all env (map (\<lambda>cidr. AddRoute cidr (eg_WGInterface e)) [''0.0.0.0/1'', ''128.0.0.0/1'']) e1)
                 \<lparr>eg_exitNode := Some \<lparr>xs_gwIP = gwIP, xs_gwIface = gwIface, xs_hostIPs = hostIPs\<rparr>\<rparr>))"

definition deactivateExitNode :: "agent_env \<Rightarrow> Engine \<Rightarrow> Engine" where
  "deactivateExitNode env e =
     (case eg_exitNode e of
        None \<Rightarrow> e
      | Some x \<Rightarrow>
          (issue_all env (map (\<lambda>ip. RemoveHostRoute ip (xs_gwIface x)) (xs_hostIPs x))
             (issue_all env (map (\<lambda>cidr. RemoveRoute cidr (eg_WGInterface e)) [''0.0.0.0/1'', ''128.0.0.0/1'']) e))
            \<lparr>eg_exitNode := None\<rparr>)"


section \<open>Data path of a peer\<close>

text \<open>\<^verbatim>\<open>wg.UpdateEndpoint\<close>: the send path first, then the endpoint in the device.\<close>

definition UpdateEndpoint :: "agent_env \<Rightarrow> string \<Rightarrow> string \<Rightarrow> nat \<Rightarrow> Engine \<Rightarrow> Engine" where
  "UpdateEndpoint env pubKeyB64 endpoint sendPath e =
     (case SetEndpoint endpoint sendPath (eg_bind e) of
        None \<Rightarrow> e
      | Some b \<Rightarrow> issue_conf env (SetPeerEndpoint pubKeyB64 endpoint) (e\<lparr>eg_bind := b\<rparr>))"

definition ensureRelayLink :: "agent_env \<Rightarrow> string \<Rightarrow> Engine \<Rightarrow> Engine" where
  "ensureRelayLink env peerKey e =
     (if go_get (eg_relayEndpts e) peerKey \<noteq> None \<and> go_get (eg_links e) peerKey \<noteq> None then e
      else
        (let (rc, n) = New_relay (eg_selfKey e) peerKey (eg_relayCounter e);
             l = length (eg_objects e);
             e1 = e\<lparr>eg_relayCounter := n, eg_objects := eg_objects e @ [(l, (rc, New_Link))],
                    eg_relayConns := go_put peerKey l (eg_relayConns e),
                    eg_relayEndpts := go_put peerKey (ParseAddrPort (Endpoint rc)) (eg_relayEndpts e),
                    eg_links := go_put peerKey l (eg_links e)\<rparr>
         in UpdateEndpoint env peerKey (Endpoint rc) l e1))"

definition at_object :: "nat \<Rightarrow> (relay_Conn \<times> Link \<Rightarrow> relay_Conn \<times> Link) \<Rightarrow> Engine \<Rightarrow> Engine" where
  "at_object l f e = e\<lparr>eg_objects := map (\<lambda>(k, v). (k, if k = l then f v else v)) (eg_objects e)\<rparr>"

text \<open>\<^verbatim>\<open>ice.OnConnected\<close>.\<close>

definition OnConnected :: "string \<Rightarrow> nat \<Rightarrow> Engine \<Rightarrow> Engine" where
  "OnConnected peerKey conn e =
     (case go_get (eg_links e) peerKey of
        None \<Rightarrow> e
      | Some l \<Rightarrow> at_object l (\<lambda>(rc, link). (rc, SetICEConn conn link)) e)"

definition dropPath :: "string \<Rightarrow> Engine \<Rightarrow> Engine" where
  "dropPath peerKey e =
     (let e1 = (case go_get (eg_links e) peerKey of
                  None \<Rightarrow> e
                | Some l \<Rightarrow> (at_object l (\<lambda>(rc, link). (rc, Close_link link)) e)
                    \<lparr>eg_links := go_del peerKey (eg_links e)\<rparr>);
          rc = go_get (eg_relayConns e1) peerKey;
          e2 = e1\<lparr>eg_relayEndpts := go_del peerKey (eg_relayEndpts e1),
                  eg_relayConns := go_del peerKey (eg_relayConns e1)\<rparr>
      in case rc of
           None \<Rightarrow> e2
         | Some l \<Rightarrow> at_object l (\<lambda>(rc, link). (Close_relay rc, link)) e2)"

text \<open>The handler of the signal stream: relayed packets go to the bind, a packet of an unknown peer
  is dropped and reported at most twice a minute, anything else goes to the ICE manager.\<close>

datatype signal_action = Injected | Waiting | DroppedLogged | DroppedSilent | ToICE sig_Message

definition unknownRelayLogInterval :: duration where "unknownRelayLogInterval = 30 * second"

definition logUnknownRelayPeer :: "gtime \<Rightarrow> string \<Rightarrow> Engine \<Rightarrow> bool \<times> Engine" where
  "logUnknownRelayPeer now peerKey e =
     (case go_get (eg_unknownRelayLogged e) peerKey of
        Some seen \<Rightarrow>
          if time_sub now seen < unknownRelayLogInterval then (False, e)
          else (True, e\<lparr>eg_unknownRelayLogged := go_put peerKey now (eg_unknownRelayLogged e)\<rparr>)
      | None \<Rightarrow> (True, e\<lparr>eg_unknownRelayLogged := go_put peerKey now (eg_unknownRelayLogged e)\<rparr>))"

definition onSignal :: "gtime \<Rightarrow> bool \<Rightarrow> sig_Message \<Rightarrow> Engine \<Rightarrow> signal_action \<times> Engine" where
  "onSignal now prefer_done msg e =
     (if sm_Type msg = RELAY then
        (case go_get (eg_relayEndpts e) (sm_Key msg) of
           Some ep \<Rightarrow>
             (case ReceiveFromRelay prefer_done (sm_Data msg) ep (eg_bind e) of
                None \<Rightarrow> (Waiting, e)
              | Some b \<Rightarrow> (Injected, e\<lparr>eg_bind := b\<rparr>))
         | None \<Rightarrow>
             (case logUnknownRelayPeer now (sm_Key msg) e of
                (logged, e1) \<Rightarrow> (if logged then DroppedLogged else DroppedSilent, e1)))
      else (ToICE msg, e))"


section \<open>Applying an update\<close>

definition sync_gateway :: "agent_env \<Rightarrow> SyncResponse \<Rightarrow> Engine \<Rightarrow> Engine" where
  "sync_gateway env resp e =
     (let selfKey = eg_selfKey e; iface = eg_WGInterface e;
          selfRoutes = routesByGateway (sr_Routes resp) selfKey
      in if \<not> eg_netstack e then
           (let e1 = (if selfRoutes \<noteq> [] then issue_all env [EnableForwarding, AddMasquerade iface] e
                      else issue_all env [RemoveMasquerade iface] e);
                exitNode = nc_ExitNode (sr_Network resp);
                useExitNode = (exitNode \<noteq> [] \<and> exitNode \<noteq> selfKey)
            in if useExitNode \<and> eg_exitNode e1 = None then activateExitNode env e1
               else if \<not> useExitNode \<and> eg_exitNode e1 \<noteq> None then deactivateExitNode env e1
               else e1)
         else
           (let subnets = concat (map (\<lambda>cidr. case parse_prefix cidr of None \<Rightarrow> [] | Some p \<Rightarrow> [p]) selfRoutes)
            in issue_all env [SetRouterSubnets subnets, SetRouterACL (sr_Rules resp)] e))"

definition sync_routes :: "agent_env \<Rightarrow> string \<Rightarrow> string list \<Rightarrow> string list \<Rightarrow> Engine \<Rightarrow> Engine" where
  "sync_routes env key old new e = (if eg_netstack e then e else applyOSRoutes env key old new e)"

definition sync_added :: "agent_env \<Rightarrow> (string \<Rightarrow> string list) \<Rightarrow> pb_Peer \<Rightarrow> Engine \<Rightarrow> Engine" where
  "sync_added env routes p e =
     (let k = pb_WgPubKey p in
      if k = eg_selfKey e then e
      else
        (let e1 = issue_conf env (UpsertPeer k (pb_AllowedIps p) []) e;
             e2 = sync_routes env k [] (routes k) e1;
             e3 = e2\<lparr>eg_dns := Upsert (pb_DnsLabel p) (pb_Ip p) (eg_dns e2)\<rparr>;
             e4 = ensureRelayLink env k e3
         in snd (issue env (StartConnect k) e4)))"

definition sync_updated :: "agent_env \<Rightarrow> (string \<Rightarrow> string list) \<Rightarrow> Update \<Rightarrow> Engine \<Rightarrow> Engine" where
  "sync_updated env routes u e =
     (let p = up_New u; k = pb_WgPubKey p in
      if k = eg_selfKey e then e
      else
        (let e1 = issue_conf env (UpsertPeer k (pb_AllowedIps p) []) e;
             e2 = sync_routes env k (appliedTo k e1) (routes k) e1;
             e3 = (if pb_DnsLabel (up_Old u) \<noteq> pb_DnsLabel p
                   then e2\<lparr>eg_dns := Remove (pb_DnsLabel (up_Old u)) (eg_dns e2)\<rparr> else e2);
             e4 = e3\<lparr>eg_dns := Upsert (pb_DnsLabel p) (pb_Ip p) (eg_dns e3)\<rparr>
         in ensureRelayLink env k e4))"

definition sync_removed :: "agent_env \<Rightarrow> pb_Peer \<Rightarrow> Engine \<Rightarrow> Engine" where
  "sync_removed env p e =
     (let k = pb_WgPubKey p in
      if k = eg_selfKey e then e
      else
        (let e1 = issue_conf env (RemovePeer k) e;
             e2 = sync_routes env k (appliedTo k e1) [] e1;
             e3 = e2\<lparr>eg_appliedRoutes := go_del k (eg_appliedRoutes e2),
                     eg_dns := Remove (pb_DnsLabel p) (eg_dns e2)\<rparr>
         in dropPath k (snd (issue env (ClosePeer k) e3))))"

definition sync_acl :: "agent_env \<Rightarrow> SyncResponse \<Rightarrow> Engine \<Rightarrow> Engine" where
  "sync_acl env resp e =
     (if eg_netstack e then e
      else
        (case issue env (EnsureACLChain (eg_WGInterface e)) e of
           (ok, e1) \<Rightarrow> if ok then snd (issue env (ApplyACLRules (sr_Rules resp) (eg_WGInterface e)) e1) else e1))"

definition applySync :: "agent_env \<Rightarrow> SyncResponse \<Rightarrow> Engine \<Rightarrow> Engine" where
  "applySync env resp e =
     (let routes = routesByGateway (sr_Routes resp);
          e1 = sync_gateway env resp (e\<lparr>eg_lastRoutes := sr_Routes resp\<rparr>);
          (added, updated, removed, inc) = Diff (sr_Peers resp) (eg_peers e1);
          e2 = fold (sync_added env routes) added (e1\<lparr>eg_peers := inc\<rparr>);
          e3 = fold (sync_updated env routes) updated e2;
          e4 = fold (sync_removed env) removed e3
      in sync_acl env resp e4)"


section \<open>Other tasks of the engine\<close>

text \<open>One round of \<^verbatim>\<open>pollBlocklist\<close>: the version known so far and the resolver.\<close>

definition fetch_blocklist :: "GetBlocklistResponse option \<Rightarrow> string \<times> Resolver \<Rightarrow> string \<times> Resolver" where
  "fetch_blocklist resp st =
     (case (resp, st) of
        (None, _) \<Rightarrow> st
      | (Some r, (knownVersion, dns)) \<Rightarrow>
          if gb_NotModified r \<or> gb_Version r = [] then st
          else (gb_Version r, SetBlocklist (gb_Domains r) dns))"

text \<open>
  \<^verbatim>\<open>enrollWithRetry\<close> over the outcomes of its attempts; an attempt that fails comes with whether the
  context ends during the wait that follows. The result has the waits begun and, unless the outcomes
  given run out first, the response or the end of the context.
\<close>

fun enrollWithRetry :: "duration \<Rightarrow> ('r option \<times> bool) list \<Rightarrow> duration list \<times> 'r option option" where
  "enrollWithRetry backoff [] = ([], None)"
| "enrollWithRetry backoff ((Some resp, _) # rest) = ([], Some (Some resp))"
| "enrollWithRetry backoff ((None, True) # rest) = ([backoff], Some None)"
| "enrollWithRetry backoff ((None, False) # rest) =
     (case enrollWithRetry (if backoff < 30 * second then backoff * 2 else backoff) rest of
        (waits, r) \<Rightarrow> (backoff # waits, r))"

definition shortKey :: "string \<Rightarrow> string" where
  "shortKey k = (if 8 < length k then take 8 k else k)"

record PeerInfo =
  pi_Hostname :: string
  pi_IP :: string
  pi_DNSName :: string
  pi_Path :: string

record RouteInfo =
  ri_Network :: string
  ri_Via :: string
  ri_Self :: bool
  ri_Enabled :: bool

record Status =
  st_Version :: string
  st_Hostname :: string
  st_SelfIP :: string
  st_Interface :: string
  st_Mode :: string
  st_DNSSuffix :: string
  st_Peers :: "PeerInfo list"
  st_Routes :: "RouteInfo list"

definition peer_path :: "string \<Rightarrow> Engine \<Rightarrow> string" where
  "peer_path k e =
     (case Option.bind (go_get (eg_links e) k) (go_get (eg_objects e)) of
        Some (rc, link) \<Rightarrow> if UsingICE link then ''direct'' else ''relay''
      | None \<Rightarrow> ''relay'')"

definition Status_of :: "string \<Rightarrow> string \<Rightarrow> string \<Rightarrow> Engine \<Rightarrow> Status" where
  "Status_of version hostname selfIP e =
     (let others = filter (\<lambda>p. pb_WgPubKey p \<noteq> eg_selfKey e) (All_peers (eg_peers e));
          keyToName = fold (\<lambda>p m. go_put (pb_WgPubKey p) (pb_Hostname p) m) others [(eg_selfKey e, hostname)];
          name = (\<lambda>k. case go_get keyToName k of None \<Rightarrow> [] | Some n \<Rightarrow> n)
      in \<lparr>st_Version = version, st_Hostname = hostname, st_SelfIP = selfIP, st_Interface = eg_WGInterface e,
          st_Mode = (if eg_netstack e then ''netstack'' else ''kernel''), st_DNSSuffix = ''blinex'',
          st_Peers = map (\<lambda>p. \<lparr>pi_Hostname = pb_Hostname p, pi_IP = pb_Ip p,
             pi_DNSName = (if pb_DnsLabel p \<noteq> [] then pb_DnsLabel p @ ''.'' @ ''blinex'' else []),
             pi_Path = peer_path (pb_WgPubKey p) e\<rparr>) others,
          st_Routes = map (\<lambda>r. \<lparr>ri_Network = rt_Network r,
             ri_Via = (if rt_Gateway r = eg_selfKey e then ''this device''
                       else if name (rt_Gateway r) = [] then shortKey (rt_Gateway r) else name (rt_Gateway r)),
             ri_Self = (rt_Gateway r = eg_selfKey e), ri_Enabled = rt_Enabled r\<rparr>) (eg_lastRoutes e)\<rparr>)"

definition dnsPort :: u16 where "dnsPort = 53535"

text \<open>The address the resolver answers on in the mesh, before it is printed.\<close>

definition meshDNSAddr :: "string \<Rightarrow> addr_port option" where
  "meshDNSAddr selfIP =
     (case parse_prefix selfIP of
        Some (Prefix a _) \<Rightarrow> Some (a, dnsPort)
      | None \<Rightarrow> map_option (\<lambda>ip. (ip, dnsPort)) (parse_addr selfIP))"

definition guessMeshCIDR :: "string \<Rightarrow> string" where
  "guessMeshCIDR addr =
     (let ip = (case parse_cidr addr of Some (ip, _) \<Rightarrow> Some ip | None \<Rightarrow> parse_ip addr)
      in case Option.bind ip to4 of
           None \<Rightarrow> ''100.64.0.0/10''
         | Some w \<Rightarrow>
             if drop_bit 24 w = 100 then ''100.64.0.0/10''
             else itoa (unat (drop_bit 24 w)) @ ''.'' @ itoa (unat (drop_bit 16 w AND 255)) @ ''.0.0/16'')"

lemmas engine_defs =
  allowedIPsEqual_def incomingMap_def peer_changed_def Diff_def All_peers_def New_Engine_def issue_def
  issue_conf_def isDefaultRoute_def diffRemoved_def diffAdded_def applyOSRoutes_def appliedTo_def
  routesByGateway_def resolveHost_def activateExitNode_def deactivateExitNode_def UpdateEndpoint_def
  ensureRelayLink_def at_object_def OnConnected_def dropPath_def unknownRelayLogInterval_def
  logUnknownRelayPeer_def onSignal_def sync_gateway_def sync_routes_def sync_added_def sync_updated_def
  sync_removed_def sync_acl_def applySync_def fetch_blocklist_def shortKey_def peer_path_def
  Status_of_def dnsPort_def meshDNSAddr_def guessMeshCIDR_def

declare engine_defs [go_eval] issue_all.simps [go_eval] pin_hosts.simps [go_eval] enrollWithRetry.simps [go_eval]

end
