(* ===== verification/Agent_Paths.thy ===== *)
theory Agent_Paths
  imports Agent_Engine
begin

text \<open>
  The data paths of the agent. An invariant of every state the engine can reach ties the known peers
  to their links, relay connections and endpoints, and the bind to the links (\<open>agent_inv\<close>).
\<close>

section \<open>Normal forms of the steps\<close>

lemma issue_all_eq [simp]: "issue_all env cs e = e\<lparr>eg_log := eg_log e @ cs\<rparr>"
  by (induction cs arbitrary: e) (auto simp: issue_def)

lemma snd_issue [simp]: "snd (issue env c e) = e\<lparr>eg_log := eg_log e @ [c]\<rparr>"
  by (simp add: issue_def)

definition route_cmds :: "string list \<Rightarrow> string list \<Rightarrow> string \<Rightarrow> os_cmd list" where
  "route_cmds old new iface =
     map (\<lambda>cidr. RemoveRoute cidr iface) (filter (\<lambda>cidr. \<not> isDefaultRoute cidr) (diffRemoved old new))
     @ map (\<lambda>cidr. AddRoute cidr iface) (filter (\<lambda>cidr. \<not> isDefaultRoute cidr) (diffAdded old new))"

lemma applyOSRoutes_eq:
  "applyOSRoutes env k old new e =
     e\<lparr>eg_log := eg_log e @ route_cmds old new (eg_WGInterface e),
       eg_appliedRoutes := (if new = [] then eg_appliedRoutes e else go_put k new (eg_appliedRoutes e))\<rparr>"
  by (simp add: applyOSRoutes_def Let_def route_cmds_def)

lemma pin_hosts_eq:
  "\<exists>cmds. snd (pin_hosts env gw iface addrs e) = e\<lparr>eg_log := eg_log e @ cmds\<rparr>
     \<and> (\<forall>c \<in> set cmds. \<exists>ip. c = AddHostRoute ip gw iface)"
proof (induction addrs arbitrary: e)
  case Nil
  show ?case by (intro exI [of _ "[]"]) simp
next
  case (Cons a addrs)
  show ?case
  proof (cases "\<exists>ip. resolveHost (ae_lookup env) a = Some ip \<and> \<not> (case ip of None \<Rightarrow> False | Some v \<Rightarrow> is_loopback (V4 v))")
    case True
    then obtain ip where ip: "resolveHost (ae_lookup env) a = Some ip"
      "\<not> (case ip of None \<Rightarrow> False | Some v \<Rightarrow> is_loopback (V4 v))" by blast
    let ?c = "AddHostRoute ip gw iface"
    obtain cmds where cmds: "snd (pin_hosts env gw iface addrs (e\<lparr>eg_log := eg_log e @ [?c]\<rparr>)) = e\<lparr>eg_log := eg_log e @ [?c] @ cmds\<rparr>"
      "\<forall>c \<in> set cmds. \<exists>ip. c = AddHostRoute ip gw iface"
      using Cons.IH [of "e\<lparr>eg_log := eg_log e @ [?c]\<rparr>"] by auto
    show ?thesis using ip cmds
      by (intro exI [of _ "?c # cmds"]) (auto simp: issue_def split: prod.splits)
  next
    case False
    then have "pin_hosts env gw iface (a # addrs) e = pin_hosts env gw iface addrs e"
      by (auto split: option.splits)
    then show ?thesis using Cons.IH [of e] by simp
  qed
qed

text \<open>The part of the state that routing commands leave alone.\<close>

definition same_paths :: "Engine \<Rightarrow> Engine \<Rightarrow> bool" where
  "same_paths e e' \<longleftrightarrow>
     eg_selfKey e' = eg_selfKey e \<and> eg_netstack e' = eg_netstack e \<and> eg_bind e' = eg_bind e \<and> eg_peers e' = eg_peers e
     \<and> eg_relayConns e' = eg_relayConns e \<and> eg_relayEndpts e' = eg_relayEndpts e \<and> eg_links e' = eg_links e
     \<and> eg_relayCounter e' = eg_relayCounter e \<and> eg_objects e' = eg_objects e"

lemma same_paths_trans: "same_paths e e1 \<Longrightarrow> same_paths e1 e2 \<Longrightarrow> same_paths e e2"
  by (simp add: same_paths_def)

text \<open>The device configuration texts of a log.\<close>

fun confs :: "os_cmd list \<Rightarrow> string list" where
  "confs [] = []"
| "confs (WgSet t # cs) = t # confs cs"
| "confs (_ # cs) = confs cs"

lemma confs_append [simp]: "confs (a @ b) = confs a @ confs b"
  by (induction a rule: confs.induct) auto

lemma confs_none: "(\<And>c t. c \<in> set cs \<Longrightarrow> c \<noteq> WgSet t) \<Longrightarrow> confs cs = []"
proof (induction cs)
  case (Cons c cs)
  then show ?case by (cases c) auto
qed simp

lemma confs_route_cmds [simp]: "confs (route_cmds old new iface) = []"
  by (rule confs_none) (auto simp: route_cmds_def)

lemma activate_facts:
  "same_paths e (activateExitNode env e)" "confs (eg_log (activateExitNode env e)) = confs (eg_log e)"
  "eg_dns (activateExitNode env e) = eg_dns e"
proof -
  show "same_paths e (activateExitNode env e)" "confs (eg_log (activateExitNode env e)) = confs (eg_log e)"
    "eg_dns (activateExitNode env e) = eg_dns e"
  proof (atomize (full), cases "ae_gateway env")
    case None
    then show "same_paths e (activateExitNode env e) \<and> confs (eg_log (activateExitNode env e)) = confs (eg_log e)
      \<and> eg_dns (activateExitNode env e) = eg_dns e"
      by (simp add: activateExitNode_def same_paths_def)
  next
    case (Some gw)
    obtain ip iface where gw: "gw = (ip, iface)" by (cases gw)
    obtain ips e1 where p: "pin_hosts env ip iface [eg_ManagementURL e, eg_SignalURL e] e = (ips, e1)"
      by (cases "pin_hosts env ip iface [eg_ManagementURL e, eg_SignalURL e] e")
    obtain cmds where c: "e1 = e\<lparr>eg_log := eg_log e @ cmds\<rparr>" "\<forall>c \<in> set cmds. \<exists>ip'. c = AddHostRoute ip' ip iface"
      using pin_hosts_eq [of env ip iface "[eg_ManagementURL e, eg_SignalURL e]" e] p by auto
    have "confs cmds = []" using c(2) by (intro confs_none) auto
    then show "same_paths e (activateExitNode env e) \<and> confs (eg_log (activateExitNode env e)) = confs (eg_log e)
      \<and> eg_dns (activateExitNode env e) = eg_dns e"
      using Some gw p c(1) by (simp add: activateExitNode_def same_paths_def del: pin_hosts.simps)
  qed
qed

lemma deactivate_facts:
  "same_paths e (deactivateExitNode env e)" "confs (eg_log (deactivateExitNode env e)) = confs (eg_log e)"
  "eg_dns (deactivateExitNode env e) = eg_dns e"
proof -
  have [simp]: "confs (map (\<lambda>ip. RemoveHostRoute ip i) xs) = []" for i xs by (rule confs_none) auto
  show "same_paths e (deactivateExitNode env e)" "confs (eg_log (deactivateExitNode env e)) = confs (eg_log e)"
    "eg_dns (deactivateExitNode env e) = eg_dns e"
    by (auto simp: deactivateExitNode_def same_paths_def split: option.splits)
qed

lemma gateway_facts:
  "same_paths e (sync_gateway env resp e)" "confs (eg_log (sync_gateway env resp e)) = confs (eg_log e)"
  "eg_dns (sync_gateway env resp e) = eg_dns e"
proof -
  have log: "same_paths e (e\<lparr>eg_log := l\<rparr>)" for l by (simp add: same_paths_def)
  note a = same_paths_trans [OF log activate_facts(1)] and d = same_paths_trans [OF log deactivate_facts(1)]
  show "same_paths e (sync_gateway env resp e)" by (simp add: sync_gateway_def Let_def a d log)
  show "confs (eg_log (sync_gateway env resp e)) = confs (eg_log e)"
    by (simp add: sync_gateway_def Let_def activate_facts deactivate_facts)
  show "eg_dns (sync_gateway env resp e) = eg_dns e"
    by (simp add: sync_gateway_def Let_def activate_facts deactivate_facts)
qed

lemma acl_facts:
  "same_paths e (sync_acl env resp e)" "confs (eg_log (sync_acl env resp e)) = confs (eg_log e)"
  "eg_dns (sync_acl env resp e) = eg_dns e"
  by (simp_all add: sync_acl_def issue_def same_paths_def)


section \<open>The invariant\<close>

text \<open>The object behind the link of a peer, and what makes it a working path.\<close>

definition path_of :: "Engine \<Rightarrow> string \<Rightarrow> nat option" where
  "path_of e k = go_get (eg_links e) k"

definition path_open :: "Engine \<Rightarrow> string \<Rightarrow> nat \<Rightarrow> bool" where
  "path_open e k l \<longleftrightarrow>
     (\<exists>rc link. go_get (eg_objects e) l = Some (rc, link) \<and> rc_selfKey rc = eg_selfKey e \<and> rc_peerKey rc = k
        \<and> \<not> rc_closed rc \<and> \<not> lk_closed link
        \<and> go_get (eg_relayEndpts e) k = Some (Some (V4 (rc_ip rc), 1))
        \<and> (length (eg_objects e) \<le> 65536 \<longrightarrow> go_get (rb_endpoints (eg_bind e)) (V4 (rc_ip rc), 1) = Some l))"

definition objects_ok :: "Engine \<Rightarrow> bool" where
  "objects_ok e \<longleftrightarrow> map fst (eg_objects e) = [0..<length (eg_objects e)]
     \<and> eg_relayCounter e = of_nat (length (eg_objects e))
     \<and> (\<forall>l v. go_get (eg_objects e) l = Some v \<longrightarrow> rc_ip (fst v) = relay_ip (of_nat (l + 1)))"

definition paths_inv :: "Engine \<Rightarrow> bool" where
  "paths_inv e \<longleftrightarrow> objects_ok e
     \<and> (\<forall>k. go_get (eg_relayConns e) k = path_of e k)
     \<and> (\<forall>k. go_get (eg_relayEndpts e) k = None \<longleftrightarrow> path_of e k = None)
     \<and> (\<forall>k l. path_of e k = Some l \<longrightarrow> path_open e k l)"

definition agent_inv :: "Engine \<Rightarrow> bool" where
  "agent_inv e \<longleftrightarrow> paths_inv e \<and> keyed pb_WgPubKey (eg_peers e)
     \<and> (\<forall>k. path_of e k \<noteq> None \<longleftrightarrow> k \<noteq> eg_selfKey e \<and> go_get (eg_peers e) k \<noteq> None)"

lemma paths_inv_same: "same_paths e e' \<Longrightarrow> paths_inv e' = paths_inv e"
  by (simp add: same_paths_def paths_inv_def objects_ok_def path_of_def path_open_def)

lemma path_of_same: "same_paths e e' \<Longrightarrow> path_of e' = path_of e"
  by (simp add: same_paths_def path_of_def fun_eq_iff)

lemma objects_get:
  assumes "objects_ok e"
  shows "go_get (eg_objects e) l \<noteq> None \<longleftrightarrow> l < length (eg_objects e)"
  using assms unfolding objects_ok_def go_get_def
  by (metis atLeastLessThan_iff dom_map_of_conv_image_fst domIff list.set_map set_upt zero_le)

lemma objects_ip: "objects_ok e \<Longrightarrow> go_get (eg_objects e) l = Some v \<Longrightarrow> rc_ip (fst v) = relay_ip (of_nat (l + 1))"
  unfolding objects_ok_def by blast

lemma objects_snoc:
  "objects_ok e \<Longrightarrow> go_get (eg_objects e @ [(length (eg_objects e), v)]) l =
     (if l = length (eg_objects e) then Some v else go_get (eg_objects e) l)"
  using objects_get [of e l] by (auto simp: go_get_def map_add_def split: option.splits)

text \<open>Distinct objects have distinct addresses as long as the counter has not gone round.\<close>

lemma object_ips:
  assumes "l < 65536" "m < 65536" "relay_ip (of_nat (l + 1)) = relay_ip (of_nat (m + 1))"
  shows "l = m"
proof -
  have u: "unat (of_nat x :: u32) = x" if "x < 2 ^ 32" for x
    using that by (simp only: unat_of_nat) simp
  have "unat (of_nat (l + 1) :: u32) = l + 1" "unat (of_nat (m + 1) :: u32) = m + 1"
    by (rule u, use assms(1,2) in simp)+
  then have "(l + 1) mod 65536 = (m + 1) mod 65536" using assms(3) by (simp only: relay_ip_eq)
  then show ?thesis using assms(1,2) by (cases "l = 65535"; cases "m = 65535") simp_all
qed

text \<open>A new path, with everything it changes.\<close>

definition conf_cmd :: "string option \<Rightarrow> os_cmd list" where
  "conf_cmd t = (case t of None \<Rightarrow> [] | Some text \<Rightarrow> [WgSet text])"

lemma issue_conf_eq: "issue_conf env t e = e\<lparr>eg_log := eg_log e @ conf_cmd t\<rparr>"
  by (simp add: issue_conf_def conf_cmd_def split: option.splits)

definition new_conn :: "string \<Rightarrow> Engine \<Rightarrow> relay_Conn" where
  "new_conn k e = \<lparr>rc_selfKey = eg_selfKey e, rc_peerKey = k, rc_ip = relay_ip (eg_relayCounter e + 1), rc_closed = False\<rparr>"

definition add_path :: "string \<Rightarrow> Engine \<Rightarrow> Engine" where
  "add_path k e =
     (let rc = new_conn k e; l = length (eg_objects e) in
      e\<lparr>eg_relayCounter := eg_relayCounter e + 1, eg_objects := eg_objects e @ [(l, (rc, New_Link))],
        eg_relayConns := go_put k l (eg_relayConns e),
        eg_relayEndpts := go_put k (Some (V4 (rc_ip rc), 1)) (eg_relayEndpts e),
        eg_links := go_put k l (eg_links e),
        eg_bind := (eg_bind e)\<lparr>rb_endpoints := go_put (V4 (rc_ip rc), 1) l (rb_endpoints (eg_bind e))\<rparr>,
        eg_log := eg_log e @ conf_cmd (SetPeerEndpoint k (Endpoint rc))\<rparr>)"

lemma ensure_eq:
  assumes "paths_inv e"
  shows "ensureRelayLink env k e = (if path_of e k = None then add_path k e else e)"
proof -
  have *: "go_get (eg_relayEndpts e) k \<noteq> None \<and> go_get (eg_links e) k \<noteq> None \<longleftrightarrow> path_of e k \<noteq> None"
    using assms by (auto simp: paths_inv_def path_of_def)
  have rc: "New_relay (eg_selfKey e) k (eg_relayCounter e) = (new_conn k e, eg_relayCounter e + 1)"
    by (simp add: New_relay_def new_conn_def Let_def)
  show ?thesis
    unfolding ensureRelayLink_def * rc
    by (simp add: Let_def UpdateEndpoint_def SetEndpoint_relay Endpoint_parses issue_conf_eq add_path_def)
qed

lemma add_path_sel [simp]:
  "eg_selfKey (add_path k e) = eg_selfKey e" "eg_netstack (add_path k e) = eg_netstack e"
  "eg_peers (add_path k e) = eg_peers e" "eg_dns (add_path k e) = eg_dns e"
  "path_of (add_path k e) = (path_of e)(k \<mapsto> length (eg_objects e))"
  by (auto simp: add_path_def Let_def path_of_def go_get_put)

lemma add_path_objects:
  assumes "objects_ok e"
  shows "objects_ok (add_path k e)"
    "go_get (eg_objects (add_path k e)) l =
       (if l = length (eg_objects e) then Some (new_conn k e, New_Link) else go_get (eg_objects e) l)"
proof -
  show get: "go_get (eg_objects (add_path k e)) l =
       (if l = length (eg_objects e) then Some (new_conn k e, New_Link) else go_get (eg_objects e) l)" for l
    using objects_snoc [OF assms] by (simp add: add_path_def Let_def)
  have c: "eg_relayCounter e + 1 = of_nat (length (eg_objects e) + 1)" using assms by (simp add: objects_ok_def add.commute)
  show "objects_ok (add_path k e)"
    unfolding objects_ok_def get using assms c
    by (auto simp: add_path_def Let_def objects_ok_def new_conn_def add.commute)
qed

lemma paths_inv_add:
  assumes inv: "paths_inv e" and new: "path_of e k = None"
  shows "paths_inv (add_path k e)"
proof -
  let ?e = "add_path k e" and ?n = "length (eg_objects e)"
  have ok: "objects_ok e" using inv by (simp add: paths_inv_def)
  have maps: "go_get (eg_relayConns ?e) j = path_of ?e j" "go_get (eg_relayEndpts ?e) j = None \<longleftrightarrow> path_of ?e j = None" for j
    using inv by (auto simp: paths_inv_def path_of_def add_path_def Let_def go_get_put)
  have ip: "rc_ip (new_conn k e) = relay_ip (of_nat (?n + 1))"
    using ok by (simp add: new_conn_def objects_ok_def add.commute)
  have "path_open ?e j l" if j: "path_of ?e j = Some l" for j l
  proof (cases "j = k")
    case True
    with j have l: "l = ?n" by simp
    show ?thesis unfolding path_open_def add_path_objects(2) [OF ok] True l
      by (simp add: new_conn_def New_Link_def) (simp add: add_path_def Let_def new_conn_def)
  next
    case False
    with j have p: "path_open e j l" using inv by (simp add: paths_inv_def)
    then obtain rc link where rc: "go_get (eg_objects e) l = Some (rc, link)" by (auto simp: path_open_def)
    then have ln: "l < ?n" using objects_get [OF ok, of l] by simp
    have rip: "rc_ip rc = relay_ip (of_nat (l + 1))" using ok rc by (fastforce simp: objects_ok_def)
    have diff: "rc_ip rc \<noteq> rc_ip (new_conn k e)" if "?n + 1 \<le> 65536"
      using object_ips [of l ?n] ln that unfolding rip ip by auto
    show ?thesis using p rc ln False diff unfolding path_open_def add_path_objects(2) [OF ok]
      by (auto simp: add_path_def Let_def go_get_put)
  qed
  then show ?thesis using maps add_path_objects(1) [OF ok] by (simp add: paths_inv_def)
qed


text \<open>Changes to objects that keep the connection and leave the link open.\<close>

lemma go_get_at_object:
  "go_get (eg_objects (at_object l f e)) m = (if m = l then map_option f (go_get (eg_objects e) m) else go_get (eg_objects e) m)"
  unfolding at_object_def using go_get_map_snd [of "\<lambda>k v. if k = l then f v else v" "eg_objects e" m]
  by (cases "go_get (eg_objects e) m") auto

lemma at_object_sel [simp]:
  "eg_selfKey (at_object l f e) = eg_selfKey e" "eg_peers (at_object l f e) = eg_peers e"
  "eg_relayConns (at_object l f e) = eg_relayConns e" "eg_relayEndpts (at_object l f e) = eg_relayEndpts e"
  "eg_links (at_object l f e) = eg_links e" "eg_bind (at_object l f e) = eg_bind e"
  "eg_netstack (at_object l f e) = eg_netstack e" "eg_dns (at_object l f e) = eg_dns e"
  "eg_log (at_object l f e) = eg_log e" "path_of (at_object l f e) = path_of e"
  "length (eg_objects (at_object l f e)) = length (eg_objects e)" "eg_relayCounter (at_object l f e) = eg_relayCounter e"
  by (simp_all add: at_object_def path_of_def fun_eq_iff)

lemma objects_ok_at_object:
  assumes "objects_ok e" "\<And>v. rc_ip (fst (f v)) = rc_ip (fst v)"
  shows "objects_ok (at_object l f e)"
proof -
  have keys: "map fst (eg_objects (at_object l f e)) = map fst (eg_objects e)"
    by (simp add: at_object_def comp_def split_def)
  have "rc_ip (fst v) = relay_ip (of_nat (m + 1))" if "go_get (eg_objects (at_object l f e)) m = Some v" for m v
  proof -
    from that obtain v0 where "go_get (eg_objects e) m = Some v0" "rc_ip (fst v) = rc_ip (fst v0)"
      using assms(2) by (cases "m = l") (auto simp: go_get_at_object simp del: split_paired_All)
    then show ?thesis using objects_ip [OF assms(1)] by simp
  qed
  with keys show ?thesis using assms(1) unfolding objects_ok_def by simp
qed

lemma path_open_at_other:
  "m \<noteq> l \<Longrightarrow> path_open (at_object l f e) k m = path_open e k m"
  by (simp add: path_open_def go_get_at_object)

lemma paths_inv_at_object:
  assumes "paths_inv e" "\<And>v. fst (f v) = fst v" "\<And>v. lk_closed (snd (f v)) = lk_closed (snd v)"
  shows "paths_inv (at_object l f e)"
proof -
  have "path_open (at_object l f e) k m" if "path_open e k m" for k m
  proof (cases "m = l")
    case True
    from that obtain rc link where v: "go_get (eg_objects e) m = Some (rc, link)" by (auto simp: path_open_def)
    obtain link' where f: "f (rc, link) = (rc, link')" "lk_closed link' = lk_closed link"
      using assms(2,3) [of "(rc, link)"] by (cases "f (rc, link)") simp
    from that v True f show ?thesis by (simp add: path_open_def go_get_at_object)
  next
    case False
    with that show ?thesis by (simp add: path_open_at_other)
  qed
  then show ?thesis using assms(1) objects_ok_at_object [of e f l] assms(2) by (simp add: paths_inv_def)
qed

lemma path_openD: "paths_inv e \<Longrightarrow> path_of e k = Some l \<Longrightarrow> path_open e k l"
  by (simp add: paths_inv_def)

lemma objects_distinct:
  assumes "paths_inv e" "path_of e k = Some l" "path_of e j = Some l"
  shows "j = k"
  using path_openD [OF assms(1,2)] path_openD [OF assms(1,3)] by (auto simp: path_open_def)

lemma dropPath_sel [simp]:
  "eg_selfKey (dropPath k e) = eg_selfKey e" "eg_peers (dropPath k e) = eg_peers e"
  "eg_netstack (dropPath k e) = eg_netstack e" "eg_dns (dropPath k e) = eg_dns e" "eg_log (dropPath k e) = eg_log e"
  by (simp_all add: dropPath_def Let_def split: option.splits)

lemma path_of_drop: "path_of (dropPath k e) = (path_of e)(k := None)"
  by (auto simp: dropPath_def Let_def path_of_def go_get_del fun_eq_iff split: option.splits)


lemma paths_inv_drop:
  assumes inv: "paths_inv e"
  shows "paths_inv (dropPath k e)"
proof (cases "path_of e k")
  case None
  then have n: "go_get (eg_relayEndpts e) k = None" "go_get (eg_relayConns e) k = None"
    using inv by (simp_all add: paths_inv_def)
  have "dropPath k e = e\<lparr>eg_relayEndpts := go_del k (eg_relayEndpts e), eg_relayConns := go_del k (eg_relayConns e)\<rparr>"
    using None n by (simp add: dropPath_def Let_def path_of_def)
  moreover have "go_get (go_del k (eg_relayEndpts e)) j = go_get (eg_relayEndpts e) j"
    "go_get (go_del k (eg_relayConns e)) j = go_get (eg_relayConns e) j" for j
    using n by (simp_all add: go_get_del)
  ultimately show ?thesis using inv by (simp add: paths_inv_def objects_ok_def path_of_def path_open_def)
next
  case (Some l)
  define f where "f = (\<lambda>v :: relay_Conn \<times> Link. (Close_relay (fst v), Close_link (snd v)))"
  let ?e = "at_object l f e"
  have rcs: "go_get (eg_relayConns e) k = Some l" using Some inv by (simp add: paths_inv_def)
  have ok: "objects_ok ?e"
    using inv by (intro objects_ok_at_object) (simp_all add: paths_inv_def f_def Close_relay_def)
  have e: "dropPath k e = ?e\<lparr>eg_links := go_del k (eg_links e), eg_relayEndpts := go_del k (eg_relayEndpts e),
      eg_relayConns := go_del k (eg_relayConns e)\<rparr>" (is "_ = ?d")
    using Some rcs by (simp add: dropPath_def Let_def path_of_def at_object_def f_def comp_def split_def)
  have "path_open ?d j m" if j: "path_of ?d j = Some m" for j m
  proof -
    have jk: "j \<noteq> k" and m: "path_of e j = Some m" using j by (auto simp: path_of_def go_get_del split: if_splits)
    then have "m \<noteq> l" using objects_distinct [OF inv Some] by blast
    then have "path_open ?e j m" using path_openD [OF inv m] by (simp add: path_open_at_other)
    then show ?thesis using jk by (simp add: path_open_def go_get_del)
  qed
  then show ?thesis unfolding e using ok inv by (auto simp: paths_inv_def objects_ok_def path_of_def go_get_del)
qed


section \<open>Effect of an update on the paths\<close>

definition same_rest :: "Engine \<Rightarrow> Engine \<Rightarrow> bool" where
  "same_rest e e' \<longleftrightarrow> same_paths e e' \<and> confs (eg_log e') = confs (eg_log e)"

lemma same_rest_trans: "same_rest e e1 \<Longrightarrow> same_rest e1 e2 \<Longrightarrow> same_rest e e2"
  by (auto simp: same_rest_def intro: same_paths_trans)

lemma same_rest_routes: "same_rest e (sync_routes env k old new e)"
  by (simp add: same_rest_def same_paths_def sync_routes_def applyOSRoutes_eq)

lemma same_rest_upd [simp]:
  "same_rest e (e\<lparr>eg_dns := d\<rparr>)" "same_rest e (e\<lparr>eg_appliedRoutes := r, eg_dns := d\<rparr>)"
  "same_rest e (e\<lparr>eg_lastRoutes := rs\<rparr>)"
  by (simp_all add: same_rest_def same_paths_def)

text \<open>What a step does with the paths, up to the rest of the state.\<close>

lemma added_eq:
  assumes "k = pb_WgPubKey p" "k \<noteq> eg_selfKey e"
  obtains e' where "same_rest (e\<lparr>eg_log := eg_log e @ conf_cmd (UpsertPeer k (pb_AllowedIps p) [])\<rparr>) e'"
    "same_rest (ensureRelayLink env k e') (sync_added env routes p e)"
proof -
  let ?e1 = "e\<lparr>eg_log := eg_log e @ conf_cmd (UpsertPeer k (pb_AllowedIps p) [])\<rparr>"
  let ?e2 = "sync_routes env k [] (routes k) ?e1"
  let ?e3 = "?e2\<lparr>eg_dns := Upsert (pb_DnsLabel p) (pb_Ip p) (eg_dns ?e2)\<rparr>"
  have e: "sync_added env routes p e = (ensureRelayLink env k ?e3)\<lparr>eg_log := eg_log (ensureRelayLink env k ?e3) @ [StartConnect k]\<rparr>"
    using assms unfolding sync_added_def by (simp only: Let_def issue_conf_eq snd_issue if_False)
  show ?thesis
  proof (rule that)
    show "same_rest ?e1 ?e3" by (rule same_rest_trans [OF same_rest_routes same_rest_upd(1)])
    show "same_rest (ensureRelayLink env k ?e3) (sync_added env routes p e)"
      unfolding e by (simp add: same_rest_def same_paths_def)
  qed
qed

lemma updated_eq:
  assumes "k = pb_WgPubKey (up_New u)" "k \<noteq> eg_selfKey e"
  obtains e' where "same_rest (e\<lparr>eg_log := eg_log e @ conf_cmd (UpsertPeer k (pb_AllowedIps (up_New u)) [])\<rparr>) e'"
    "sync_updated env routes u e = ensureRelayLink env k e'"
proof -
  let ?e1 = "e\<lparr>eg_log := eg_log e @ conf_cmd (UpsertPeer k (pb_AllowedIps (up_New u)) [])\<rparr>"
  let ?e2 = "sync_routes env k (appliedTo k ?e1) (routes k) ?e1"
  let ?e3 = "if pb_DnsLabel (up_Old u) \<noteq> pb_DnsLabel (up_New u)
    then ?e2\<lparr>eg_dns := Remove (pb_DnsLabel (up_Old u)) (eg_dns ?e2)\<rparr> else ?e2"
  let ?e4 = "?e3\<lparr>eg_dns := Upsert (pb_DnsLabel (up_New u)) (pb_Ip (up_New u)) (eg_dns ?e3)\<rparr>"
  have "same_rest ?e2 ?e4" by (simp add: same_rest_def same_paths_def)
  then have "same_rest ?e1 ?e4" by (rule same_rest_trans [OF same_rest_routes])
  moreover have "sync_updated env routes u e = ensureRelayLink env k ?e4"
    using assms unfolding sync_updated_def by (simp only: Let_def issue_conf_eq if_False)
  ultimately show ?thesis by (rule that)
qed

lemma removed_eq:
  assumes "k = pb_WgPubKey p" "k \<noteq> eg_selfKey e"
  obtains e' where "same_rest (e\<lparr>eg_log := eg_log e @ conf_cmd (RemovePeer k)\<rparr>) e'"
    "sync_removed env p e = dropPath k e'"
proof -
  let ?e1 = "e\<lparr>eg_log := eg_log e @ conf_cmd (RemovePeer k)\<rparr>"
  let ?e2 = "sync_routes env k (appliedTo k ?e1) [] ?e1"
  let ?e3 = "?e2\<lparr>eg_appliedRoutes := go_del k (eg_appliedRoutes ?e2), eg_dns := Remove (pb_DnsLabel p) (eg_dns ?e2)\<rparr>"
  let ?e4 = "?e3\<lparr>eg_log := eg_log ?e3 @ [ClosePeer k]\<rparr>"
  have "same_rest ?e2 ?e4" by (simp add: same_rest_def same_paths_def)
  then have "same_rest ?e1 ?e4" by (rule same_rest_trans [OF same_rest_routes])
  moreover have "sync_removed env p e = dropPath k ?e4"
    using assms unfolding sync_removed_def by (simp only: Let_def issue_conf_eq snd_issue if_False)
  ultimately show ?thesis by (rule that)
qed


text \<open>The peers with a path, after a step.\<close>

definition moved :: "(string set \<Rightarrow> string set) \<Rightarrow> Engine \<Rightarrow> Engine \<Rightarrow> bool" where
  "moved f e e' \<longleftrightarrow> paths_inv e' \<and> dom (path_of e') = f (dom (path_of e)) \<and> eg_selfKey e' = eg_selfKey e
     \<and> eg_peers e' = eg_peers e"

lemma moved_paths: "paths_inv e \<Longrightarrow> same_paths e e' \<Longrightarrow> moved id e e'"
  by (auto simp: moved_def paths_inv_same path_of_same) (simp_all add: same_paths_def)

lemma moved_same: "paths_inv e \<Longrightarrow> same_rest e e' \<Longrightarrow> moved id e e'"
  by (simp add: moved_paths same_rest_def)

lemma moved_trans: "moved f e e1 \<Longrightarrow> moved g e1 e2 \<Longrightarrow> moved (g \<circ> f) e e2"
  by (simp add: moved_def)

lemma moved_ensure: "paths_inv e \<Longrightarrow> moved (insert k) e (ensureRelayLink env k e)"
  unfolding ensure_eq by (auto simp: moved_def paths_inv_add)

lemma moved_drop: "paths_inv e \<Longrightarrow> moved (\<lambda>P. P - {k}) e (dropPath k e)"
  by (auto simp: moved_def paths_inv_drop path_of_drop)

lemma moved_conf: "paths_inv e \<Longrightarrow> moved id e (e\<lparr>eg_log := l\<rparr>)"
  by (rule moved_paths) (simp_all add: same_paths_def)

lemma movedD: "moved f e e' \<Longrightarrow> paths_inv e'"
  by (simp add: moved_def)

lemma moved_self: "moved f e e' \<Longrightarrow> eg_selfKey e' = eg_selfKey e"
  by (simp add: moved_def)

lemma moved_added:
  assumes "paths_inv e"
  shows "moved (\<lambda>P. P \<union> ({pb_WgPubKey p} - {eg_selfKey e})) e (sync_added env routes p e)"
proof (cases "pb_WgPubKey p = eg_selfKey e")
  case True
  then show ?thesis using assms by (simp add: sync_added_def moved_def)
next
  case False
  obtain e1 where e1: "same_rest (e\<lparr>eg_log := eg_log e @ conf_cmd (UpsertPeer (pb_WgPubKey p) (pb_AllowedIps p) [])\<rparr>) e1"
    "same_rest (ensureRelayLink env (pb_WgPubKey p) e1) (sync_added env routes p e)"
    using added_eq [OF refl False] .
  note m1 = moved_conf [OF assms, of "eg_log e @ conf_cmd (UpsertPeer (pb_WgPubKey p) (pb_AllowedIps p) [])"]
  note m2 = moved_trans [OF m1 moved_same [OF movedD [OF m1] e1(1)]]
  note m3 = moved_trans [OF m2 moved_ensure [OF movedD [OF m2], of "pb_WgPubKey p" env]]
  from moved_trans [OF m3 moved_same [OF movedD [OF m3] e1(2)]] False show ?thesis
    by (simp add: moved_def)
qed

lemma moved_updated:
  assumes "paths_inv e"
  shows "moved (\<lambda>P. P \<union> ({pb_WgPubKey (up_New u)} - {eg_selfKey e})) e (sync_updated env routes u e)"
proof (cases "pb_WgPubKey (up_New u) = eg_selfKey e")
  case True
  then show ?thesis using assms by (simp add: sync_updated_def moved_def)
next
  case False
  let ?k = "pb_WgPubKey (up_New u)"
  obtain e1 where e1: "same_rest (e\<lparr>eg_log := eg_log e @ conf_cmd (UpsertPeer ?k (pb_AllowedIps (up_New u)) [])\<rparr>) e1"
    "sync_updated env routes u e = ensureRelayLink env ?k e1"
    using updated_eq [OF refl False] .
  note m1 = moved_conf [OF assms, of "eg_log e @ conf_cmd (UpsertPeer ?k (pb_AllowedIps (up_New u)) [])"]
  note m2 = moved_trans [OF m1 moved_same [OF movedD [OF m1] e1(1)]]
  from moved_trans [OF m2 moved_ensure [OF movedD [OF m2], of ?k env]] False e1(2) show ?thesis
    by (simp add: moved_def)
qed

lemma moved_removed:
  assumes "paths_inv e"
  shows "moved (\<lambda>P. P - ({pb_WgPubKey p} - {eg_selfKey e})) e (sync_removed env p e)"
proof (cases "pb_WgPubKey p = eg_selfKey e")
  case True
  then show ?thesis using assms by (simp add: sync_removed_def moved_def)
next
  case False
  let ?k = "pb_WgPubKey p"
  obtain e1 where e1: "same_rest (e\<lparr>eg_log := eg_log e @ conf_cmd (RemovePeer ?k)\<rparr>) e1"
    "sync_removed env p e = dropPath ?k e1"
    using removed_eq [OF refl False] .
  note m1 = moved_conf [OF assms, of "eg_log e @ conf_cmd (RemovePeer ?k)"]
  note m2 = moved_trans [OF m1 moved_same [OF movedD [OF m1] e1(1)]]
  from moved_trans [OF m2 moved_drop [OF movedD [OF m2], of ?k]] False e1(2) show ?thesis
    by (simp add: moved_def)
qed

lemma fold_moved:
  assumes step: "\<And>x e. paths_inv e \<Longrightarrow> eg_selfKey e = s \<Longrightarrow> moved (g x) e (f x e)"
    and inv: "paths_inv e" "eg_selfKey e = s"
  shows "moved (fold g xs) e (fold f xs e)"
  using inv
proof (induction xs arbitrary: e)
  case Nil
  then show ?case by (simp add: moved_def)
next
  case (Cons x xs)
  note m = step [OF Cons.prems, of x]
  from moved_trans [OF m Cons.IH [OF movedD [OF m]]] moved_self [OF m] Cons.prems(2) show ?case by (simp add: comp_def)
qed

lemma fold_union: "fold (\<lambda>x P. P \<union> (f x - S)) xs P = P \<union> ((\<Union>x \<in> set xs. f x) - S)"
  by (induction xs arbitrary: P) auto

lemma fold_minus: "fold (\<lambda>x P. P - (f x - S)) xs P = P - ((\<Union>x \<in> set xs. f x) - S)"
  by (induction xs arbitrary: P) auto


lemma incomingMap_snoc: "incomingMap (ps @ [p]) = go_put (pb_WgPubKey p) p (incomingMap ps)"
  by (simp add: incomingMap_def)

lemma incomingMap_facts:
  "keyed pb_WgPubKey (incomingMap ps)" "go_get (incomingMap ps) k \<noteq> None \<longleftrightarrow> k \<in> pb_WgPubKey ` set ps"
proof -
  show "keyed pb_WgPubKey (incomingMap ps)"
    by (induction ps rule: rev_induct) (simp add: incomingMap_def, simp add: incomingMap_snoc)
  show "go_get (incomingMap ps) k \<noteq> None \<longleftrightarrow> k \<in> pb_WgPubKey ` set ps"
    by (induction ps rule: rev_induct) (simp add: incomingMap_def, auto simp: incomingMap_snoc go_get_put)
qed

text \<open>The keys of the three lists of a comparison.\<close>

lemma Diff_keys:
  assumes "keyed pb_WgPubKey peers" "Diff incoming peers = (added, updated, removed, inc)"
  shows "inc = incomingMap incoming"
    "pb_WgPubKey ` set added = pb_WgPubKey ` set incoming - dom (go_get peers)"
    "(\<lambda>u. pb_WgPubKey (up_New u)) ` set updated \<subseteq> pb_WgPubKey ` set incoming \<inter> dom (go_get peers)"
    "pb_WgPubKey ` set removed = dom (go_get peers) - pb_WgPubKey ` set incoming"
proof -
  note d = assms(2) [unfolded Diff_def Let_def prod.inject, THEN conjunct1]
    assms(2) [unfolded Diff_def Let_def prod.inject, THEN conjunct2]
  show "inc = incomingMap incoming" using d by simp
  show "pb_WgPubKey ` set added = pb_WgPubKey ` set incoming - dom (go_get peers)" using d by auto
  show "(\<lambda>u. pb_WgPubKey (up_New u)) ` set updated \<subseteq> pb_WgPubKey ` set incoming \<inter> dom (go_get peers)"
  proof
    fix k assume "k \<in> (\<lambda>u. pb_WgPubKey (up_New u)) ` set updated"
    then obtain u where "u \<in> set updated" "k = pb_WgPubKey (up_New u)" by blast
    then obtain p where "p \<in> set incoming" "k = pb_WgPubKey p" "go_get peers k \<noteq> None"
      using d(2) by (auto split: option.splits if_splits) metis
    then show "k \<in> pb_WgPubKey ` set incoming \<inter> dom (go_get peers)" by (simp add: domIff)
  qed
  have r: "set removed = {p. \<exists>k. go_get peers k = Some p \<and> k \<notin> pb_WgPubKey ` set incoming}"
    using d incomingMap_facts(2) [of incoming] go_get_in_set [OF keyed_wf [OF assms(1)]]
    by (force simp: image_iff)
  show "pb_WgPubKey ` set removed = dom (go_get peers) - pb_WgPubKey ` set incoming"
    unfolding r using keyedD [OF assms(1)] by (auto simp: image_iff dom_def)
qed

text \<open>One update: the peers with a path are the listed ones, the device itself apart.\<close>

lemma applySync_split:
  obtains added updated removed e1 e2 e3 e4 where
    "same_rest e e1" "Diff (sr_Peers resp) (eg_peers e) = (added, updated, removed, incomingMap (sr_Peers resp))"
    "e2 = fold (sync_added env (routesByGateway (sr_Routes resp))) added (e1\<lparr>eg_peers := incomingMap (sr_Peers resp)\<rparr>)"
    "e3 = fold (sync_updated env (routesByGateway (sr_Routes resp))) updated e2"
    "e4 = fold (sync_removed env) removed e3" "same_rest e4 (applySync env resp e)"
proof -
  let ?e1 = "sync_gateway env resp (e\<lparr>eg_lastRoutes := sr_Routes resp\<rparr>)"
  have s: "same_rest e ?e1"
    by (rule same_rest_trans [OF same_rest_upd(3) [of e "sr_Routes resp"]]) (simp add: same_rest_def gateway_facts)
  then have p: "eg_peers ?e1 = eg_peers e" by (simp add: same_rest_def same_paths_def)
  obtain added updated removed inc where d: "Diff (sr_Peers resp) (eg_peers e) = (added, updated, removed, inc)"
    using prod_cases4 by blast
  have inc: "inc = incomingMap (sr_Peers resp)" using d by (simp add: Diff_def Let_def)
  show ?thesis
    by (rule that [OF s d [unfolded inc] refl refl refl])
      (use acl_facts(1,2) in \<open>simp add: applySync_def p d inc Let_def same_rest_def\<close>)
qed

lemma applySync_inv:
  assumes inv: "agent_inv e"
  shows "agent_inv (applySync env resp e)" "eg_peers (applySync env resp e) = incomingMap (sr_Peers resp)"
    "eg_selfKey (applySync env resp e) = eg_selfKey e"
proof -
  obtain added updated removed e1 e2 e3 e4 where
    s1: "same_rest e e1" and d: "Diff (sr_Peers resp) (eg_peers e) = (added, updated, removed, incomingMap (sr_Peers resp))"
    and e2: "e2 = fold (sync_added env (routesByGateway (sr_Routes resp))) added (e1\<lparr>eg_peers := incomingMap (sr_Peers resp)\<rparr>)"
    and e3: "e3 = fold (sync_updated env (routesByGateway (sr_Routes resp))) updated e2"
    and e4: "e4 = fold (sync_removed env) removed e3" and s4: "same_rest e4 (applySync env resp e)"
    using applySync_split .
  let ?s = "eg_selfKey e" and ?e1 = "e1\<lparr>eg_peers := incomingMap (sr_Peers resp)\<rparr>"
  have i: "paths_inv e" "keyed pb_WgPubKey (eg_peers e)" "dom (path_of e) = dom (go_get (eg_peers e)) - {?s}"
    using inv by (auto simp: agent_inv_def)
  have m1: "moved id e e1" by (rule moved_same [OF i(1) s1])
  have i1: "paths_inv ?e1" "eg_selfKey ?e1 = ?s" "path_of ?e1 = path_of e1"
    using m1 by (auto simp: moved_def paths_inv_def objects_ok_def path_of_def path_open_def fun_eq_iff)
  have a: "moved (\<lambda>P. P \<union> ({pb_WgPubKey p} - {?s})) x (sync_added env r p x)"
    if "paths_inv x" "eg_selfKey x = ?s" for p x r using moved_added [OF that(1), of p env r] unfolding that(2) .
  have u: "moved (\<lambda>P. P \<union> ({pb_WgPubKey (up_New v)} - {?s})) x (sync_updated env r v x)"
    if "paths_inv x" "eg_selfKey x = ?s" for v x r using moved_updated [OF that(1), of v env r] unfolding that(2) .
  have r: "moved (\<lambda>P. P - ({pb_WgPubKey p} - {?s})) x (sync_removed env p x)"
    if "paths_inv x" "eg_selfKey x = ?s" for p x using moved_removed [OF that(1), of p env] unfolding that(2) .
  let ?r = "routesByGateway (sr_Routes resp)"
  let ?A = "\<lambda>p P. P \<union> ({pb_WgPubKey p} - {?s})" and ?U = "\<lambda>v P. P \<union> ({pb_WgPubKey (up_New v)} - {?s})"
    and ?R = "\<lambda>p P. P - ({pb_WgPubKey p} - {?s})"
  have m2: "moved (fold ?A added) ?e1 e2"
    unfolding e2 by (rule fold_moved [where s = ?s and g = ?A and f = "sync_added env ?r"]) (rule a, assumption+, rule i1, rule i1)
  have s2: "eg_selfKey e2 = ?s" using moved_self [OF m2] i1(2) by simp
  have m3: "moved (fold ?U updated) e2 e3"
    unfolding e3 by (rule fold_moved [where s = ?s and g = ?U and f = "sync_updated env ?r"]) (rule u, assumption+, rule movedD [OF m2], rule s2)
  have s3: "eg_selfKey e3 = ?s" using moved_self [OF m3] s2 by simp
  have m4: "moved (fold ?R removed) e3 e4"
    unfolding e4 by (rule fold_moved [where s = ?s and g = ?R and f = "sync_removed env"]) (rule r, assumption+, rule movedD [OF m3], rule s3)
  note m5 = moved_trans [OF moved_trans [OF moved_trans [OF m2 m3] m4] moved_same [OF movedD [OF m4] s4]]
  show p: "eg_peers (applySync env resp e) = incomingMap (sr_Peers resp)" using m5 by (simp add: moved_def)
  show sk: "eg_selfKey (applySync env resp e) = ?s" using m5 i1(2) by (simp add: moved_def)
  let ?I = "pb_WgPubKey ` set (sr_Peers resp)" and ?D = "dom (go_get (eg_peers e))"
  have d1: "dom (path_of ?e1) = ?D - {?s}" using m1 i1(3) i(3) by (simp add: moved_def)
  have "dom (path_of (applySync env resp e)) =
      ((?D - {?s}) \<union> (pb_WgPubKey ` set added - {?s}) \<union> ((\<lambda>u. pb_WgPubKey (up_New u)) ` set updated - {?s}))
        - (pb_WgPubKey ` set removed - {?s})"
    using m5 by (simp add: moved_def fold_union fold_minus d1 UNION_singleton_eq_range)
  then have dom: "dom (path_of (applySync env resp e)) = ?I - {?s}"
    unfolding Diff_keys(2,4) [OF i(2) d] using Diff_keys(3) [OF i(2) d] by blast
  have "path_of (applySync env resp e) k \<noteq> None \<longleftrightarrow> k \<noteq> ?s \<and> go_get (incomingMap (sr_Peers resp)) k \<noteq> None" for k
    unfolding incomingMap_facts(2) using dom by (auto simp: dom_def)
  then show "agent_inv (applySync env resp e)"
    using movedD [OF m5] incomingMap_facts(1) by (simp add: agent_inv_def p sk)
qed

text \<open>An update builds at most one path per listed peer.\<close>

lemma length_ensure: "length (eg_objects (ensureRelayLink env k e)) \<le> Suc (length (eg_objects e))"
  by (simp add: ensureRelayLink_def UpdateEndpoint_def issue_conf_eq Let_def split: option.splits prod.splits)

lemma length_same: "same_rest e e' \<Longrightarrow> length (eg_objects e') = length (eg_objects e)"
  by (simp add: same_rest_def same_paths_def)

lemma length_added: "length (eg_objects (sync_added env routes p e)) \<le> Suc (length (eg_objects e))"
proof (cases "pb_WgPubKey p = eg_selfKey e")
  case False
  then obtain e' where "same_rest (e\<lparr>eg_log := eg_log e @ conf_cmd (UpsertPeer (pb_WgPubKey p) (pb_AllowedIps p) [])\<rparr>) e'"
    "same_rest (ensureRelayLink env (pb_WgPubKey p) e') (sync_added env routes p e)" using added_eq [OF refl] by blast
  then show ?thesis using length_ensure [of env "pb_WgPubKey p" e'] by (auto dest!: length_same)
qed (simp add: sync_added_def)

lemma length_updated: "length (eg_objects (sync_updated env routes u e)) \<le> Suc (length (eg_objects e))"
proof (cases "pb_WgPubKey (up_New u) = eg_selfKey e")
  case False
  let ?k = "pb_WgPubKey (up_New u)"
  from False obtain e' where "same_rest (e\<lparr>eg_log := eg_log e @ conf_cmd (UpsertPeer ?k (pb_AllowedIps (up_New u)) [])\<rparr>) e'"
    "sync_updated env routes u e = ensureRelayLink env ?k e'" using updated_eq [OF refl] by blast
  then show ?thesis using length_ensure [of env ?k e'] by (auto dest!: length_same)
qed (simp add: sync_updated_def)

lemma length_removed: "length (eg_objects (sync_removed env p e)) = length (eg_objects e)"
proof (cases "pb_WgPubKey p = eg_selfKey e")
  case False
  then obtain e' where "same_rest (e\<lparr>eg_log := eg_log e @ conf_cmd (RemovePeer (pb_WgPubKey p))\<rparr>) e'"
    "sync_removed env p e = dropPath (pb_WgPubKey p) e'" using removed_eq [OF refl] by blast
  then show ?thesis by (auto simp: dropPath_def Let_def at_object_def dest!: length_same split: option.splits)
qed (simp add: sync_removed_def)

lemma fold_length:
  "(\<And>x e. length (eg_objects (f x e)) \<le> n + length (eg_objects e)) \<Longrightarrow>
     length (eg_objects (fold f xs e)) \<le> n * length xs + length (eg_objects e)"
proof (induction xs arbitrary: e)
  case (Cons x xs)
  from Cons.IH [OF Cons.prems, of "f x e"] Cons.prems [of x e] show ?case by simp
qed simp

lemma Diff_length:
  assumes "Diff incoming peers = (added, updated, removed, inc)"
  shows "length added + length updated \<le> length incoming"
proof -
  let ?P = "\<lambda>p. go_get peers (pb_WgPubKey p) = None"
  let ?g = "\<lambda>p. case go_get peers (pb_WgPubKey p) of None \<Rightarrow> []
            | Some existing \<Rightarrow> if peer_changed existing p then [\<lparr>up_Old = existing, up_New = p\<rparr>] else []"
  have "length (filter ?P ps) + length (concat (map ?g ps)) \<le> length ps" for ps
    by (induction ps) (auto split: option.splits)
  then show ?thesis using assms by (auto simp: Diff_def Let_def)
qed

lemma applySync_length: "length (eg_objects (applySync env resp e)) \<le> length (sr_Peers resp) + length (eg_objects e)"
proof -
  obtain added updated removed e1 e2 e3 e4 where s: "same_rest e e1"
    and d: "Diff (sr_Peers resp) (eg_peers e) = (added, updated, removed, incomingMap (sr_Peers resp))"
    and e2: "e2 = fold (sync_added env (routesByGateway (sr_Routes resp))) added (e1\<lparr>eg_peers := incomingMap (sr_Peers resp)\<rparr>)"
    and e3: "e3 = fold (sync_updated env (routesByGateway (sr_Routes resp))) updated e2"
    and e4: "e4 = fold (sync_removed env) removed e3" and s4: "same_rest e4 (applySync env resp e)"
    using applySync_split .
  have "length (eg_objects e2) \<le> 1 * length added + length (eg_objects (e1\<lparr>eg_peers := incomingMap (sr_Peers resp)\<rparr>))"
    unfolding e2 by (rule fold_length) (simp add: length_added)
  moreover have "length (eg_objects e3) \<le> 1 * length updated + length (eg_objects e2)"
    unfolding e3 by (rule fold_length) (simp add: length_updated)
  moreover have "length (eg_objects e4) \<le> 0 * length removed + length (eg_objects e3)"
    unfolding e4 by (rule fold_length) (simp add: length_removed)
  moreover note Diff_length [OF d] length_same [OF s] length_same [OF s4]
  ultimately show ?thesis by simp
qed


section \<open>Reachable states\<close>

text \<open>One round of the read loop of a direct connection; a packet that is not a probe goes to the bind.\<close>

definition link_read :: "gtime \<Rightarrow> bool \<Rightarrow> byte list \<Rightarrow> nat \<Rightarrow> Engine \<Rightarrow> Engine" where
  "link_read now prefer_done buf l e =
     (case go_get (eg_objects e) l of
        None \<Rightarrow> e
      | Some (rc, link) \<Rightarrow>
          (case iceRead_packet now buf link of
             (Inject pkt, _) \<Rightarrow>
               (case ReceiveFromRelay prefer_done pkt (Some (V4 (rc_ip rc), 1)) (eg_bind e) of
                  None \<Rightarrow> e
                | Some b \<Rightarrow> e\<lparr>eg_bind := b\<rparr>)
           | _ \<Rightarrow> at_object l (\<lambda>(rc, link). (rc, snd (iceRead_packet now buf link))) e))"

inductive agent_step :: "Engine \<Rightarrow> Engine \<Rightarrow> bool" where
  agent_sync: "agent_step e (applySync env resp e)"
| agent_connected: "agent_step e (OnConnected k conn e)"
| agent_signal: "agent_step e (snd (onSignal now prefer_done msg e))"
| agent_read: "agent_step e (link_read now prefer_done buf l e)"
| agent_read_error: "agent_step e (at_object l (\<lambda>(rc, link). (rc, iceRead_error conn link)) e)"
| agent_probe: "agent_step e (at_object l (\<lambda>(rc, link). (rc, probe_tick conn ping_ok now link)) e)"
| agent_receive: "receiveRelayed prefer_done (eg_bind e) = Some (pkt, b) \<Longrightarrow> agent_step e (e\<lparr>eg_bind := b\<rparr>)"

definition agent_start :: "Engine \<Rightarrow> bool" where
  "agent_start e \<longleftrightarrow> (\<exists>self ns iface mgm sig up. e = New_Engine self ns iface mgm sig up)"

lemma agent_inv_bind:
  assumes "agent_inv e" "rb_endpoints b = rb_endpoints (eg_bind e)"
  shows "agent_inv (e\<lparr>eg_bind := b\<rparr>)"
  using assms by (simp add: agent_inv_def paths_inv_def objects_ok_def path_of_def path_open_def)

lemma agent_inv_object:
  assumes "agent_inv e" "\<And>rc link. lk_closed (f rc link) = lk_closed link"
  shows "agent_inv (at_object l (\<lambda>(rc, link). (rc, f rc link)) e)"
  using assms paths_inv_at_object [of e "\<lambda>(rc, link). (rc, f rc link)" l]
  by (simp add: agent_inv_def split_def)

lemma closed_link [simp]:
  "lk_closed (SetICEConn c link) = lk_closed link" "lk_closed (iceRead_error c link) = lk_closed link"
  "lk_closed (probe_tick c ok now link) = lk_closed link"
  by (simp_all add: SetICEConn_def iceRead_error_def probe_tick_def split: option.splits prod.splits)

lemma endpoints_receive: "ReceiveFromRelay pd d src b = Some b' \<Longrightarrow> rb_endpoints b' = rb_endpoints b"
  by (auto simp: ReceiveFromRelay_def split: if_splits)

lemma agent_inv_unlogged: "agent_inv e \<Longrightarrow> agent_inv (e\<lparr>eg_unknownRelayLogged := m\<rparr>)"
  by (simp add: agent_inv_def paths_inv_def objects_ok_def path_of_def path_open_def)

lemma agent_inv_signal: "agent_inv e \<Longrightarrow> agent_inv (snd (onSignal now pd msg e))"
  by (auto simp: onSignal_def logUnknownRelayPeer_def agent_inv_unlogged
      intro!: agent_inv_bind dest: endpoints_receive split: option.splits)

lemma agent_inv_read:
  assumes "agent_inv e"
  shows "agent_inv (link_read now pd buf l e)"
proof (cases "go_get (eg_objects e) l")
  case (Some v)
  obtain rc link where v: "v = (rc, link)" by (cases v)
  obtain a link' where i: "iceRead_packet now buf link = (a, link')" by (cases "iceRead_packet now buf link")
  have "agent_inv (at_object l (\<lambda>(rc, link). (rc, snd (iceRead_packet now buf link))) e)"
    by (rule agent_inv_object [OF assms]) (simp add: iceRead_packet_def)
  moreover have "agent_inv (e\<lparr>eg_bind := b\<rparr>)" if "ReceiveFromRelay pd pkt src (eg_bind e) = Some b" for pkt src b
    using agent_inv_bind [OF assms endpoints_receive [OF that]] .
  ultimately show ?thesis
    using assms Some v i by (cases a) (auto simp: link_read_def split: option.splits)
qed (use assms in \<open>simp add: link_read_def\<close>)

lemma agent_inv_step: "agent_step e e' \<Longrightarrow> agent_inv e \<Longrightarrow> agent_inv e'"
proof (induction rule: agent_step.induct)
  case (agent_connected e k conn)
  then show ?case
    by (cases "go_get (eg_links e) k") (simp_all add: OnConnected_def agent_inv_object)
next
  case (agent_receive pd e pkt b)
  then have "rb_endpoints b = rb_endpoints (eg_bind e)"
    by (auto simp: receiveRelayed_def split: if_splits list.splits)
  then show ?case using agent_receive agent_inv_bind by blast
qed (simp_all add: applySync_inv agent_inv_signal agent_inv_read agent_inv_object)

lemma agent_inv_start: "agent_start e \<Longrightarrow> agent_inv e"
  by (auto simp: agent_start_def New_Engine_def agent_inv_def paths_inv_def objects_ok_def path_of_def)

interpretation agent: invariant_system agent_start agent_step agent_inv
  by unfold_locales (auto intro: agent_inv_start agent_inv_step)


text \<open>What the invariant gives for one peer: the endpoint that WireGuard knows, and the objects behind it.\<close>

lemma listed_path:
  assumes "agent_inv e" "go_get (eg_peers e) k \<noteq> None" "k \<noteq> eg_selfKey e" "length (eg_objects e) \<le> 65536"
  obtains ep l rc link where "go_get (eg_relayEndpts e) k = Some (Some ep)" "go_get (eg_objects e) l = Some (rc, link)"
    "go_get (rb_endpoints (eg_bind e)) ep = Some l" "rc_selfKey rc = eg_selfKey e" "rc_peerKey rc = k" "\<not> rc_closed rc"
proof -
  obtain l where l: "path_of e k = Some l" using assms(1-3) by (force simp: agent_inv_def)
  then have "path_open e k l" using assms(1) by (simp add: agent_inv_def path_openD)
  then show ?thesis using that assms(4) unfolding path_open_def by blast
qed

lemma unlisted_no_path:
  assumes "agent_inv e" "go_get (eg_peers e) k = None"
  shows "go_get (eg_relayEndpts e) k = None"
proof -
  have "path_of e k = None" using assms unfolding agent_inv_def by metis
  then show ?thesis using assms(1) by (simp add: agent_inv_def paths_inv_def)
qed

text \<open>The queue of relayed packets is never closed and never overfull.\<close>

definition queue_of :: "Engine \<Rightarrow> bool \<times> (byte list \<times> addr_port option) list" where
  "queue_of e = (rb_done (eg_bind e), rb_relayCh (eg_bind e))"

lemma queue_same: "same_rest e e' \<Longrightarrow> queue_of e' = queue_of e"
  by (simp add: queue_of_def same_rest_def same_paths_def)

lemma queue_ensure: "queue_of (ensureRelayLink env k e) = queue_of e"
  by (auto simp: queue_of_def ensureRelayLink_def UpdateEndpoint_def issue_conf_eq SetEndpoint_def Let_def
      split: option.splits prod.splits)

lemma queue_log [simp]: "queue_of (e\<lparr>eg_log := past\<rparr>) = queue_of e" "queue_of (e\<lparr>eg_peers := ps\<rparr>) = queue_of e"
  by (simp_all add: queue_of_def)

lemma queue_at_object [simp]: "queue_of (at_object l g e) = queue_of e"
  by (simp add: queue_of_def at_object_def)

lemma queue_drop: "queue_of (dropPath k e) = queue_of e"
  by (auto simp: queue_of_def dropPath_def at_object_def Let_def split: option.splits)

lemma queue_added: "queue_of (sync_added env routes p e) = queue_of e"
proof (cases "pb_WgPubKey p = eg_selfKey e")
  case False
  then obtain e' where "same_rest (e\<lparr>eg_log := eg_log e @ conf_cmd (UpsertPeer (pb_WgPubKey p) (pb_AllowedIps p) [])\<rparr>) e'"
    "same_rest (ensureRelayLink env (pb_WgPubKey p) e') (sync_added env routes p e)" using added_eq [OF refl] by blast
  then show ?thesis using queue_ensure by (auto dest!: queue_same)
qed (simp add: sync_added_def)

lemma queue_updated: "queue_of (sync_updated env routes u e) = queue_of e"
proof (cases "pb_WgPubKey (up_New u) = eg_selfKey e")
  case False
  let ?k = "pb_WgPubKey (up_New u)"
  from False obtain e' where "same_rest (e\<lparr>eg_log := eg_log e @ conf_cmd (UpsertPeer ?k (pb_AllowedIps (up_New u)) [])\<rparr>) e'"
    "sync_updated env routes u e = ensureRelayLink env ?k e'" using updated_eq [OF refl] by blast
  then show ?thesis using queue_ensure by (auto dest!: queue_same)
qed (simp add: sync_updated_def)

lemma queue_removed: "queue_of (sync_removed env p e) = queue_of e"
proof (cases "pb_WgPubKey p = eg_selfKey e")
  case False
  then obtain e' where "same_rest (e\<lparr>eg_log := eg_log e @ conf_cmd (RemovePeer (pb_WgPubKey p))\<rparr>) e'"
    "sync_removed env p e = dropPath (pb_WgPubKey p) e'" using removed_eq [OF refl] by blast
  then show ?thesis using queue_drop by (auto dest!: queue_same)
qed (simp add: sync_removed_def)

lemma queue_fold: "(\<And>x e. queue_of (g x e) = queue_of e) \<Longrightarrow> queue_of (fold g xs e) = queue_of e"
  by (induction xs arbitrary: e) simp_all

lemma queue_applySync: "queue_of (applySync env resp e) = queue_of e"
proof -
  obtain added updated removed e1 e2 e3 e4 where s: "same_rest e e1"
    and d: "Diff (sr_Peers resp) (eg_peers e) = (added, updated, removed, incomingMap (sr_Peers resp))"
    and e2: "e2 = fold (sync_added env (routesByGateway (sr_Routes resp))) added (e1\<lparr>eg_peers := incomingMap (sr_Peers resp)\<rparr>)"
    and e3: "e3 = fold (sync_updated env (routesByGateway (sr_Routes resp))) updated e2"
    and e4: "e4 = fold (sync_removed env) removed e3" and s4: "same_rest e4 (applySync env resp e)"
    using applySync_split .
  have "queue_of e4 = queue_of e1"
    unfolding e4 e3 e2 by (simp add: queue_fold queue_added queue_updated queue_removed)
  then show ?thesis using queue_same [OF s] queue_same [OF s4] by simp
qed

interpretation agent_queue: invariant_system agent_start agent_step
  "\<lambda>e. \<not> fst (queue_of e) \<and> length (snd (queue_of e)) \<le> 512"
proof unfold_locales
  show "\<not> fst (queue_of e) \<and> length (snd (queue_of e)) \<le> 512" if "agent_start e" for e
    using that by (auto simp: agent_start_def queue_of_def New_Engine_def NewRelayBind_def)
  fix e e' assume "agent_step e e'" and q: "\<not> fst (queue_of e) \<and> length (snd (queue_of e)) \<le> 512"
  then show "\<not> fst (queue_of e') \<and> length (snd (queue_of e')) \<le> 512"
  proof (cases rule: agent_step.cases)
    case (agent_signal now prefer_done msg)
    then show ?thesis using q
      by (auto simp: onSignal_def logUnknownRelayPeer_def ReceiveFromRelay_def queue_of_def split: option.splits prod.splits)
  next
    case (agent_read now prefer_done buf l)
    then show ?thesis using q
      by (auto simp: link_read_def ReceiveFromRelay_def queue_of_def at_object_def Let_def
          split: option.splits prod.splits read_action.splits)
  next
    case (agent_receive prefer_done pkt b)
    then show ?thesis using q by (auto simp: receiveRelayed_def queue_of_def split: list.splits if_splits)
  qed (use q in \<open>auto simp: queue_applySync OnConnected_def split: option.splits\<close>)
qed

lemma send_bufs_eq: "send_bufs ok c bufs = (map (Pair c) (takeWhile ok bufs), list_all ok bufs)"
  by (induction bufs) auto

lemma Send_bind_eq:
  "go_get (rb_endpoints b) ep = Some l \<Longrightarrow> Send_bind ok bufs (Some ep) b = (map (Pair l) (takeWhile ok bufs), list_all ok bufs)"
  by (simp add: Send_bind_def send_bufs_eq)


section \<open>Properties\<close>

definition relay_msg :: "string \<Rightarrow> string \<Rightarrow> byte list \<Rightarrow> sig_Message" where
  "relay_msg from to data = \<lparr>sm_Key = from, sm_RemoteKey = to, sm_Type = RELAY, sm_Payload = [], sm_Data = data\<rparr>"

lemma Write_relay_msg:
  "\<not> rc_closed rc \<Longrightarrow> sc_connected sc \<Longrightarrow> Write_relay b sc rc = Some (relay_msg (sc_selfKey sc) (rc_peerKey rc) b)"
  by (simp add: Write_relay_def sc_Send_def relay_msg_def)


definition example_pb :: "string \<Rightarrow> string list \<Rightarrow> pb_Peer" where
  "example_pb k ips = \<lparr>pb_Id = k, pb_WgPubKey = k, pb_Ip = ''100.64.0.2'', pb_Hostname = ''host'', pb_Os = ''linux'',
     pb_AllowedIps = ips, pb_DnsLabel = ''host'', pb_LocalIp = [], pb_PublicIp = [], pb_Country = []\<rparr>"

definition example_resp :: "pb_Peer list \<Rightarrow> pb_Route list \<Rightarrow> string \<Rightarrow> SyncResponse" where
  "example_resp ps rs exitNode = \<lparr>sr_Peers = ps, sr_Routes = rs, sr_Rules = [],
     sr_Network = \<lparr>nc_Network = ''100.64.0.0/10'', nc_ExitNode = exitNode\<rparr>, sr_Serial = []\<rparr>"

definition example_agent_env :: agent_env where
  "example_agent_env = \<lparr>ae_ok = \<lambda>_ _. True, ae_gateway = Some (V4 0xC0A80001, ''eth0''), ae_lookup = \<lambda>_. Some [''203.0.113.5'']\<rparr>"

definition example_new_engine :: Engine where
  "example_new_engine = New_Engine ''QQ=='' False ''blinex0'' ''mgmt:50051'' ''127.0.0.1:10000'' ''8.8.8.8:53''"

definition example_engine :: Engine where
  "example_engine = applySync example_agent_env (example_resp [example_pb ''Qg=='' [''100.64.0.2/32'']] [] []) example_new_engine"

lemma example_engine_reach: "reach agent_start agent_step example_engine"
  unfolding example_engine_def
proof (rule reach_step)
  show "reach agent_start agent_step example_new_engine"
    by (rule reach_init) (unfold agent_start_def example_new_engine_def, blast)
  show "agent_step example_new_engine
      (applySync example_agent_env (example_resp [example_pb ''Qg=='' [''100.64.0.2/32'']] [] []) example_new_engine)"
    by (rule agent_sync)
qed

lemmas example_agent_defs =
  example_pb_def example_resp_def example_agent_env_def example_new_engine_def example_engine_def

lemma example_engine_facts:
  "eg_selfKey example_engine = ''QQ==''" "go_get (eg_peers example_engine) ''Qg=='' = Some (example_pb ''Qg=='' [''100.64.0.2/32''])"
  "go_get (eg_peers example_engine) ''Qw=='' = None" "length (eg_objects example_engine) \<le> 65536"
proof -
  have i: "agent_inv example_new_engine"
    by (rule agent_inv_start) (unfold agent_start_def example_new_engine_def, blast)
  show "eg_selfKey example_engine = ''QQ==''" "go_get (eg_peers example_engine) ''Qg=='' = Some (example_pb ''Qg=='' [''100.64.0.2/32''])"
    "go_get (eg_peers example_engine) ''Qw=='' = None"
    unfolding example_engine_def applySync_inv(2,3) [OF i]
    by (simp_all add: example_new_engine_def New_Engine_def example_resp_def example_pb_def incomingMap_def go_eval)
  show "length (eg_objects example_engine) \<le> 65536"
    using applySync_length [of example_agent_env "example_resp [example_pb ''Qg=='' [''100.64.0.2/32'']] [] []" example_new_engine]
    by (simp add: example_engine_def example_resp_def example_new_engine_def New_Engine_def)
qed


end
