(* ===== verification/Agent_Device.thy ===== *)
theory Agent_Device
  imports Agent_Paths
begin

text \<open>
  The WireGuard device behind the agent. The configuration texts of the engine's log are given to a
  device that obeys \<open>wg_uapi\<close>; the lemmas say which peers it knows and which peer each network is routed
  to after an update. The last part is a device that reads the texts and obeys the laws.
\<close>

section \<open>The device after a log\<close>

definition wg_apply :: "(string \<Rightarrow> 'd \<Rightarrow> 'd option) \<Rightarrow> string \<Rightarrow> 'd \<Rightarrow> 'd" where
  "wg_apply ipc t d = (case ipc t d of None \<Rightarrow> d | Some d' \<Rightarrow> d')"

definition wg_device :: "(string \<Rightarrow> 'd \<Rightarrow> 'd option) \<Rightarrow> 'd \<Rightarrow> Engine \<Rightarrow> 'd" where
  "wg_device ipc d0 e = fold (wg_apply ipc) (confs (eg_log e)) d0"

lemma wg_device_same: "same_rest e e' \<Longrightarrow> wg_device ipc d0 e' = wg_device ipc d0 e"
  by (simp add: wg_device_def same_rest_def)

lemma wg_device_log: "wg_device ipc d0 (e\<lparr>eg_log := eg_log e @ cs\<rparr>) = fold (wg_apply ipc) (confs cs) (wg_device ipc d0 e)"
  by (simp add: wg_device_def)

lemma confs_conf_cmd: "confs (conf_cmd t) = (case t of None \<Rightarrow> [] | Some x \<Rightarrow> [x])"
  by (simp add: conf_cmd_def split: option.splits)

lemma wg_device_drop: "wg_device ipc d0 (dropPath k e) = wg_device ipc d0 e"
  by (simp add: wg_device_def)

text \<open>A peer as the device can take it: a key that decodes to a remote key, and networks that parse.\<close>

definition usable :: "(string \<Rightarrow> bool) \<Rightarrow> pb_Peer \<Rightarrow> bool" where
  "usable remote p \<longleftrightarrow> (\<exists>hx. pubHex (pb_WgPubKey p) = Some hx \<and> remote hx)
     \<and> (\<forall>c \<in> set (pb_AllowedIps p). one_line c \<and> wg_net c \<noteq> None)"

lemma one_line_endpoint: "one_line (Endpoint c)"
proof -
  have nl: "CHR 0x0A \<notin> set (itoa n)" for n using itoa_digits [of "CHR 0x0A" n] by (auto simp: is_digit_def)
  show ?thesis by (simp add: one_line_def Endpoint_def show_v4_def nl)
qed

lemma wg_uapiD:
  assumes "wg_uapi remote ipc peers owner" "remote hx"
  shows "\<forall>c \<in> set ips. one_line c \<and> wg_net c \<noteq> None \<Longrightarrow>
      \<exists>d'. ipc (peer_conf hx ips []) d = Some d' \<and> peers d' = insert hx (peers d)
        \<and> owner d' = (\<lambda>n. if n \<in> wg_nets ips then Some hx else owner d n)"
    "ParseAddrPort ep \<noteq> None \<Longrightarrow> one_line ep \<Longrightarrow>
      \<exists>d'. ipc (endpoint_conf hx ep) d = Some d' \<and> peers d' = insert hx (peers d) \<and> owner d' = owner d"
    "\<exists>d'. ipc (remove_conf hx) d = Some d' \<and> peers d' = peers d - {hx}
        \<and> owner d' = (\<lambda>n. if owner d n = Some hx then None else owner d n)"
proof -
  note laws = assms(1) [unfolded wg_uapi_def]
  show "\<exists>d'. ipc (peer_conf hx ips []) d = Some d' \<and> peers d' = insert hx (peers d)
        \<and> owner d' = (\<lambda>n. if n \<in> wg_nets ips then Some hx else owner d n)"
    if "\<forall>c \<in> set ips. one_line c \<and> wg_net c \<noteq> None"
    using laws [THEN conjunct1, rule_format, of hx ips "[]" d] assms(2) that by simp
  show "\<exists>d'. ipc (endpoint_conf hx ep) d = Some d' \<and> peers d' = insert hx (peers d) \<and> owner d' = owner d"
    if "ParseAddrPort ep \<noteq> None" "one_line ep"
    using laws [THEN conjunct2, THEN conjunct1, rule_format, of hx ep d] assms(2) that by simp
  show "\<exists>d'. ipc (remove_conf hx) d = Some d' \<and> peers d' = peers d - {hx}
        \<and> owner d' = (\<lambda>n. if owner d n = Some hx then None else owner d n)"
    using laws [THEN conjunct2, THEN conjunct2, rule_format, of hx d] assms(2) by simp
qed

lemma apply_peer:
  assumes "wg_uapi remote ipc peers owner" "remote hx" "\<forall>c \<in> set ips. one_line c \<and> wg_net c \<noteq> None"
  shows "peers (wg_apply ipc (peer_conf hx ips []) d) = insert hx (peers d)"
    "owner (wg_apply ipc (peer_conf hx ips []) d) = (\<lambda>n. if n \<in> wg_nets ips then Some hx else owner d n)"
proof -
  obtain d' where "ipc (peer_conf hx ips []) d = Some d'" "peers d' = insert hx (peers d)"
    "owner d' = (\<lambda>n. if n \<in> wg_nets ips then Some hx else owner d n)"
    using wg_uapiD(1) [OF assms, of d] by metis
  then show "peers (wg_apply ipc (peer_conf hx ips []) d) = insert hx (peers d)"
    "owner (wg_apply ipc (peer_conf hx ips []) d) = (\<lambda>n. if n \<in> wg_nets ips then Some hx else owner d n)"
    by (simp_all add: wg_apply_def)
qed

lemma apply_endpoint:
  assumes "wg_uapi remote ipc peers owner" "remote hx"
  shows "peers (wg_apply ipc (endpoint_conf hx (Endpoint c)) d) = insert hx (peers d)"
    "owner (wg_apply ipc (endpoint_conf hx (Endpoint c)) d) = owner d"
proof -
  have "ParseAddrPort (Endpoint c) \<noteq> None" by (simp add: Endpoint_parses)
  from wg_uapiD(2) [OF assms this one_line_endpoint, of d] obtain d' where "ipc (endpoint_conf hx (Endpoint c)) d = Some d'" "peers d' = insert hx (peers d)" "owner d' = owner d" by metis
  then show "peers (wg_apply ipc (endpoint_conf hx (Endpoint c)) d) = insert hx (peers d)"
    "owner (wg_apply ipc (endpoint_conf hx (Endpoint c)) d) = owner d"
    by (simp_all add: wg_apply_def)
qed

lemma apply_remove:
  assumes "wg_uapi remote ipc peers owner" "remote hx"
  shows "peers (wg_apply ipc (remove_conf hx) d) = peers d - {hx}"
    "owner (wg_apply ipc (remove_conf hx) d) = (\<lambda>n. if owner d n = Some hx then None else owner d n)"
proof -
  obtain d' where "ipc (remove_conf hx) d = Some d'" "peers d' = peers d - {hx}"
    "owner d' = (\<lambda>n. if owner d n = Some hx then None else owner d n)"
    using wg_uapiD(3) [OF assms, of d] by metis
  then show "peers (wg_apply ipc (remove_conf hx) d) = peers d - {hx}"
    "owner (wg_apply ipc (remove_conf hx) d) = (\<lambda>n. if owner d n = Some hx then None else owner d n)"
    by (simp_all add: wg_apply_def)
qed


section \<open>Steps of an update\<close>

text \<open>What a step does to a device: the peers it knows, the owner of each network.\<close>

definition listed :: "string \<Rightarrow> pb_Peer \<Rightarrow> string set" where
  "listed self p = (if pb_WgPubKey p = self then {} else set_option (pubHex (pb_WgPubKey p)))"

definition claims :: "string \<Rightarrow> pb_Peer \<Rightarrow> (ipnet \<Rightarrow> string option) \<Rightarrow> ipnet \<Rightarrow> string option" where
  "claims self p own =
     (if pb_WgPubKey p = self then own
      else (\<lambda>n. if n \<in> wg_nets (pb_AllowedIps p) then pubHex (pb_WgPubKey p) else own n))"

definition disowns :: "string \<Rightarrow> pb_Peer \<Rightarrow> (ipnet \<Rightarrow> string option) \<Rightarrow> ipnet \<Rightarrow> string option" where
  "disowns self p own =
     (if pb_WgPubKey p = self then own
      else (\<lambda>n. if own n \<noteq> None \<and> own n = pubHex (pb_WgPubKey p) then None else own n))"

lemma ensure_device:
  assumes "wg_uapi remote ipc peers owner" "paths_inv e" "pubHex k = Some hx" "remote hx" "hx \<in> peers (wg_device ipc d0 e)"
  shows "peers (wg_device ipc d0 (ensureRelayLink env k e)) = peers (wg_device ipc d0 e)"
    "owner (wg_device ipc d0 (ensureRelayLink env k e)) = owner (wg_device ipc d0 e)"
proof -
  have d: "wg_device ipc d0 (add_path k e) =
      wg_apply ipc (endpoint_conf hx (Endpoint (new_conn k e))) (wg_device ipc d0 e)"
    by (simp add: wg_device_def add_path_def Let_def confs_conf_cmd SetPeerEndpoint_def assms(3))
  show "peers (wg_device ipc d0 (ensureRelayLink env k e)) = peers (wg_device ipc d0 e)"
    unfolding ensure_eq [OF assms(2)] using apply_endpoint(1) [OF assms(1,4)] assms(5) by (auto simp: d)
  show "owner (wg_device ipc d0 (ensureRelayLink env k e)) = owner (wg_device ipc d0 e)"
    unfolding ensure_eq [OF assms(2)] using apply_endpoint(2) [OF assms(1,4)] by (simp add: d)
qed

lemma upsert_device:
  assumes u: "wg_uapi remote ipc peers owner" and p: "usable remote p" "pb_WgPubKey p \<noteq> self"
    and e1: "same_rest (e\<lparr>eg_log := eg_log e @ conf_cmd (UpsertPeer (pb_WgPubKey p) (pb_AllowedIps p) [])\<rparr>) e1"
    and inv: "paths_inv e"
  shows "peers (wg_device ipc d0 (ensureRelayLink env (pb_WgPubKey p) e1)) = peers (wg_device ipc d0 e) \<union> listed self p"
    "owner (wg_device ipc d0 (ensureRelayLink env (pb_WgPubKey p) e1)) = claims self p (owner (wg_device ipc d0 e))"
proof -
  let ?k = "pb_WgPubKey p"
  obtain hx where hx: "pubHex ?k = Some hx" "remote hx" "\<forall>c \<in> set (pb_AllowedIps p). one_line c \<and> wg_net c \<noteq> None"
    using p(1) by (auto simp: usable_def)
  have d: "wg_device ipc d0 e1 = wg_apply ipc (peer_conf hx (pb_AllowedIps p) []) (wg_device ipc d0 e)"
    unfolding wg_device_same [OF e1] wg_device_log by (simp add: confs_conf_cmd UpsertPeer_def hx(1))
  note a = apply_peer [OF u hx(2,3), of "wg_device ipc d0 e"]
  have i1: "paths_inv e1" using moved_same [OF movedD [OF moved_conf [OF inv]] e1] by (rule movedD)
  note en = ensure_device [OF u i1 hx(1,2), of d0 env, unfolded d a]
  show "peers (wg_device ipc d0 (ensureRelayLink env ?k e1)) = peers (wg_device ipc d0 e) \<union> listed self p"
    using en(1) p(2) by (simp add: listed_def hx(1))
  show "owner (wg_device ipc d0 (ensureRelayLink env ?k e1)) = claims self p (owner (wg_device ipc d0 e))"
    using en(2) p(2) by (auto simp: claims_def fun_eq_iff hx(1))
qed


text \<open>The three steps together: what is known, what is routed where.\<close>

definition device_step ::
  "(string \<Rightarrow> 'd \<Rightarrow> 'd option) \<Rightarrow> ('d \<Rightarrow> string set) \<Rightarrow> ('d \<Rightarrow> ipnet \<Rightarrow> string option) \<Rightarrow> 'd
   \<Rightarrow> (string set \<Rightarrow> string set) \<Rightarrow> ((ipnet \<Rightarrow> string option) \<Rightarrow> ipnet \<Rightarrow> string option) \<Rightarrow> Engine \<Rightarrow> Engine \<Rightarrow> bool" where
  "device_step ipc peers owner d0 f g e e' \<longleftrightarrow>
     paths_inv e' \<and> eg_selfKey e' = eg_selfKey e
     \<and> peers (wg_device ipc d0 e') = f (peers (wg_device ipc d0 e))
     \<and> owner (wg_device ipc d0 e') = g (owner (wg_device ipc d0 e))"

lemma device_added:
  assumes "wg_uapi remote ipc peers owner" "usable remote p" "paths_inv e" "eg_selfKey e = self"
  shows "device_step ipc peers owner d0 (\<lambda>P. P \<union> listed self p) (claims self p) e (sync_added env routes p e)"
proof (cases "pb_WgPubKey p = self")
  case True
  then show ?thesis using assms(3,4) by (simp add: sync_added_def device_step_def listed_def claims_def)
next
  case False
  then have f: "pb_WgPubKey p \<noteq> eg_selfKey e" using assms(4) by simp
  obtain e1 where e1: "same_rest (e\<lparr>eg_log := eg_log e @ conf_cmd (UpsertPeer (pb_WgPubKey p) (pb_AllowedIps p) [])\<rparr>) e1"
    "same_rest (ensureRelayLink env (pb_WgPubKey p) e1) (sync_added env routes p e)"
    using added_eq [OF refl f] .
  note m = moved_added [OF assms(3), of p env routes]
  show ?thesis
    using upsert_device [OF assms(1,2) False e1(1) assms(3), of d0 env] movedD [OF m] moved_self [OF m]
    by (simp add: device_step_def wg_device_same [OF e1(2)])
qed

lemma device_updated:
  assumes "wg_uapi remote ipc peers owner" "usable remote (up_New u)" "paths_inv e" "eg_selfKey e = self"
  shows "device_step ipc peers owner d0 (\<lambda>P. P \<union> listed self (up_New u)) (claims self (up_New u)) e (sync_updated env routes u e)"
proof (cases "pb_WgPubKey (up_New u) = self")
  case True
  then show ?thesis using assms(3,4) by (simp add: sync_updated_def device_step_def listed_def claims_def)
next
  case False
  then have f: "pb_WgPubKey (up_New u) \<noteq> eg_selfKey e" using assms(4) by simp
  obtain e1 where e1: "same_rest (e\<lparr>eg_log := eg_log e @ conf_cmd (UpsertPeer (pb_WgPubKey (up_New u)) (pb_AllowedIps (up_New u)) [])\<rparr>) e1"
    "sync_updated env routes u e = ensureRelayLink env (pb_WgPubKey (up_New u)) e1"
    using updated_eq [OF refl f] .
  note m = moved_updated [OF assms(3), of u env routes]
  show ?thesis
    using upsert_device [OF assms(1,2) False e1(1) assms(3), of d0 env] movedD [OF m] moved_self [OF m]
    by (simp add: device_step_def e1(2))
qed

lemma device_removed:
  assumes "wg_uapi remote ipc peers owner" "usable remote p" "paths_inv e" "eg_selfKey e = self"
  shows "device_step ipc peers owner d0 (\<lambda>P. P - listed self p) (disowns self p) e (sync_removed env p e)"
proof (cases "pb_WgPubKey p = self")
  case True
  then show ?thesis using assms(3,4) by (simp add: sync_removed_def device_step_def listed_def disowns_def)
next
  case False
  then have f: "pb_WgPubKey p \<noteq> eg_selfKey e" using assms(4) by simp
  obtain hx where hx: "pubHex (pb_WgPubKey p) = Some hx" "remote hx" using assms(2) by (auto simp: usable_def)
  obtain e1 where e1: "same_rest (e\<lparr>eg_log := eg_log e @ conf_cmd (RemovePeer (pb_WgPubKey p))\<rparr>) e1"
    "sync_removed env p e = dropPath (pb_WgPubKey p) e1"
    using removed_eq [OF refl f] .
  have d: "wg_device ipc d0 (sync_removed env p e) = wg_apply ipc (remove_conf hx) (wg_device ipc d0 e)"
    unfolding e1(2) wg_device_drop wg_device_same [OF e1(1)] wg_device_log
    by (simp add: confs_conf_cmd RemovePeer_def hx(1))
  note m = moved_removed [OF assms(3), of p env]
  show ?thesis
    using apply_remove [OF assms(1) hx(2), of "wg_device ipc d0 e"] movedD [OF m] moved_self [OF m] False
    by (auto simp: device_step_def d listed_def disowns_def hx(1) fun_eq_iff)
qed

lemma fold_device:
  assumes step: "\<And>x e. x \<in> set xs \<Longrightarrow> paths_inv e \<Longrightarrow> eg_selfKey e = self \<Longrightarrow>
      device_step ipc peers owner d0 (f x) (g x) e (h x e)"
    and inv: "paths_inv e" "eg_selfKey e = self"
  shows "device_step ipc peers owner d0 (fold f xs) (fold g xs) e (fold h xs e)"
  using assms
proof (induction xs arbitrary: e)
  case Nil
  then show ?case by (simp add: device_step_def)
next
  case (Cons x xs)
  have s: "device_step ipc peers owner d0 (f x) (g x) e (h x e)" using Cons.prems by simp
  have "device_step ipc peers owner d0 (fold f xs) (fold g xs) (h x e) (fold h xs (h x e))"
    using Cons.prems s by (intro Cons.IH) (auto simp: device_step_def)
  with s show ?case by (simp add: device_step_def)
qed

lemma device_step_same:
  "same_rest e e' \<Longrightarrow> paths_inv e \<Longrightarrow> device_step ipc peers owner d0 (\<lambda>P. P) (\<lambda>w. w) e e'"
  using moved_same [of e e'] by (simp add: device_step_def wg_device_same moved_def)

lemma device_step_trans:
  "device_step ipc peers owner d0 f g e e1 \<Longrightarrow> device_step ipc peers owner d0 f' g' e1 e2 \<Longrightarrow>
     device_step ipc peers owner d0 (\<lambda>P. f' (f P)) (\<lambda>w. g' (g w)) e e2"
  by (simp add: device_step_def)

lemma Diff_subsets:
  assumes "Diff incoming peers = (added, updated, removed, inc)"
  shows "set added \<subseteq> set incoming" "up_New ` set updated \<subseteq> set incoming" "set removed \<subseteq> set (go_values peers)"
  using assms by (auto simp: Diff_def Let_def go_values_def split: option.splits if_splits)

text \<open>A whole update.\<close>

lemma sync_device:
  assumes u: "wg_uapi remote ipc peers owner" and inv: "agent_inv e"
    and ok: "\<forall>p \<in> set (sr_Peers resp). usable remote p" "\<forall>p \<in> set (go_values (eg_peers e)). usable remote p"
    and d: "Diff (sr_Peers resp) (eg_peers e) = (added, updated, removed, inc)"
  shows "device_step ipc peers owner d0
     (\<lambda>P. fold (\<lambda>p P. P - listed (eg_selfKey e) p) removed
        (fold (\<lambda>p P. P \<union> listed (eg_selfKey e) p) (added @ map up_New updated) P))
     (\<lambda>w. fold (disowns (eg_selfKey e)) removed (fold (claims (eg_selfKey e)) (added @ map up_New updated) w))
     e (applySync env resp e)"
proof -
  let ?s = "eg_selfKey e"
  obtain added' updated' removed' e1 e2 e3 e4 where
    s1: "same_rest e e1" and d': "Diff (sr_Peers resp) (eg_peers e) = (added', updated', removed', incomingMap (sr_Peers resp))"
    and e2: "e2 = fold (sync_added env (routesByGateway (sr_Routes resp))) added' (e1\<lparr>eg_peers := incomingMap (sr_Peers resp)\<rparr>)"
    and e3: "e3 = fold (sync_updated env (routesByGateway (sr_Routes resp))) updated' e2"
    and e4: "e4 = fold (sync_removed env) removed' e3" and s4: "same_rest e4 (applySync env resp e)"
    using applySync_split .
  have eq: "added' = added" "updated' = updated" "removed' = removed" using d d' by auto
  note sub = Diff_subsets [OF d]
  have i: "paths_inv e" using inv by (simp add: agent_inv_def)
  have g0: "device_step ipc peers owner d0 (\<lambda>P. P) (\<lambda>w. w) e (e1\<lparr>eg_peers := incomingMap (sr_Peers resp)\<rparr>)"
    using device_step_same [OF s1 i]
    by (simp add: device_step_def wg_device_def paths_inv_def objects_ok_def path_of_def path_open_def)
  have g1: "device_step ipc peers owner d0 (fold (\<lambda>p P. P \<union> listed ?s p) added) (fold (claims ?s) added)
      (e1\<lparr>eg_peers := incomingMap (sr_Peers resp)\<rparr>) e2"
    unfolding e2 eq using g0 sub(1) ok(1)
    by (intro fold_device device_added [OF u]) (auto simp: device_step_def)
  note g01 = device_step_trans [OF g0 g1]
  have g2: "device_step ipc peers owner d0 (fold (\<lambda>v P. P \<union> listed ?s (up_New v)) updated)
      (fold (\<lambda>v. claims ?s (up_New v)) updated) e2 e3"
    unfolding e3 eq using g01 sub(2) ok(1)
    by (intro fold_device device_updated [OF u]) (auto simp: device_step_def)
  note g02 = device_step_trans [OF g01 g2]
  have g3: "device_step ipc peers owner d0 (fold (\<lambda>p P. P - listed ?s p) removed) (fold (disowns ?s) removed) e3 e4"
    unfolding e4 eq using g02 sub(3) ok(2)
    by (intro fold_device device_removed [OF u]) (auto simp: device_step_def)
  note g03 = device_step_trans [OF g02 g3]
  have "paths_inv e4" using g03 by (simp add: device_step_def)
  from device_step_trans [OF g03 device_step_same [OF s4 this]] show ?thesis
    by (simp add: fold_map comp_def)
qed



section \<open>Runs of updates\<close>

definition run_updates :: "(agent_env \<times> SyncResponse) list \<Rightarrow> Engine \<Rightarrow> Engine" where
  "run_updates xs e = fold (\<lambda>(env, resp) e. applySync env resp e) xs e"

definition mentioned :: "(agent_env \<times> SyncResponse) list \<Rightarrow> pb_Peer set" where
  "mentioned xs = (\<Union>x \<in> set xs. set (sr_Peers (snd x)))"

definition known_hex :: "string \<Rightarrow> pb_Peer set \<Rightarrow> string set" where
  "known_hex self ps = (\<Union>p \<in> ps. listed self p)"

lemma claims_at: "claims s p w n = (if pb_WgPubKey p \<noteq> s \<and> n \<in> wg_nets (pb_AllowedIps p) then pubHex (pb_WgPubKey p) else w n)"
  by (simp add: claims_def)

lemma disowns_at: "disowns s p w n = (if pb_WgPubKey p \<noteq> s \<and> w n \<noteq> None \<and> w n = pubHex (pb_WgPubKey p) then None else w n)"
  by (simp add: disowns_def)

lemma fold_claims:
  assumes "\<And>p. p \<in> set ps \<Longrightarrow> pb_WgPubKey p \<noteq> s \<Longrightarrow> n \<in> wg_nets (pb_AllowedIps p) \<Longrightarrow> pb_WgPubKey p = k"
  shows "fold (claims s) ps w n =
     (if \<exists>p \<in> set ps. pb_WgPubKey p \<noteq> s \<and> n \<in> wg_nets (pb_AllowedIps p) then pubHex k else w n)"
  using assms
proof (induction ps arbitrary: w)
  case (Cons p ps)
  have "fold (claims s) ps (claims s p w) n =
     (if \<exists>p \<in> set ps. pb_WgPubKey p \<noteq> s \<and> n \<in> wg_nets (pb_AllowedIps p) then pubHex k else claims s p w n)"
    using Cons.prems by (intro Cons.IH) simp
  then show ?case unfolding fold_Cons comp_apply using Cons.prems [of p] claims_at [of s p w n] by auto
qed simp

lemma fold_claims_absent:
  assumes "\<And>p. p \<in> set ps \<Longrightarrow> pb_WgPubKey p \<noteq> s \<Longrightarrow> n \<notin> wg_nets (pb_AllowedIps p)"
  shows "fold (claims s) ps w n = w n"
proof -
  have no: "\<not> (\<exists>p \<in> set ps. pb_WgPubKey p \<noteq> s \<and> n \<in> wg_nets (pb_AllowedIps p))" using assms by blast
  have "fold (claims s) ps w n =
     (if \<exists>p \<in> set ps. pb_WgPubKey p \<noteq> s \<and> n \<in> wg_nets (pb_AllowedIps p) then pubHex [] else w n)"
    by (rule fold_claims) (use assms in blast)
  then show ?thesis by (simp only: no if_False)
qed

lemma fold_disowns:
  "fold (disowns s) ps w n =
     (if \<exists>p \<in> set ps. pb_WgPubKey p \<noteq> s \<and> w n \<noteq> None \<and> w n = pubHex (pb_WgPubKey p) then None else w n)"
proof (induction ps arbitrary: w)
  case (Cons p ps)
  show ?case
  proof (cases "pb_WgPubKey p \<noteq> s \<and> w n \<noteq> None \<and> w n = pubHex (pb_WgPubKey p)")
    case True
    then have "disowns s p w n = None" by (simp add: disowns_at [of s p w n])
    then show ?thesis unfolding fold_Cons comp_apply Cons.IH [of "disowns s p w"] using True by simp
  next
    case False
    then have "disowns s p w n = w n" by (simp only: disowns_at [of s p w n] if_False)
    then show ?thesis unfolding fold_Cons comp_apply Cons.IH [of "disowns s p w"]
      using False by (simp only: list.simps bex_simps insert_iff simp_thms)
  qed
qed simp

lemma fold_listed: "fold (\<lambda>p P. P \<union> listed s p) ps P = P \<union> known_hex s (set ps)"
  by (induction ps arbitrary: P) (auto simp: known_hex_def)

lemma fold_unlisted: "fold (\<lambda>p P. P - listed s p) ps P = P - known_hex s (set ps)"
  by (induction ps arbitrary: P) (auto simp: known_hex_def)

lemma known_hex_iff: "hx \<in> known_hex s ps \<longleftrightarrow> (\<exists>p \<in> ps. pb_WgPubKey p \<noteq> s \<and> pubHex (pb_WgPubKey p) = Some hx)"
  by (auto simp: known_hex_def listed_def)

definition hexes :: "string \<Rightarrow> string set \<Rightarrow> string set" where
  "hexes s K = {hx. \<exists>k \<in> K. k \<noteq> s \<and> pubHex k = Some hx}"

lemma known_hex_hexes: "hx \<in> known_hex s ps \<longleftrightarrow> hx \<in> hexes s (pb_WgPubKey ` ps)"
  by (auto simp: known_hex_iff hexes_def)

lemma known_hex_eq: "known_hex s ps = hexes s (pb_WgPubKey ` ps)"
  using known_hex_hexes by blast

lemma known_hex_keys: "pb_WgPubKey ` ps = pb_WgPubKey ` qs \<Longrightarrow> known_hex s ps = known_hex s qs"
  by (simp add: known_hex_eq)

lemma hexes_update:
  assumes "U \<subseteq> I \<inter> D" "\<And>x y. x \<in> I \<Longrightarrow> y \<in> D \<Longrightarrow> x \<noteq> y \<Longrightarrow> pubHex x \<noteq> pubHex y"
  shows "hexes s D \<union> hexes s ((I - D) \<union> U) - hexes s (D - I) = hexes s I"
proof (intro set_eqI iffI)
  fix hx assume "hx \<in> hexes s D \<union> hexes s ((I - D) \<union> U) - hexes s (D - I)"
  then show "hx \<in> hexes s I" using assms(1) unfolding hexes_def by blast
next
  fix hx assume "hx \<in> hexes s I"
  then obtain k where k: "k \<in> I" "k \<noteq> s" "pubHex k = Some hx" by (auto simp: hexes_def)
  have "pubHex j \<noteq> Some hx" if "j \<in> D" "j \<notin> I" for j
    using assms(2) [OF k(1) that(1)] that(2) k(1,3) by metis
  then have "hx \<notin> hexes s (D - I)" by (auto simp: hexes_def)
  moreover have "hx \<in> hexes s D \<union> hexes s ((I - D) \<union> U)" using k by (auto simp: hexes_def)
  ultimately show "hx \<in> hexes s D \<union> hexes s ((I - D) \<union> U) - hexes s (D - I)" by blast
qed

text \<open>The peers of a set of updates can be told apart by their keys in the device.\<close>

definition good_keys :: "(string \<Rightarrow> bool) \<Rightarrow> pb_Peer set \<Rightarrow> bool" where
  "good_keys remote ps \<longleftrightarrow> (\<forall>p \<in> ps. usable remote p) \<and> inj_on pubHex (pb_WgPubKey ` ps)"

lemma keys_of_values:
  assumes "keyed pb_WgPubKey m"
  shows "pb_WgPubKey ` set (go_values m) = dom (go_get m)"
proof -
  have "pb_WgPubKey ` set (go_values m) = set (map fst m)" by (metis keyed_values [OF assms] list.set_map)
  also have "\<dots> = dom (go_get m)" by (simp add: go_get_def [abs_def] dom_map_of_conv_image_fst)
  finally show ?thesis .
qed

lemma values_incomingMap: "set (go_values (incomingMap ps)) \<subseteq> set ps"
proof (induction ps rule: rev_induct)
  case (snoc p ps)
  have "set (go_values (go_put k v m)) \<subseteq> insert v (set (go_values m))" for k and v :: pb_Peer and m
    unfolding go_values_def go_put_def by (induction m) auto
  from snoc this [of "pb_WgPubKey p" p "incomingMap ps"] show ?case unfolding incomingMap_snoc by auto
qed (simp add: incomingMap_def go_values_def)

lemma keys_incoming: "pb_WgPubKey ` set (go_values (incomingMap ps)) = pb_WgPubKey ` set ps"
  using keys_of_values [OF incomingMap_facts(1)] incomingMap_facts(2) [of ps] by blast


definition device_inv ::
  "(string \<Rightarrow> bool) \<Rightarrow> (string \<Rightarrow> 'd \<Rightarrow> 'd option) \<Rightarrow> ('d \<Rightarrow> string set) \<Rightarrow> ('d \<Rightarrow> ipnet \<Rightarrow> string option) \<Rightarrow> 'd
   \<Rightarrow> pb_Peer set \<Rightarrow> ipnet \<Rightarrow> string \<Rightarrow> Engine \<Rightarrow> bool" where
  "device_inv remote ipc peers owner d0 ps n k e \<longleftrightarrow>
     agent_inv e \<and> set (go_values (eg_peers e)) \<subseteq> ps
     \<and> peers (wg_device ipc d0 e) = known_hex (eg_selfKey e) (set (go_values (eg_peers e)))
     \<and> (\<forall>p. go_get (eg_peers e) k = Some p \<and> k \<noteq> eg_selfKey e \<and> n \<in> wg_nets (pb_AllowedIps p) \<longrightarrow>
          owner (wg_device ipc d0 e) n = pubHex k)"

lemma allowedIPsEqual_iff: "allowedIPsEqual a b \<longleftrightarrow> a = b"
proof
  assume "allowedIPsEqual a b"
  then show "a = b" unfolding allowedIPsEqual_def
    by (metis list_all2_eq list_all2_iff list_all_iff)
next
  assume "a = b"
  moreover have "list_all (\<lambda>(x, y). x = y) (zip b b)" by (induction b) simp_all
  ultimately show "allowedIPsEqual a b" by (simp add: allowedIPsEqual_def)
qed

lemma device_inv_sync:
  assumes u: "wg_uapi remote ipc peers owner" and ps: "good_keys remote ps" "set (sr_Peers resp) \<subseteq> ps"
    and ex: "\<And>q. q \<in> ps \<Longrightarrow> n \<in> wg_nets (pb_AllowedIps q) \<Longrightarrow> pb_WgPubKey q = k"
    and inv: "device_inv remote ipc peers owner d0 ps n k e"
  shows "device_inv remote ipc peers owner d0 ps n k (applySync env resp e)"
proof -
  let ?s = "eg_selfKey e" and ?e = "applySync env resp e" and ?D = "dom (go_get (eg_peers e))"
  let ?I = "pb_WgPubKey ` set (sr_Peers resp)"
  have ai: "agent_inv e" and sub: "set (go_values (eg_peers e)) \<subseteq> ps" and kd: "keyed pb_WgPubKey (eg_peers e)"
    using inv by (auto simp: device_inv_def agent_inv_def)
  obtain added updated removed inc where d: "Diff (sr_Peers resp) (eg_peers e) = (added, updated, removed, inc)"
    using prod_cases4 by blast
  note keys = Diff_keys [OF kd d]
  have ok: "\<forall>p \<in> set (sr_Peers resp). usable remote p" "\<forall>p \<in> set (go_values (eg_peers e)). usable remote p"
    using ps sub by (auto simp: good_keys_def)
  note st = sync_device [OF u ai ok d, of d0 env, unfolded device_step_def, simplified fold_listed fold_unlisted]
  note ap = applySync_inv [OF ai, of env resp]
  have dist: "pubHex x \<noteq> pubHex y" if "x \<in> ?I" "y \<in> ?D" "x \<noteq> y" for x y
    using that ps sub keys_of_values [OF kd] unfolding good_keys_def inj_on_def by (metis (no_types, lifting) image_mono subsetD)
  have known: "peers (wg_device ipc d0 ?e) = known_hex ?s (set (go_values (eg_peers ?e)))"
  proof -
    have "peers (wg_device ipc d0 ?e) =
        known_hex ?s (set (go_values (eg_peers e))) \<union> known_hex ?s (set added \<union> up_New ` set updated) - known_hex ?s (set removed)"
      using st inv by (simp add: device_inv_def)
    also have "\<dots> = known_hex ?s (set (sr_Peers resp))"
      unfolding known_hex_eq image_Un image_image keys(2,4) keys_of_values [OF kd]
      by (rule hexes_update [OF keys(3) dist])
    finally show ?thesis unfolding ap(2) using known_hex_keys [OF keys_incoming] by simp
  qed
  have own: "owner (wg_device ipc d0 ?e) n = pubHex k"
    if p: "go_get (eg_peers ?e) k = Some p" "k \<noteq> ?s" "n \<in> wg_nets (pb_AllowedIps p)" for p
  proof -
    let ?c = "fold (claims ?s) (added @ map up_New updated) (owner (wg_device ipc d0 e)) n"
    have pin: "p \<in> set (sr_Peers resp)" "pb_WgPubKey p = k"
      using p(1) values_incomingMap [of "sr_Peers resp"] keyedD [OF incomingMap_facts(1)]
        go_values_iff [OF keyed_wf [OF incomingMap_facts(1)]] unfolding ap(2) by blast+
    have new: "q \<in> ps" if "q \<in> set (added @ map up_New updated)" for q
      using that ps(2) Diff_subsets(1,2) [OF d] by auto
    have c: "?c = (if \<exists>q \<in> set (added @ map up_New updated). pb_WgPubKey q \<noteq> ?s \<and> n \<in> wg_nets (pb_AllowedIps q)
        then pubHex k else owner (wg_device ipc d0 e) n)"
      by (rule fold_claims) (use ex new in blast)
    have "?c = pubHex k"
    proof (cases "p \<in> set (added @ map up_New updated)")
      case True
      then show ?thesis unfolding c using p(2,3) pin(2) by (metis (no_types, lifting))
    next
      case False
      then obtain q where q: "go_get (eg_peers e) k = Some q" "\<not> peer_changed q p"
        using d pin by (force simp: Diff_def Let_def split: option.splits if_splits)
      then have "n \<in> wg_nets (pb_AllowedIps q)" using p(3) by (simp add: peer_changed_def allowedIPsEqual_iff)
      then have "owner (wg_device ipc d0 e) n = pubHex k" using inv q(1) p(2) by (simp add: device_inv_def)
      then show ?thesis unfolding c by simp
    qed
    moreover have "pubHex k \<noteq> pubHex (pb_WgPubKey r)" if "r \<in> set removed" for r
    proof -
      have "pb_WgPubKey r \<in> ?D - ?I" using that keys(4) by blast
      then show ?thesis using dist [of k "pb_WgPubKey r"] pin by (metis DiffD1 DiffD2 imageI)
    qed
    ultimately show ?thesis using st fold_disowns [of ?s removed "fold (claims ?s) (added @ map up_New updated) (owner (wg_device ipc d0 e))" n]
      by (simp del: fold_append)
  qed
  have "set (go_values (eg_peers ?e)) \<subseteq> ps" unfolding ap(2) using values_incomingMap ps(2) by blast
  then show ?thesis unfolding device_inv_def ap(3) using ap(1) known own by simp
qed


lemma device_inv_run:
  assumes u: "wg_uapi remote ipc peers owner" and ps: "good_keys remote ps"
    and ex: "\<And>q. q \<in> ps \<Longrightarrow> n \<in> wg_nets (pb_AllowedIps q) \<Longrightarrow> pb_WgPubKey q = k"
  shows "mentioned xs \<subseteq> ps \<Longrightarrow> device_inv remote ipc peers owner d0 ps n k e \<Longrightarrow>
     device_inv remote ipc peers owner d0 ps n k (run_updates xs e)"
proof (induction xs arbitrary: e)
  case (Cons x xs)
  obtain env resp where x: "x = (env, resp)" by (cases x)
  have "device_inv remote ipc peers owner d0 ps n k (applySync env resp e)"
    using Cons.prems x by (intro device_inv_sync [OF u ps _ ex]) (auto simp: mentioned_def)
  with Cons show ?case by (simp add: run_updates_def x mentioned_def)
qed (simp add: run_updates_def)

lemma run_updates_snoc: "run_updates (xs @ [(env, resp)]) e = applySync env resp (run_updates xs e)"
  by (simp add: run_updates_def)

lemma run_updates_inv: "agent_inv e \<Longrightarrow> agent_inv (run_updates xs e) \<and> eg_selfKey (run_updates xs e) = eg_selfKey e"
proof (induction xs rule: rev_induct)
  case (snoc x xs)
  then show ?case using applySync_inv [of "run_updates xs e"] by (cases x) (simp add: run_updates_snoc)
qed (simp add: run_updates_def)

lemma device_inv_new:
  assumes "peers d0 = {}"
  shows "device_inv remote ipc peers owner d0 ps n k (New_Engine self ns iface mgm sig up)"
proof -
  have "agent_inv (New_Engine self ns iface mgm sig up)"
    by (rule agent_inv_start) (unfold agent_start_def, blast)
  then show ?thesis
    using assms by (simp add: device_inv_def New_Engine_def wg_device_def known_hex_def go_values_def)
qed

lemma incomingMap_distinct:
  "distinct (map pb_WgPubKey ps) \<Longrightarrow> p \<in> set ps \<Longrightarrow> go_get (incomingMap ps) (pb_WgPubKey p) = Some p"
proof (induction ps rule: rev_induct)
  case (snoc q ps)
  then show ?case by (auto simp: incomingMap_snoc go_get_put rev_image_eqI)
qed simp

lemma fold_claims_last:
  assumes "pb_WgPubKey p \<noteq> s" "n \<in> wg_nets (pb_AllowedIps p)"
    "\<And>q. q \<in> set ys \<Longrightarrow> pb_WgPubKey q \<noteq> s \<Longrightarrow> n \<notin> wg_nets (pb_AllowedIps q)"
  shows "fold (claims s) (xs @ p # ys) w n = pubHex (pb_WgPubKey p)"
proof -
  have "fold (claims s) (xs @ p # ys) w n = claims s p (fold (claims s) xs w) n"
    using fold_claims_absent [of ys s n "claims s p (fold (claims s) xs w)"] assms(3) by simp
  with assms(1,2) show ?thesis by (simp add: claims_at)
qed


text \<open>The first update of an agent.\<close>

lemma first_update_owner:
  assumes "wg_uapi remote ipc peers owner" "agent_inv e" "eg_peers e = []" "good_keys remote (set (sr_Peers resp))"
  shows "owner (wg_device ipc d0 (applySync env resp e)) =
     fold (claims (eg_selfKey e)) (sr_Peers resp) (owner (wg_device ipc d0 e))"
proof -
  have d: "Diff (sr_Peers resp) (eg_peers e) = (sr_Peers resp, [], [], incomingMap (sr_Peers resp))"
    by (simp add: Diff_def Let_def assms(3))
  have ok: "\<forall>p \<in> set (sr_Peers resp). usable remote p" "\<forall>p \<in> set (go_values (eg_peers e)). usable remote p"
    using assms(3,4) by (auto simp: good_keys_def go_values_def)
  show ?thesis using sync_device [OF assms(1,2) ok d, of d0 env] by (simp add: device_step_def)
qed


section \<open>A device that reads the texts\<close>

record wg_dev =
  wd_peers :: "string set"
  wd_owner :: "ipnet \<Rightarrow> string option"

definition ref_ipc :: "string \<Rightarrow> wg_dev \<Rightarrow> wg_dev option" where
  "ref_ipc t d =
     (let lines = split_on CHR 0x0A t;
          hx = drop 11 (hd lines);
          nets = wg_nets (map (drop 11) (filter (\<lambda>l. has_prefix l ''allowed_ip='') (tl lines)))
      in if ''remove=true'' \<in> set (tl lines)
         then Some (d\<lparr>wd_peers := wd_peers d - {hx},
                      wd_owner := (\<lambda>n. if wd_owner d n = Some hx then None else wd_owner d n)\<rparr>)
         else Some (d\<lparr>wd_peers := insert hx (wd_peers d),
                      wd_owner := (\<lambda>n. if n \<in> nets then Some hx else wd_owner d n)\<rparr>))"

lemma split_conf_line:
  "one_line key \<Longrightarrow> one_line v \<Longrightarrow> split_on CHR 0x0A (conf_line key v @ t) = (key @ ''='' @ v) # split_on CHR 0x0A t"
  using split_on_append [of "CHR 0x0A" "key @ ''='' @ v" t] by (simp add: conf_line_def one_line_def)

lemma split_conf_lines:
  "one_line key \<Longrightarrow> \<forall>v \<in> set vs. one_line v \<Longrightarrow>
     split_on CHR 0x0A (concat (map (conf_line key) vs) @ t) = map (\<lambda>v. key @ ''='' @ v) vs @ split_on CHR 0x0A t"
  by (induction vs) (simp_all add: split_conf_line)

lemma plain_keys: "one_line ''public_key''" "one_line ''allowed_ip''" "one_line ''endpoint''" "one_line ''remove''"
  "one_line ''true''" "one_line ''persistent_keepalive_interval''" "one_line ''25''"
  by (simp_all add: one_line_def)

lemma split_peer_conf:
  assumes "one_line hx" "\<forall>v \<in> set ips. one_line v" "one_line ep"
  shows "split_on CHR 0x0A (peer_conf hx ips ep) =
     (''public_key='' @ hx) # map (\<lambda>v. ''allowed_ip='' @ v) ips
       @ (if ep \<noteq> [] then [''endpoint='' @ ep] else []) @ [''persistent_keepalive_interval=25'', []]"
proof -
  have t: "split_on CHR 0x0A (conf_line ''persistent_keepalive_interval'' ''25'') = [''persistent_keepalive_interval=25'', []]"
    using split_conf_line [of "''persistent_keepalive_interval''" "''25''" "[]"] plain_keys by simp
  have e: "split_on CHR 0x0A ((if ep \<noteq> [] then conf_line ''endpoint'' ep else []) @ conf_line ''persistent_keepalive_interval'' ''25'')
      = (if ep \<noteq> [] then [''endpoint='' @ ep] else []) @ [''persistent_keepalive_interval=25'', []]"
    using split_conf_line [of "''endpoint''" ep] assms(3) plain_keys t by simp
  show ?thesis unfolding peer_conf_def
    using split_conf_line [OF plain_keys(1) assms(1)] split_conf_lines [OF plain_keys(2) assms(2)] e by simp
qed


lemma ref_peer:
  assumes "one_line hx" "\<forall>v \<in> set ips. one_line v" "one_line ep"
  shows "ref_ipc (peer_conf hx ips ep) d =
     Some (d\<lparr>wd_peers := insert hx (wd_peers d), wd_owner := (\<lambda>n. if n \<in> wg_nets ips then Some hx else wd_owner d n)\<rparr>)"
proof -
  let ?l = "map (\<lambda>v. ''allowed_ip='' @ v) ips @ (if ep \<noteq> [] then [''endpoint='' @ ep] else []) @ [''persistent_keepalive_interval=25'', []]"
  have r: "''remove=true'' \<notin> set ?l" by auto
  have f: "map (drop 11) (filter (\<lambda>l. has_prefix l ''allowed_ip='') ?l) = ips"
    by (induction ips) (simp_all add: has_prefix_def)
  have h: "drop 11 (''public_key='' @ hx) = hx" by simp
  show ?thesis
    unfolding ref_ipc_def Let_def split_peer_conf [OF assms] list.sel f h if_not_P [OF r] by (rule refl)
qed

lemma ref_uapi: "wg_uapi one_line ref_ipc wd_peers wd_owner"
proof -
  have e: "split_on CHR 0x0A (endpoint_conf hx ep) = [''public_key='' @ hx, ''endpoint='' @ ep, []]"
    if "one_line hx" "one_line ep" for hx ep
    using split_conf_line [OF plain_keys(1) that(1)] split_conf_line [OF plain_keys(3) that(2), of "[]"]
    by (simp add: endpoint_conf_def)
  have r: "split_on CHR 0x0A (remove_conf hx) = [''public_key='' @ hx, ''remove=true'', []]" if "one_line hx" for hx
    using split_conf_line [OF plain_keys(1) that] split_conf_line [OF plain_keys(4,5), of "[]"]
    by (simp add: remove_conf_def)
  have ep: "ref_ipc (endpoint_conf hx ep) d = Some (d\<lparr>wd_peers := insert hx (wd_peers d)\<rparr>)"
    if "one_line hx" "one_line ep" for hx ep d
  proof -
    have f: "filter (\<lambda>l. has_prefix l ''allowed_ip='') [''endpoint='' @ ep, []] = []" by (simp add: has_prefix_def)
    have n: "wg_nets (map (drop 11) []) = {}" by (simp add: wg_nets_def)
    have r: "''remove=true'' \<notin> set [''endpoint='' @ ep, []]" by simp
    show ?thesis unfolding ref_ipc_def Let_def e [OF that] list.sel f n if_not_P [OF r] by simp
  qed
  have rm: "ref_ipc (remove_conf hx) d = Some (d\<lparr>wd_peers := wd_peers d - {hx},
      wd_owner := (\<lambda>n. if wd_owner d n = Some hx then None else wd_owner d n)\<rparr>)" if "one_line hx" for hx d
    using r [OF that] by (simp add: ref_ipc_def)
  have nil: "one_line []" by (simp add: one_line_def)
  show ?thesis
    unfolding wg_uapi_def
  proof (intro conjI allI impI)
    fix hx ips ep d
    assume "one_line hx \<and> (\<forall>c \<in> set ips. one_line c \<and> wg_net c \<noteq> None) \<and> (ep = [] \<or> ParseAddrPort ep \<noteq> None \<and> one_line ep)"
    then have "one_line hx" "\<forall>v \<in> set ips. one_line v" "one_line ep" using nil by auto
    from ref_peer [OF this] show "\<exists>d'. ref_ipc (peer_conf hx ips ep) d = Some d' \<and> wd_peers d' = insert hx (wd_peers d)
       \<and> wd_owner d' = (\<lambda>n. if n \<in> wg_nets ips then Some hx else wd_owner d n)" by simp
  qed (use ep rm in simp_all)
qed


section \<open>Properties\<close>

text \<open>C25. The device follows the updates: after any run of updates on a fresh device its peers are exactly
  the keys of the last update, the own key apart, and a network that only one key ever listed is
  routed to that key when the last update lists it, whatever was added, changed and removed before.\<close>

theorem agent_device_follows_updates:
  assumes "wg_uapi remote ipc peers owner" "peers d0 = {}" "good_keys remote (mentioned (xs @ [(env, resp)]))"
    "distinct (map pb_WgPubKey (sr_Peers resp))"
    "p \<in> set (sr_Peers resp)" "pb_WgPubKey p \<noteq> self" "n \<in> wg_nets (pb_AllowedIps p)"
    "\<forall>q \<in> mentioned (xs @ [(env, resp)]). n \<in> wg_nets (pb_AllowedIps q) \<longrightarrow> pb_WgPubKey q = pb_WgPubKey p"
    "d = wg_device ipc d0 (run_updates (xs @ [(env, resp)]) (New_Engine self ns iface mgm sig up))"
  shows "peers d = {hx. \<exists>q \<in> set (sr_Peers resp). pb_WgPubKey q \<noteq> self \<and> pubHex (pb_WgPubKey q) = Some hx}
    \<and> owner d n = pubHex (pb_WgPubKey p)"
proof -
  let ?ps = "mentioned (xs @ [(env, resp)])" and ?start = "New_Engine self ns iface mgm sig up" and ?k = "pb_WgPubKey p"
  let ?e = "run_updates (xs @ [(env, resp)]) ?start"
  have ex: "\<And>q. q \<in> ?ps \<Longrightarrow> n \<in> wg_nets (pb_AllowedIps q) \<Longrightarrow> pb_WgPubKey q = ?k" using assms(8) by blast
  have inv: "device_inv remote ipc peers owner d0 ?ps n ?k ?e"
    using device_inv_run [OF assms(1,3) ex order_refl device_inv_new [of peers d0 remote ipc owner ?ps n ?k self ns iface mgm sig up, OF assms(2)]] .
  have a0: "agent_inv ?start" by (rule agent_inv_start) (unfold agent_start_def, blast)
  have pe: "eg_peers ?e = incomingMap (sr_Peers resp)"
    unfolding run_updates_snoc by (rule applySync_inv(2)) (simp add: run_updates_inv [OF a0])
  have s0: "eg_selfKey ?start = self" by (simp add: New_Engine_def)
  have self: "eg_selfKey ?e = self" using run_updates_inv [OF a0, THEN conjunct2, of "xs @ [(env, resp)]"] s0 by (rule trans)
  note inv' = inv [unfolded device_inv_def pe self known_hex_keys [OF keys_incoming]]
  have "owner d n = pubHex ?k"
    unfolding assms(9)
    by (rule inv' [THEN conjunct2, THEN conjunct2, THEN conjunct2, rule_format, of p])
      (intro conjI incomingMap_distinct assms)
  moreover have "peers d = known_hex self (set (sr_Peers resp))" unfolding assms(9) using inv' by (elim conjE)
  moreover have "known_hex self Q = {hx. \<exists>q \<in> Q. pb_WgPubKey q \<noteq> self \<and> pubHex (pb_WgPubKey q) = Some hx}" for Q
    by (intro set_eqI) (simp only: known_hex_iff mem_Collect_eq)
  ultimately show ?thesis by (simp only: simp_thms)
qed


lemma example_resp_sel [simp]:
  "sr_Peers (example_resp ps rs x) = ps" "nc_ExitNode (sr_Network (example_resp ps rs x)) = x"
  by (simp_all add: example_resp_def)

lemma example_hex: "pubHex ''Qg=='' = Some ''42''" "pubHex ''Qw=='' = Some ''43''"
  by (simp_all add: go_eval)

lemma example_nets: "wg_net ''100.64.0.2/32'' = Some (IPNet4 0x64400002 32)" "wg_net ''10.1.0.0/16'' = Some (IPNet4 0x0A010000 16)"
  "wg_net ''0.0.0.0/0'' = Some (IPNet4 0 0)"
  by (simp_all add: go_eval)

lemma example_usable:
  "usable one_line (example_pb ''Qg=='' [''100.64.0.2/32''])" "usable one_line (example_pb ''Qg=='' [''10.1.0.0/16''])"
  "usable one_line (example_pb ''Qg=='' [''0.0.0.0/0''])" "usable one_line (example_pb ''Qw=='' [''0.0.0.0/0''])"
  by (simp_all add: usable_def example_pb_def example_hex example_nets one_line_def)

definition empty_dev :: wg_dev where
  "empty_dev = \<lparr>wd_peers = {}, wd_owner = \<lambda>_. None\<rparr>"

theorem agent_device_follows_updates_witness:
  "wd_peers (wg_device ref_ipc empty_dev (run_updates ([] @ [(example_agent_env,
       example_resp [example_pb ''Qg=='' [''100.64.0.2/32'']] [] [])]) example_new_engine)) = {''42''}
   \<and> wd_owner (wg_device ref_ipc empty_dev (run_updates ([] @ [(example_agent_env,
       example_resp [example_pb ''Qg=='' [''100.64.0.2/32'']] [] [])]) example_new_engine)) (IPNet4 0x64400002 32) = Some ''42''"
proof -
  let ?p = "example_pb ''Qg=='' [''100.64.0.2/32'']"
  let ?r = "example_resp [?p] [] []"
  let ?xs = "[] @ [(example_agent_env, ?r)]" and ?n = "IPNet4 0x64400002 32"
  have r: "sr_Peers ?r = [?p]" by (simp add: example_resp_def)
  have m: "mentioned ?xs = {?p}" by (simp add: mentioned_def r)
  have k: "pb_WgPubKey ?p = ''Qg==''" "wg_nets (pb_AllowedIps ?p) = {?n}"
    by (simp_all add: example_pb_def wg_nets_def example_nets)
  have "wd_peers empty_dev = {}" by (simp add: empty_dev_def)
  moreover have "good_keys one_line (mentioned ?xs)" unfolding m by (simp add: good_keys_def example_usable)
  moreover have "distinct (map pb_WgPubKey (sr_Peers ?r))" "?p \<in> set (sr_Peers ?r)" "pb_WgPubKey ?p \<noteq> ''QQ==''"
    "?n \<in> wg_nets (pb_AllowedIps ?p)" by (simp_all add: r k)
  moreover have "\<forall>q \<in> mentioned ?xs. ?n \<in> wg_nets (pb_AllowedIps q) \<longrightarrow> pb_WgPubKey q = pb_WgPubKey ?p" unfolding m by simp
  moreover have "wg_device ref_ipc empty_dev (run_updates ?xs example_new_engine) = wg_device ref_ipc empty_dev
      (run_updates ?xs (New_Engine ''QQ=='' False ''blinex0'' ''mgmt:50051'' ''127.0.0.1:10000'' ''8.8.8.8:53''))"
    by (simp add: example_new_engine_def)
  ultimately have "wd_peers (wg_device ref_ipc empty_dev (run_updates ?xs example_new_engine)) =
      {hx. \<exists>q \<in> set (sr_Peers ?r). pb_WgPubKey q \<noteq> ''QQ=='' \<and> pubHex (pb_WgPubKey q) = Some hx}
      \<and> wd_owner (wg_device ref_ipc empty_dev (run_updates ?xs example_new_engine)) ?n = pubHex (pb_WgPubKey ?p)"
    by (rule agent_device_follows_updates [OF ref_uapi])
  then show ?thesis unfolding r k example_hex by (simp add: k example_hex)
qed

text \<open>C31. A withdrawn network stays routed to its former gateway: an update that still lists the
  gateway, but lists the network under no peer any more, leaves the network with the gateway. The
  configuration text adds allowed networks and never asks the device to replace them.\<close>

theorem withdrawn_network_stays_routed:
  assumes "wg_uapi remote ipc peers owner" "reach agent_start agent_step e"
    "good_keys remote (set (sr_Peers resp) \<union> set (go_values (eg_peers e)))"
    "q \<in> set (sr_Peers resp)" "owner (wg_device ipc d0 e) n = pubHex (pb_WgPubKey q)"
    "\<forall>p \<in> set (sr_Peers resp). n \<notin> wg_nets (pb_AllowedIps p)"
  shows "owner (wg_device ipc d0 (applySync env resp e)) n = pubHex (pb_WgPubKey q)"
proof -
  let ?s = "eg_selfKey e"
  have ai: "agent_inv e" using assms(2) by (rule agent.reachable_inv)
  then have kd: "keyed pb_WgPubKey (eg_peers e)" by (simp add: agent_inv_def)
  obtain added updated removed inc where d: "Diff (sr_Peers resp) (eg_peers e) = (added, updated, removed, inc)"
    using prod_cases4 by blast
  have ok: "\<forall>p \<in> set (sr_Peers resp). usable remote p" "\<forall>p \<in> set (go_values (eg_peers e)). usable remote p"
    using assms(3) by (auto simp: good_keys_def)
  let ?w = "owner (wg_device ipc d0 e)"
  have w: "owner (wg_device ipc d0 (applySync env resp e)) =
      fold (disowns ?s) removed (fold (claims ?s) (added @ map up_New updated) ?w)"
    using sync_device [OF assms(1) ai ok d, of d0 env] unfolding device_step_def by (elim conjE)
  have c: "fold (claims ?s) (added @ map up_New updated) ?w n = pubHex (pb_WgPubKey q)"
    unfolding assms(5) [symmetric]
    by (rule fold_claims_absent) (use assms(6) Diff_subsets(1,2) [OF d] in auto)
  have "pubHex (pb_WgPubKey q) \<noteq> pubHex (pb_WgPubKey r)" if "r \<in> set removed" for r
  proof -
    have r: "r \<in> set (go_values (eg_peers e))" "pb_WgPubKey r \<notin> pb_WgPubKey ` set (sr_Peers resp)"
      using that Diff_subsets(3) [OF d] Diff_keys(4) [OF kd d] by blast+
    then have "pb_WgPubKey q \<noteq> pb_WgPubKey r" using assms(4) by (metis imageI)
    then show ?thesis using assms(3,4) r(1) unfolding good_keys_def inj_on_def by blast
  qed
  then show ?thesis unfolding w fold_disowns c by auto
qed

definition example_routed :: Engine where
  "example_routed = applySync example_agent_env (example_resp [example_pb ''Qg=='' [''10.1.0.0/16'']] [] []) example_new_engine"

lemma example_new_reach: "reach agent_start agent_step example_new_engine" "agent_inv example_new_engine"
  "eg_peers example_new_engine = []" "eg_selfKey example_new_engine = ''QQ==''"
proof -
  have s: "agent_start example_new_engine" unfolding agent_start_def example_new_engine_def by blast
  show "reach agent_start agent_step example_new_engine" using s by (rule reach_init)
  show "agent_inv example_new_engine" using s by (rule agent_inv_start)
  show "eg_peers example_new_engine = []" "eg_selfKey example_new_engine = ''QQ==''"
    by (simp_all add: example_new_engine_def New_Engine_def)
qed

lemma example_routed_facts:
  "reach agent_start agent_step example_routed" "set (go_values (eg_peers example_routed)) \<subseteq> {example_pb ''Qg=='' [''10.1.0.0/16'']}"
  "wd_owner (wg_device ref_ipc empty_dev example_routed) (IPNet4 0x0A010000 16) = Some ''42''"
proof -
  let ?p = "example_pb ''Qg=='' [''10.1.0.0/16'']"
  have r: "sr_Peers (example_resp [?p] [] []) = [?p]" by (simp add: example_resp_def)
  show "reach agent_start agent_step example_routed"
    unfolding example_routed_def by (rule reach_step [OF example_new_reach(1)]) (rule agent_sync)
  show "set (go_values (eg_peers example_routed)) \<subseteq> {?p}"
    unfolding example_routed_def applySync_inv(2) [OF example_new_reach(2)] r using values_incomingMap [of "[?p]"] by simp
  have "good_keys one_line (set (sr_Peers (example_resp [?p] [] [])))" by (simp add: r good_keys_def example_usable)
  from first_update_owner [OF ref_uapi example_new_reach(2,3) this, of empty_dev example_agent_env]
  show "wd_owner (wg_device ref_ipc empty_dev example_routed) (IPNet4 0x0A010000 16) = Some ''42''"
    unfolding r by (simp add: example_routed_def [symmetric] example_new_reach(4) claims_def)
      (simp add: example_pb_def wg_nets_def example_nets example_hex)
qed

theorem withdrawn_network_stays_routed_witness:
  "wd_owner (wg_device ref_ipc empty_dev (applySync example_agent_env
     (example_resp [example_pb ''Qg=='' [''100.64.0.2/32'']] [] []) example_routed)) (IPNet4 0x0A010000 16) = Some ''42''"
proof -
  let ?p = "example_pb ''Qg=='' [''10.1.0.0/16'']" and ?q = "example_pb ''Qg=='' [''100.64.0.2/32'']"
  let ?r = "example_resp [?q] [] []"
  have r: "sr_Peers ?r = [?q]" by (simp add: example_resp_def)
  have k: "pb_WgPubKey ?q = ''Qg==''" "pb_WgPubKey ?p = ''Qg==''" by (simp_all add: example_pb_def)
  have "good_keys one_line {?q, ?p}" by (simp add: good_keys_def example_usable k)
  then have g: "good_keys one_line (set (sr_Peers ?r) \<union> set (go_values (eg_peers example_routed)))"
    using example_routed_facts(2) unfolding r good_keys_def by (auto intro: inj_on_subset)
  have "wd_owner (wg_device ref_ipc empty_dev (applySync example_agent_env ?r example_routed)) (IPNet4 0x0A010000 16)
      = pubHex (pb_WgPubKey ?q)"
    by (rule withdrawn_network_stays_routed [OF ref_uapi example_routed_facts(1) g])
      (simp_all add: r k example_routed_facts(3) example_hex, simp add: example_pb_def wg_nets_def example_nets)
  then show ?thesis by (simp add: k example_hex)
qed

text \<open>C32. The choice of an exit node does not decide where the traffic goes: when a fresh agent is sent
  several peers that offer the default route, the device routes it to the last of them in the list,
  whichever of them the update names as the exit node.\<close>

theorem exit_node_choice_ignored:
  assumes "wg_uapi remote ipc peers owner" "reach agent_start agent_step e" "eg_peers e = []"
    "good_keys remote (set (sr_Peers resp))" "sr_Peers resp = xs @ p # ys"
    "pb_WgPubKey p \<noteq> eg_selfKey e" "''0.0.0.0/0'' \<in> set (pb_AllowedIps p)"
    "\<forall>q \<in> set ys. IPNet4 0 0 \<notin> wg_nets (pb_AllowedIps q)"
    "chosen \<in> set xs" "pb_WgPubKey chosen \<noteq> pb_WgPubKey p" "nc_ExitNode (sr_Network resp) = pb_WgPubKey chosen"
  shows "owner (wg_device ipc d0 (applySync env resp e)) (IPNet4 0 0) = pubHex (pb_WgPubKey p)
    \<and> pubHex (pb_WgPubKey p) \<noteq> pubHex (nc_ExitNode (sr_Network resp))"
proof -
  let ?s = "eg_selfKey e"
  have "owner (wg_device ipc d0 (applySync env resp e)) (IPNet4 0 0) =
      fold (claims ?s) (sr_Peers resp) (owner (wg_device ipc d0 e)) (IPNet4 0 0)"
    using first_update_owner [OF assms(1) agent.reachable_inv [OF assms(2)] assms(3,4), of d0 env] by simp
  also have "\<dots> = pubHex (pb_WgPubKey p)"
    unfolding assms(5) using assms(6-8) example_nets(3)
    by (intro fold_claims_last) (auto simp: wg_nets_def)
  finally have o: "owner (wg_device ipc d0 (applySync env resp e)) (IPNet4 0 0) = pubHex (pb_WgPubKey p)" .
  have "inj_on pubHex (pb_WgPubKey ` set (sr_Peers resp))" using assms(4) by (simp add: good_keys_def)
  then have "pubHex (pb_WgPubKey p) \<noteq> pubHex (pb_WgPubKey chosen)"
    using assms(5,9,10) by (auto dest: inj_onD)
  with o show ?thesis by (simp add: assms(11))
qed

theorem exit_node_choice_ignored_witness:
  "wd_owner (wg_device ref_ipc empty_dev (applySync example_agent_env
     (example_resp ([example_pb ''Qg=='' [''0.0.0.0/0'']] @ example_pb ''Qw=='' [''0.0.0.0/0''] # []) [] ''Qg=='')
     example_new_engine)) (IPNet4 0 0) = Some ''43''"
proof -
  let ?a = "example_pb ''Qg=='' [''0.0.0.0/0'']" and ?b = "example_pb ''Qw=='' [''0.0.0.0/0'']"
  let ?r = "example_resp ([?a] @ ?b # []) [] ''Qg==''"
  have r: "sr_Peers ?r = [?a] @ ?b # []" "nc_ExitNode (sr_Network ?r) = ''Qg==''" by (simp_all add: example_resp_def)
  have k: "pb_WgPubKey ?a = ''Qg==''" "pb_WgPubKey ?b = ''Qw==''" "pb_AllowedIps ?b = [''0.0.0.0/0'']"
    by (simp_all add: example_pb_def)
  have g: "good_keys one_line (set (sr_Peers ?r))" by (simp add: r good_keys_def example_usable k example_hex)
  have "wd_owner (wg_device ref_ipc empty_dev (applySync example_agent_env ?r example_new_engine)) (IPNet4 0 0)
      = pubHex (pb_WgPubKey ?b) \<and> pubHex (pb_WgPubKey ?b) \<noteq> pubHex (nc_ExitNode (sr_Network ?r))"
    by (rule exit_node_choice_ignored [OF ref_uapi example_new_reach(1,3) g r(1), of ?a])
      (simp_all add: k r(2) example_new_reach(4))
  then show ?thesis by (simp add: k example_hex)
qed

end
