(* ===== verification/Agent_Routes.thy ===== *)
theory Agent_Routes
  imports Agent_Device
begin

text \<open>
  Routes and enrolment of the agent: the routes an update installs and withdraws, the exit node, and
  the retry loop of the enrolment.
\<close>

section \<open>Log of an updated gateway\<close>

lemma ensure_log:
  "\<exists>cs. eg_log (ensureRelayLink env k e) = eg_log e @ cs \<and> (\<forall>c \<in> set cs. \<exists>t. c = WgSet t)
     \<and> eg_appliedRoutes (ensureRelayLink env k e) = eg_appliedRoutes e
     \<and> eg_WGInterface (ensureRelayLink env k e) = eg_WGInterface e \<and> eg_netstack (ensureRelayLink env k e) = eg_netstack e
     \<and> eg_selfKey (ensureRelayLink env k e) = eg_selfKey e"
proof -
  let ?r = "New_relay (eg_selfKey e) k (eg_relayCounter e)"
  have c: "\<forall>c \<in> set (conf_cmd t). \<exists>t. c = WgSet t" for t by (cases t) (simp_all add: conf_cmd_def)
  show ?thesis
  proof (cases "go_get (eg_relayEndpts e) k \<noteq> None \<and> go_get (eg_links e) k \<noteq> None")
    case True
    then show ?thesis unfolding ensureRelayLink_def by (intro exI [of _ "[]"]) simp
  next
    case False
    show ?thesis
      unfolding ensureRelayLink_def if_not_P [OF False]
      by (intro exI [of _ "conf_cmd (SetPeerEndpoint k (Endpoint (fst ?r)))"])
        (use c in \<open>simp add: Let_def split_def UpdateEndpoint_def SetEndpoint_relay issue_conf_eq\<close>)
  qed
qed

lemma updated_log:
  assumes "pb_WgPubKey (up_New u) = k" "k \<noteq> eg_selfKey e" "\<not> eg_netstack e"
  obtains cs where "eg_log (sync_updated env routes u e) =
      eg_log e @ conf_cmd (UpsertPeer k (pb_AllowedIps (up_New u)) []) @ route_cmds (appliedTo k e) (routes k) (eg_WGInterface e) @ cs"
    "\<forall>c \<in> set cs. \<exists>t. c = WgSet t"
    "appliedTo k (sync_updated env routes u e) = (if routes k = [] then appliedTo k e else routes k)"
    "eg_WGInterface (sync_updated env routes u e) = eg_WGInterface e" "eg_netstack (sync_updated env routes u e) = eg_netstack e"
    "eg_selfKey (sync_updated env routes u e) = eg_selfKey e"
proof -
  let ?e1 = "e\<lparr>eg_log := eg_log e @ conf_cmd (UpsertPeer k (pb_AllowedIps (up_New u)) [])\<rparr>"
  let ?e2 = "applyOSRoutes env k (appliedTo k e) (routes k) ?e1"
  let ?e3 = "if pb_DnsLabel (up_Old u) \<noteq> pb_DnsLabel (up_New u)
    then ?e2\<lparr>eg_dns := Remove (pb_DnsLabel (up_Old u)) (eg_dns ?e2)\<rparr> else ?e2"
  let ?e4 = "?e3\<lparr>eg_dns := Upsert (pb_DnsLabel (up_New u)) (pb_Ip (up_New u)) (eg_dns ?e3)\<rparr>"
  have a: "appliedTo k ?e1 = appliedTo k e" by (simp add: appliedTo_def)
  have e: "sync_updated env routes u e = ensureRelayLink env k ?e4"
    using assms unfolding sync_updated_def by (simp add: Let_def issue_conf_eq sync_routes_def a)
  obtain cs where cs: "eg_log (ensureRelayLink env k ?e4) = eg_log ?e4 @ cs" "\<forall>c \<in> set cs. \<exists>t. c = WgSet t"
    "eg_appliedRoutes (ensureRelayLink env k ?e4) = eg_appliedRoutes ?e4"
    "eg_WGInterface (ensureRelayLink env k ?e4) = eg_WGInterface ?e4"
    "eg_netstack (ensureRelayLink env k ?e4) = eg_netstack ?e4" "eg_selfKey (ensureRelayLink env k ?e4) = eg_selfKey ?e4"
    using ensure_log by blast
  have f: "eg_log ?e4 = eg_log e @ conf_cmd (UpsertPeer k (pb_AllowedIps (up_New u)) []) @ route_cmds (appliedTo k e) (routes k) (eg_WGInterface e)"
    "eg_WGInterface ?e4 = eg_WGInterface e" "eg_netstack ?e4 = eg_netstack e" "eg_selfKey ?e4 = eg_selfKey e"
    "appliedTo k ?e4 = (if routes k = [] then appliedTo k e else routes k)"
    by (simp_all add: applyOSRoutes_eq appliedTo_def)
  show ?thesis
    by (rule that [of cs]) (use cs f in \<open>simp_all add: e appliedTo_def\<close>)
qed


lemma removed_route:
  "c \<in> set old \<Longrightarrow> c \<notin> set new \<Longrightarrow> \<not> isDefaultRoute c \<Longrightarrow> RemoveRoute c iface \<in> set (route_cmds old new iface)"
  by (simp add: route_cmds_def diffRemoved_def)

lemma kept_routes: "AddRoute c i \<notin> set (route_cmds old old iface)"
  by (auto simp: route_cmds_def diffAdded_def)

lemma conf_cmd_no_route: "AddRoute c i \<notin> set (conf_cmd t)"
  by (cases t) (simp_all add: conf_cmd_def)


section \<open>Exit node\<close>

text \<open>The addresses of the pinning commands that succeed, in order.\<close>

fun ok_hosts :: "agent_env \<Rightarrow> os_cmd list \<Rightarrow> os_cmd list \<Rightarrow> u32 option list" where
  "ok_hosts env past [] = []"
| "ok_hosts env past (c # cs) =
     (case c of
        AddHostRoute ip gw iface \<Rightarrow> if ae_ok env past c then ip # ok_hosts env (past @ [c]) cs else ok_hosts env (past @ [c]) cs
      | _ \<Rightarrow> ok_hosts env (past @ [c]) cs)"

lemma pin_hosts_facts:
  "\<exists>pins. pin_hosts env gw iface addrs e = (ok_hosts env (eg_log e) pins, e\<lparr>eg_log := eg_log e @ pins\<rparr>)
     \<and> (\<forall>c \<in> set pins. \<exists>ip. c = AddHostRoute ip gw iface)"
proof (induction addrs arbitrary: e)
  case Nil
  show ?case by (intro exI [of _ "[]"]) simp
next
  case (Cons a addrs)
  show ?case
  proof (cases "\<exists>ip. resolveHost (ae_lookup env) a = Some ip \<and> \<not> (case ip of None \<Rightarrow> False | Some v \<Rightarrow> is_loopback (V4 v))")
    case True
    then obtain ip where ip: "resolveHost (ae_lookup env) a = Some ip"
      "\<not> (case ip of None \<Rightarrow> False | Some v \<Rightarrow> is_loopback (V4 v))" by blast
    let ?c = "AddHostRoute ip gw iface"
    let ?e = "e\<lparr>eg_log := eg_log e @ [?c]\<rparr>"
    obtain pins where p: "pin_hosts env gw iface addrs ?e = (ok_hosts env (eg_log ?e) pins, ?e\<lparr>eg_log := eg_log ?e @ pins\<rparr>)"
      "\<forall>c \<in> set pins. \<exists>ip. c = AddHostRoute ip gw iface" using Cons.IH [of ?e] by blast
    show ?thesis
      by (intro exI [of _ "?c # pins"]) (use ip p in \<open>simp add: issue_def\<close>)
  next
    case False
    then have "pin_hosts env gw iface (a # addrs) e = pin_hosts env gw iface addrs e"
      by (auto split: option.splits)
    then show ?thesis using Cons.IH [of e] by simp
  qed
qed


section \<open>Enrolment\<close>

lemma enroll_waits:
  assumes "\<forall>x \<in> set fails. x = (None, False)" "n \<le> 5"
  shows "enrollWithRetry (2 ^ n * second) (fails @ (Some r, b) # rest) =
     (map (\<lambda>i. min (2 ^ (n + i)) 32 * second) [0..<length fails], Some (Some r))"
  using assms
proof (induction fails arbitrary: n)
  case (Cons x fails)
  have x: "x = (None, False)" using Cons.prems by simp
  define m where "m = (if n = 5 then 5 else Suc n)"
  have "n = 0 \<or> n = 1 \<or> n = 2 \<or> n = 3 \<or> n = 4 \<or> n = 5" using Cons.prems(2) by arith
  then have next_wait: "(if 2 ^ n * second < 30 * second then 2 ^ n * second * 2 else 2 ^ n * second) = 2 ^ m * second"
    and small: "min (2 ^ n) 32 = (2 ^ n :: int)" by (elim disjE; simp add: m_def second_def)+
  have shift: "min (2 ^ (n + Suc i)) 32 = min (2 ^ (m + i)) (32 :: int)" for i
  proof (cases "n = 5")
    case True
    have "(32 :: int) \<le> 2 ^ (5 + j)" for j using power_increasing [of 5 "5 + j" "2 :: int"] by simp
    from this [of "Suc i"] this [of i] True show ?thesis by (simp add: m_def min_def)
  qed (simp add: m_def)
  have "m \<le> 5" using Cons.prems(2) by (simp add: m_def)
  with Cons.IH [of m] Cons.prems(1) have ih: "enrollWithRetry (2 ^ m * second) (fails @ (Some r, b) # rest) =
     (map (\<lambda>i. min (2 ^ (m + i)) 32 * second) [0..<length fails], Some (Some r))" by simp
  have "map (\<lambda>i. min (2 ^ (n + i)) 32 * second) [0..<Suc (length fails)] =
      2 ^ n * second # map (\<lambda>i. min (2 ^ (m + i)) 32 * second) [0..<length fails]"
    unfolding map_upt_Suc shift by (simp add: small)
  then show ?case unfolding x append_Cons enrollWithRetry.simps next_wait ih by simp
qed simp


section \<open>Properties\<close>

text \<open>A route that is withdrawn and advertised again is not restored: when an update lists a gateway
  without routes, its routes leave the routing table, but the engine keeps them as applied; when a
  later update lists the same routes again, no command adds them.\<close>

theorem readvertised_route_lost:
  assumes "\<not> eg_netstack e" "k \<noteq> eg_selfKey e" "pb_WgPubKey (up_New u) = k" "pb_WgPubKey (up_New v) = k"
    "routes k = []" "routes' k = appliedTo k e" "c \<in> set (appliedTo k e)" "\<not> isDefaultRoute c"
    "e1 = sync_updated env routes u e" "e2 = sync_updated env' routes' v e1"
  shows "\<exists>l1 l2. eg_log e1 = eg_log e @ l1 \<and> RemoveRoute c (eg_WGInterface e) \<in> set l1
    \<and> eg_log e2 = eg_log e1 @ l2 \<and> AddRoute c (eg_WGInterface e) \<notin> set l2"
proof -
  obtain cs where e1: "eg_log e1 = eg_log e @ conf_cmd (UpsertPeer k (pb_AllowedIps (up_New u)) [])
      @ route_cmds (appliedTo k e) [] (eg_WGInterface e) @ cs"
    "appliedTo k e1 = appliedTo k e" "eg_netstack e1 = eg_netstack e" "eg_selfKey e1 = eg_selfKey e"
    using updated_log [OF assms(3,2,1), of env routes] assms(5,9) by metis
  have n1: "\<not> eg_netstack e1" "k \<noteq> eg_selfKey e1" using assms(1,2) e1 by simp_all
  obtain ds where e2: "eg_log e2 = eg_log e1 @ conf_cmd (UpsertPeer k (pb_AllowedIps (up_New v)) [])
      @ route_cmds (appliedTo k e) (appliedTo k e) (eg_WGInterface e1) @ ds" "\<forall>c \<in> set ds. \<exists>t. c = WgSet t"
    using updated_log [OF assms(4) n1(2,1), of env' routes'] assms(6,10) e1(2) by metis
  have "RemoveRoute c (eg_WGInterface e) \<in> set (route_cmds (appliedTo k e) [] (eg_WGInterface e))"
    using assms(7,8) by (simp add: removed_route)
  moreover have "AddRoute c (eg_WGInterface e) \<notin> set ds" using e2(2) by blast
  ultimately show ?thesis
    by (intro exI [of _ "conf_cmd (UpsertPeer k (pb_AllowedIps (up_New u)) []) @ route_cmds (appliedTo k e) [] (eg_WGInterface e) @ cs"]
        exI [of _ "conf_cmd (UpsertPeer k (pb_AllowedIps (up_New v)) []) @ route_cmds (appliedTo k e) (appliedTo k e) (eg_WGInterface e1) @ ds"])
      (simp add: e1(1) e2(1) kept_routes conf_cmd_no_route)
qed

definition example_gateway :: Engine where
  "example_gateway = example_new_engine\<lparr>eg_appliedRoutes := [(''Qg=='', [''10.1.0.0/16''])]\<rparr>"

definition example_change :: "string list \<Rightarrow> string list \<Rightarrow> Update" where
  "example_change old new = \<lparr>up_Old = example_pb ''Qg=='' old, up_New = example_pb ''Qg=='' new\<rparr>"

theorem readvertised_route_lost_witness:
  "\<exists>l1 l2. eg_log (sync_updated example_agent_env (\<lambda>_. []) (example_change [''10.1.0.0/16''] []) example_gateway) = eg_log example_gateway @ l1
     \<and> RemoveRoute ''10.1.0.0/16'' (eg_WGInterface example_gateway) \<in> set l1
     \<and> eg_log (sync_updated example_agent_env (\<lambda>_. [''10.1.0.0/16'']) (example_change [] [''10.1.0.0/16''])
          (sync_updated example_agent_env (\<lambda>_. []) (example_change [''10.1.0.0/16''] []) example_gateway))
        = eg_log (sync_updated example_agent_env (\<lambda>_. []) (example_change [''10.1.0.0/16''] []) example_gateway) @ l2
     \<and> AddRoute ''10.1.0.0/16'' (eg_WGInterface example_gateway) \<notin> set l2"
  by (rule readvertised_route_lost [where k = "''Qg==''" and u = "example_change [''10.1.0.0/16''] []"
        and v = "example_change [] [''10.1.0.0/16'']", OF _ _ _ _ _ _ _ _ refl refl])
    (simp_all add: example_gateway_def example_new_engine_def New_Engine_def example_change_def example_pb_def
      appliedTo_def isDefaultRoute_def go_get_def)

text \<open>C27. Using an exit node and leaving it again undoes itself: the hosts that must stay outside the
  tunnel are pinned before the first split route is added, and leaving removes both split routes and
  exactly the pins that were accepted; the rest of the engine is as before.\<close>

theorem exit_node_round_trip:
  assumes "eg_exitNode e = None" "ae_gateway env = Some (gw, gwIface)"
  shows "\<exists>pins. deactivateExitNode env' (activateExitNode env e) =
      e\<lparr>eg_log := eg_log e @ pins
          @ [AddRoute ''0.0.0.0/1'' (eg_WGInterface e), AddRoute ''128.0.0.0/1'' (eg_WGInterface e),
             RemoveRoute ''0.0.0.0/1'' (eg_WGInterface e), RemoveRoute ''128.0.0.0/1'' (eg_WGInterface e)]
          @ map (\<lambda>ip. RemoveHostRoute ip gwIface) (ok_hosts env (eg_log e) pins)\<rparr>
    \<and> (\<forall>c \<in> set pins. \<exists>ip. c = AddHostRoute ip gw gwIface)"
proof -
  obtain pins where p: "pin_hosts env gw gwIface [eg_ManagementURL e, eg_SignalURL e] e =
      (ok_hosts env (eg_log e) pins, e\<lparr>eg_log := eg_log e @ pins\<rparr>)" "\<forall>c \<in> set pins. \<exists>ip. c = AddHostRoute ip gw gwIface"
    using pin_hosts_facts by blast
  show ?thesis
    by (intro exI [of _ pins] conjI p(2))
      (use assms in \<open>simp add: activateExitNode_def p(1) deactivateExitNode_def del: pin_hosts.simps\<close>)
qed

theorem exit_node_round_trip_witness:
  "\<exists>pins. eg_log (deactivateExitNode example_agent_env (activateExitNode example_agent_env example_new_engine)) = pins
      @ [AddRoute ''0.0.0.0/1'' ''blinex0'', AddRoute ''128.0.0.0/1'' ''blinex0'',
         RemoveRoute ''0.0.0.0/1'' ''blinex0'', RemoveRoute ''128.0.0.0/1'' ''blinex0'']
      @ map (\<lambda>ip. RemoveHostRoute ip ''eth0'') (ok_hosts example_agent_env [] pins)"
proof -
  have "eg_exitNode example_new_engine = None" "ae_gateway example_agent_env = Some (V4 0xC0A80001, ''eth0'')"
    "eg_WGInterface example_new_engine = ''blinex0''" "eg_log example_new_engine = []"
    by (simp_all add: example_new_engine_def New_Engine_def example_agent_env_def)
  with exit_node_round_trip [of example_new_engine example_agent_env "V4 0xC0A80001" "''eth0''" example_agent_env]
  obtain pins where "eg_log (deactivateExitNode example_agent_env (activateExitNode example_agent_env example_new_engine)) = pins
      @ [AddRoute ''0.0.0.0/1'' ''blinex0'', AddRoute ''128.0.0.0/1'' ''blinex0'',
         RemoveRoute ''0.0.0.0/1'' ''blinex0'', RemoveRoute ''128.0.0.0/1'' ''blinex0'']
      @ map (\<lambda>ip. RemoveHostRoute ip ''eth0'') (ok_hosts example_agent_env [] pins)"
    by auto
  then show ?thesis by blast
qed

text \<open>C28. Enrolment is retried until it succeeds: the response of the first attempt that succeeds is
  returned, and the waits before it are one second, doubled up to 32 seconds.\<close>

theorem enroll_retries_until_success:
  assumes "\<forall>x \<in> set fails. x = (None, False)"
  shows "enrollWithRetry second (fails @ (Some r, b) # rest) =
     (map (\<lambda>i. min (2 ^ i) 32 * second) [0..<length fails], Some (Some r))"
  using enroll_waits [OF assms, of 0 r b rest] by simp

theorem enroll_retries_until_success_witness:
  "enrollWithRetry second ([(None, False), (None, False)] @ (Some (7 :: nat), False) # []) = ([second, 2 * second], Some (Some 7))"
  using enroll_retries_until_success [of "[(None, False), (None, False)]" "7 :: nat" False "[]"] by simp

end
