(* ===== verification/Agent_Trust.thy ===== *)
theory Agent_Trust
  imports Wg_Peers
begin

text \<open>
  What the agent keeps and trusts: its configuration (\<^verbatim>\<open>client/internal/config/config.go\<close>), the state
  file with the private key (\<^verbatim>\<open>client/internal/state/state.go\<close>) and the pinned server certificates
  (\<^verbatim>\<open>makeTOFUConfig\<close> in \<^verbatim>\<open>client/internal/engine/engine.go\<close>). Files, JSON, the key generator and the
  hash function are arguments.
\<close>

section \<open>Configuration\<close>

record agent_Config =
  ac_ManagementURL :: string
  ac_SignalURL :: string
  ac_SetupKey :: string
  ac_WGInterface :: string
  ac_StateDir :: string
  ac_STUNURLs :: "string list"
  ac_TURNUser :: string
  ac_TURNPass :: string
  ac_LogLevel :: string
  ac_DNSUpstream :: string
  ac_TLSSkipVerify :: bool
  ac_TLSCACert :: string
  ac_Version :: string

definition getEnv_agent :: "(string \<Rightarrow> string) \<Rightarrow> string \<Rightarrow> string \<Rightarrow> string" where
  "getEnv_agent environ key fallback = (if environ key \<noteq> [] then environ key else fallback)"

definition parseList :: "string \<Rightarrow> string list" where
  "parseList s = filter (\<lambda>item. item \<noteq> []) (map trim_space (split_on CHR '','' s))"

datatype config_error = ReadConfig | ParseConfig | SetupKeyRequired

text \<open>The file: absent, unreadable, or its contents, read over the defaults.\<close>

definition Load_agent ::
  "(string \<Rightarrow> string) \<Rightarrow> string option option \<Rightarrow> (string \<Rightarrow> agent_Config \<Rightarrow> agent_Config option) \<Rightarrow> config_error + agent_Config" where
  "Load_agent environ file unmarshal =
     (let get = getEnv_agent environ;
          cfg = \<lparr>ac_ManagementURL = get ''BLINEX_MANAGEMENT_URL'' ''localhost:50051'',
                 ac_SignalURL = get ''BLINEX_SIGNAL_URL'' ''localhost:10000'',
                 ac_SetupKey = get ''BLINEX_SETUP_KEY'' [],
                 ac_WGInterface = get ''BLINEX_WG_IFACE'' ''blinex0'',
                 ac_StateDir = get ''BLINEX_STATE_DIR'' ''/var/lib/blinex'',
                 ac_STUNURLs = parseList (get ''BLINEX_STUN_URLS'' ''stun:stun.l.google.com:19302''),
                 ac_TURNUser = get ''BLINEX_TURN_USER'' [],
                 ac_TURNPass = get ''BLINEX_TURN_PASS'' [],
                 ac_LogLevel = get ''LOG_LEVEL'' ''info'',
                 ac_DNSUpstream = get ''BLINEX_DNS_UPSTREAM'' ''8.8.8.8:53'',
                 ac_TLSSkipVerify = (get ''BLINEX_TLS_SKIP_VERIFY'' ''true'' \<noteq> ''false''),
                 ac_TLSCACert = get ''BLINEX_TLS_CA_CERT'' [],
                 ac_Version = []\<rparr>;
          check = (\<lambda>c. if ac_SetupKey c = [] then Inl SetupKeyRequired else Inr c)
      in case file of
           None \<Rightarrow> check cfg
         | Some None \<Rightarrow> Inl ReadConfig
         | Some (Some data) \<Rightarrow> (case unmarshal data cfg of None \<Rightarrow> Inl ParseConfig | Some c \<Rightarrow> check c))"

text \<open>How a server is verified: by nothing, against the system roots or a given CA, or by a pin.\<close>

datatype tls_policy = Unverified | SystemRoots | OnlyCA string | Pinned string

datatype tls_error = ReadCA | NoCertificates

text \<open>The CA file: unreadable, or its contents and whether they hold a certificate.\<close>

definition TLSConfig :: "(string \<times> bool) option \<Rightarrow> agent_Config \<Rightarrow> tls_error + tls_policy" where
  "TLSConfig ca c =
     (if ac_TLSCACert c \<noteq> [] then
        (case ca of
           None \<Rightarrow> Inl ReadCA
         | Some (pem, valid) \<Rightarrow> if valid then Inr (OnlyCA pem) else Inl NoCertificates)
      else Inr (if ac_TLSSkipVerify c then Unverified else SystemRoots))"

definition buildTLSConfigs :: "(string \<times> bool) option \<Rightarrow> agent_Config \<Rightarrow> tls_error + (tls_policy \<times> tls_policy)" where
  "buildTLSConfigs ca c =
     (if ac_TLSCACert c \<noteq> [] \<or> \<not> ac_TLSSkipVerify c then
        (case TLSConfig ca c of Inl err \<Rightarrow> Inl err | Inr p \<Rightarrow> Inr (p, p))
      else Inr (Pinned (ac_ManagementURL c), Pinned (ac_SignalURL c)))"


section \<open>State file\<close>

record trust_State =
  ts_WGPrivateKey :: string
  ts_ServerFingerprints :: "(string, string) gomap"

definition std_enc :: "nat \<Rightarrow> char" where
  "std_enc v = (if v = 62 then CHR ''+'' else if v = 63 then CHR ''/'' else b64_char v)"

definition Std_EncodeToString :: "byte list \<Rightarrow> string" where
  "Std_EncodeToString bs =
     (let body = map std_enc (b64_enc bs)
      in body @ replicate ((4 - length body mod 4) mod 4) CHR ''='')"

datatype state_error = StateDir | GenerateKey

definition stored_key :: "(string \<Rightarrow> trust_State option) \<Rightarrow> string option \<Rightarrow> (trust_State \<times> byte list) option" where
  "stored_key unmarshal file =
     (case file of
        None \<Rightarrow> None
      | Some data \<Rightarrow>
          (case unmarshal data of
             None \<Rightarrow> None
           | Some s \<Rightarrow>
               (case Std_DecodeString (ts_WGPrivateKey s) of
                  None \<Rightarrow> None
                | Some raw \<Rightarrow> if length raw = 32 then Some (s, raw) else None)))"

text \<open>State, private key and what is written to the file, if anything.\<close>

definition LoadOrCreate ::
  "bool \<Rightarrow> string option \<Rightarrow> (string \<Rightarrow> trust_State option) \<Rightarrow> (trust_State \<Rightarrow> string option) \<Rightarrow> byte list option
   \<Rightarrow> state_error + (trust_State \<times> byte list) \<times> string option" where
  "LoadOrCreate dir_ok file unmarshal marshal fresh =
     (if \<not> dir_ok then Inl StateDir
      else
        (case stored_key unmarshal file of
           Some r \<Rightarrow> Inr (r, None)
         | None \<Rightarrow>
             (case fresh of
                None \<Rightarrow> Inl GenerateKey
              | Some privKey \<Rightarrow>
                  (let s = \<lparr>ts_WGPrivateKey = Std_EncodeToString privKey, ts_ServerFingerprints = []\<rparr>
                   in Inr ((s, privKey), marshal s)))))"


section \<open>Trust on first use\<close>

datatype tofu = Trusted | NoCertificate | CertificateChanged | SlicePanic

text \<open>The contents of the state file after \<^verbatim>\<open>Save\<close>, when the file can be written.\<close>

definition Save_state :: "(trust_State \<Rightarrow> string option) \<Rightarrow> trust_State \<Rightarrow> string option \<Rightarrow> string option" where
  "Save_state marshal s file = (case marshal s of None \<Rightarrow> file | Some b \<Rightarrow> Some b)"

text \<open>\<^verbatim>\<open>VerifyPeerCertificate\<close> acts on the state in memory and on the state file; the error message cuts
  the pinned fingerprint at 16 characters.\<close>

definition VerifyPeerCertificate ::
  "(trust_State \<Rightarrow> string option) \<Rightarrow> (byte list \<Rightarrow> byte list) \<Rightarrow> string \<Rightarrow> byte list list
   \<Rightarrow> trust_State \<times> string option \<Rightarrow> tofu \<times> trust_State \<times> string option" where
  "VerifyPeerCertificate marshal sha256 serverAddr rawCerts sf =
     (case rawCerts of
        [] \<Rightarrow> (NoCertificate, sf)
      | cert # _ \<Rightarrow>
          (let fp = EncodeToString (sha256 cert); (st, file) = sf
           in case go_get (ts_ServerFingerprints st) serverAddr of
                None \<Rightarrow>
                  (let st' = st\<lparr>ts_ServerFingerprints := go_put serverAddr fp (ts_ServerFingerprints st)\<rparr>
                   in (Trusted, st', Save_state marshal st' file))
              | Some pinned \<Rightarrow>
                  if pinned \<noteq> fp then (if length pinned < 16 then SlicePanic else CertificateChanged, sf)
                  else (Trusted, sf)))"

definition handshakes ::
  "(trust_State \<Rightarrow> string option) \<Rightarrow> (byte list \<Rightarrow> byte list) \<Rightarrow> (string \<times> byte list list) list
   \<Rightarrow> trust_State \<times> string option \<Rightarrow> trust_State \<times> string option" where
  "handshakes marshal sha256 hs sf = fold (\<lambda>(addr, certs) sf. snd (VerifyPeerCertificate marshal sha256 addr certs sf)) hs sf"

lemmas trust_defs =
  getEnv_agent_def parseList_def Load_agent_def TLSConfig_def buildTLSConfigs_def std_enc_def Std_EncodeToString_def
  stored_key_def LoadOrCreate_def Save_state_def VerifyPeerCertificate_def handshakes_def

declare trust_defs [go_eval] b64_enc.simps [go_eval]



section \<open>Lemmas\<close>

lemma hex_digit_inj: "a < 16 \<Longrightarrow> b < 16 \<Longrightarrow> hex_digit a = hex_digit b \<Longrightarrow> a = b"
proof -
  have d: "distinct ''0123456789abcdef''" "length ''0123456789abcdef'' = 16" by simp_all
  assume "a < 16" "b < 16" "hex_digit a = hex_digit b"
  then show "a = b" using nth_eq_iff_index_eq [OF d(1), of a b] d(2) unfolding hex_digit_def by simp
qed

lemma EncodeToString_inject [simp]: "EncodeToString x = EncodeToString y \<longleftrightarrow> x = y"
proof
  have len: "length (EncodeToString bs) = 2 * length bs" for bs by (induction bs) (simp_all add: EncodeToString_def)
  assume "EncodeToString x = EncodeToString y"
  then show "x = y"
  proof (induction x arbitrary: y)
    case Nil
    then have "length (EncodeToString y) = 0" by (simp add: EncodeToString_def)
    then show ?case by (simp add: len)
  next
    case (Cons a x)
    obtain b z where y: "y = b # z"
    proof (cases y)
      case Nil
      with Cons.prems show ?thesis by (simp add: EncodeToString_def)
    qed (rule that)
    have "hex_digit (unat a div 16) = hex_digit (unat b div 16)" "hex_digit (unat a mod 16) = hex_digit (unat b mod 16)"
      "EncodeToString x = EncodeToString z"
      using Cons.prems by (simp_all add: y EncodeToString_def)
    moreover have "unat c div 16 < 16" for c :: byte using unat_byte [of c] by (simp add: less_mult_imp_div_less)
    ultimately have "unat a div 16 = unat b div 16" "unat a mod 16 = unat b mod 16" "x = z"
      using hex_digit_inj Cons.IH by simp_all
    then have "unat a = unat b" by (metis div_mult_mod_eq)
    with \<open>x = z\<close> show ?case by (simp add: y word_unat_eq_iff)
  qed
qed simp

lemma std_enc_char:
  assumes "v < 64"
  shows "b64_val (std_char (std_enc v)) = Some v" "std_enc v \<noteq> CHR 0x0A" "std_enc v \<noteq> CHR 0x0D" "std_enc v \<noteq> CHR ''=''"
proof -
  define c where "c = std_enc v"
  have "b64_val (std_char c) = Some v \<and> c \<noteq> CHR 0x0A \<and> c \<noteq> CHR 0x0D \<and> c \<noteq> CHR ''=''"
  proof (cases "v < 62")
    case True
    then have c: "c = b64_char v" by (simp add: c_def std_enc_def)
    have v: "b64_val c = Some v" using assms(1) by (simp add: c b64_char_val)
    then have "c \<noteq> CHR ''+'' \<and> c \<noteq> CHR ''/'' \<and> c \<noteq> CHR ''-'' \<and> c \<noteq> CHR ''_'' \<and> c \<noteq> CHR ''='' \<and> c \<noteq> CHR 0x0A \<and> c \<noteq> CHR 0x0D"
      using True by (auto simp: b64_val_def Let_def)
    with v show ?thesis by (simp add: std_char_def)
  next
    case False
    then consider "v = 62" | "v = 63" using assms(1) by linarith
    then show ?thesis by cases (simp_all add: c_def std_enc_def std_char_def b64_val_def)
  qed
  then show "b64_val (std_char (std_enc v)) = Some v" "std_enc v \<noteq> CHR 0x0A" "std_enc v \<noteq> CHR 0x0D" "std_enc v \<noteq> CHR ''=''"
    by (simp_all add: c_def)
qed

lemma b64_enc_length: "length (b64_enc bs) mod 4 \<noteq> 1"
  by (induction bs rule: b64_enc.induct) simp_all

lemma std_round_trip: "Std_DecodeString (Std_EncodeToString bs) = Some bs"
proof -
  let ?b = "map std_enc (b64_enc bs)" and ?p = "replicate ((4 - length (b64_enc bs) mod 4) mod 4) CHR ''=''"
  have ok: "b64_val (std_char (std_enc v)) = Some v \<and> std_enc v \<noteq> CHR 0x0A \<and> std_enc v \<noteq> CHR 0x0D \<and> std_enc v \<noteq> CHR ''=''"
    if "v \<in> set (b64_enc bs)" for v using std_enc_char [of v] b64_enc_less [of bs] that by blast
  have e: "Std_EncodeToString bs = ?b @ ?p" by (simp add: Std_EncodeToString_def Let_def)
  have f: "filter (\<lambda>c. c \<noteq> CHR 0x0A \<and> c \<noteq> CHR 0x0D) (?b @ ?p) = ?b @ ?p"
    using ok by (intro filter_True) (auto simp: set_replicate_conv_if)
  have "takeWhile (\<lambda>c. c \<noteq> CHR ''='') (?b @ ?p) = ?b @ takeWhile (\<lambda>c. c \<noteq> CHR ''='') ?p"
    using ok by (intro takeWhile_append2) auto
  then have t: "takeWhile (\<lambda>c. c \<noteq> CHR ''='') (?b @ ?p) = ?b" by (simp add: takeWhile_replicate)
  have a: "all_some (map (\<lambda>c. b64_val (std_char c)) ?b) = Some (b64_enc bs)"
    using all_some_map [of "b64_enc bs" "\<lambda>c. b64_val (std_char c)" std_enc] ok by (simp add: comp_def)
  have d: "drop (length ?b) (?b @ ?p) = ?p" by simp
  have l: "length ?b = length (b64_enc bs)" by simp
  show ?thesis
    unfolding Std_DecodeString_def e Let_def f t a d l using b64_enc_length by (simp add: b64_quads_enc)
qed

lemma pin_kept:
  assumes "go_get (ts_ServerFingerprints (fst sf)) addr = Some fp"
  shows "go_get (ts_ServerFingerprints (fst (handshakes marshal sha256 hs sf))) addr = Some fp"
proof -
  have step: "go_get (ts_ServerFingerprints (fst (snd (VerifyPeerCertificate marshal sha256 a certs s)))) addr = Some fp"
    if "go_get (ts_ServerFingerprints (fst s)) addr = Some fp" for a certs s
    using that by (auto simp: VerifyPeerCertificate_def Let_def go_get_put split: list.splits option.splits prod.splits)
  show ?thesis using assms unfolding handshakes_def
  proof (induction hs arbitrary: sf)
    case (Cons h hs)
    obtain a certs where h: "h = (a, certs)" by (cases h)
    show ?case using Cons.IH [OF step [OF Cons.prems], of a certs] by (simp add: h)
  qed simp
qed

text \<open>The file always holds the state in memory, and the private key never changes.\<close>

lemma handshakes_saved:
  assumes "\<And>s. marshal s = Some (enc s)" "snd sf = Some (enc (fst sf))"
  shows "snd (handshakes marshal sha256 hs sf) = Some (enc (fst (handshakes marshal sha256 hs sf)))
    \<and> ts_WGPrivateKey (fst (handshakes marshal sha256 hs sf)) = ts_WGPrivateKey (fst sf)"
proof -
  have step: "snd (snd (VerifyPeerCertificate marshal sha256 a certs s)) =
      Some (enc (fst (snd (VerifyPeerCertificate marshal sha256 a certs s))))
    \<and> ts_WGPrivateKey (fst (snd (VerifyPeerCertificate marshal sha256 a certs s))) = ts_WGPrivateKey (fst s)"
    if "snd s = Some (enc (fst s))" for a certs s
    using that
    by (auto simp: VerifyPeerCertificate_def Save_state_def assms(1) Let_def split: list.splits option.splits prod.splits)
  show ?thesis using assms(2) unfolding handshakes_def
  proof (induction hs arbitrary: sf)
    case (Cons h hs)
    obtain a certs where h: "h = (a, certs)" by (cases h)
    show ?case using step [OF Cons.prems, of a certs] Cons.IH [of "snd (VerifyPeerCertificate marshal sha256 a certs sf)"]
      by (simp add: h)
  qed simp
qed


section \<open>Properties\<close>

text \<open>C26. The first certificate is pinned: after the first connection to a server that is not pinned yet,
  and whatever connections to it and to other servers follow, a certificate is trusted for that
  server exactly when its hash is the one of the first; any other is refused.\<close>

theorem tofu_pins_first_certificate:
  assumes "go_get (ts_ServerFingerprints (fst sf)) addr = None" "\<And>c. length (sha256 c) = 32"
    "sf1 = snd (VerifyPeerCertificate marshal sha256 addr (cert # chain) sf)"
  shows "fst (VerifyPeerCertificate marshal sha256 addr (cert' # chain') (handshakes marshal sha256 hs sf1)) =
     (if sha256 cert' = sha256 cert then Trusted else CertificateChanged)"
proof -
  have "go_get (ts_ServerFingerprints (fst sf1)) addr = Some (EncodeToString (sha256 cert))"
    using assms(1,3) by (cases sf) (simp add: VerifyPeerCertificate_def Let_def)
  from pin_kept [OF this, of marshal sha256 hs]
  have p: "go_get (ts_ServerFingerprints (fst (handshakes marshal sha256 hs sf1))) addr = Some (EncodeToString (sha256 cert))" .
  have "length (EncodeToString bs) = 2 * length bs" for bs by (induction bs) (simp_all add: EncodeToString_def)
  then have "\<not> length (EncodeToString (sha256 cert)) < 16" by (simp add: assms(2))
  then show ?thesis
    using p by (cases "handshakes marshal sha256 hs sf1") (auto simp: VerifyPeerCertificate_def Let_def)
qed

theorem tofu_pins_first_certificate_witness:
  "fst (VerifyPeerCertificate (\<lambda>s. None) (\<lambda>c. take 32 (c @ replicate 32 0)) ''mgmt:50051'' [[2]]
      (handshakes (\<lambda>s. None) (\<lambda>c. take 32 (c @ replicate 32 0)) [(''sig:10000'', [[3]])]
        (snd (VerifyPeerCertificate (\<lambda>s. None) (\<lambda>c. take 32 (c @ replicate 32 0)) ''mgmt:50051'' [[1]]
          (\<lparr>ts_WGPrivateKey = [], ts_ServerFingerprints = []\<rparr>, None))))) = CertificateChanged"
  using tofu_pins_first_certificate [of "(\<lparr>ts_WGPrivateKey = [], ts_ServerFingerprints = []\<rparr>, None)" "''mgmt:50051''"
      "\<lambda>c. take 32 (c @ replicate 32 0)" _ "\<lambda>s. None" "[1]" "[]" "[2]" "[]" "[(''sig:10000'', [[3]])]", OF _ _ refl]
  by simp



text \<open>A faithful codec for the state file: the strings of the state in escaped form.\<close>

fun pairs :: "string list \<Rightarrow> (string \<times> string) list" where
  "pairs (a # b # r) = (a, b) # pairs r"
| "pairs _ = []"

definition plain_enc :: "trust_State \<Rightarrow> string" where
  "plain_enc s = concat (map enc_str (ts_WGPrivateKey s # concat (map (\<lambda>(a, f). [a, f]) (ts_ServerFingerprints s))))"

definition plain_dec :: "string \<Rightarrow> trust_State option" where
  "plain_dec t = (case dec_all (length t) t of [] \<Rightarrow> None
     | k # r \<Rightarrow> Some \<lparr>ts_WGPrivateKey = k, ts_ServerFingerprints = pairs r\<rparr>)"

lemma pairs_concat: "pairs (concat (map (\<lambda>(a, f). [a, f]) ps)) = ps"
  by (induction ps) auto

lemma plain_round_trip: "plain_dec (plain_enc s) = Some s"
  unfolding plain_dec_def plain_enc_def dec_all_enc [OF length_enc_all] by (simp add: pairs_concat)

text \<open>The identity of a device survives a restart: the private key made on the first start, when no
  usable state file exists, and every pin collected since are what the next start reads back from the file,
  provided the JSON codec is faithful; and nothing is written then.\<close>

theorem identity_survives_restart:
  assumes "\<And>s. marshal s = Some (enc s)" "\<And>s. unmarshal (enc s) = Some s" "length key = 32"
    "stored_key unmarshal file = None" "LoadOrCreate True file unmarshal marshal (Some key) = Inr ((st, key'), written)"
    "handshakes marshal sha256 hs (st, written) = (st', file')"
  shows "key' = key \<and> LoadOrCreate True file' unmarshal marshal fresh = Inr ((st', key), None)"
proof -
  have st: "st = \<lparr>ts_WGPrivateKey = Std_EncodeToString key, ts_ServerFingerprints = []\<rparr>" "key' = key" "written = Some (enc st)"
    using assms(1,4,5) by (auto simp: LoadOrCreate_def Let_def)
  have "file' = Some (enc st')" "ts_WGPrivateKey st' = Std_EncodeToString key"
    using handshakes_saved [of marshal enc "(st, written)" sha256 hs, OF assms(1)] assms(6) st(3) by (simp_all add: st(1))
  then have "stored_key unmarshal file' = Some (st', key)"
    using assms(3) by (simp add: stored_key_def assms(2) std_round_trip)
  then show ?thesis using st(2) by (simp add: LoadOrCreate_def)
qed

theorem identity_survives_restart_witness:
  "\<exists>st' file'. handshakes (\<lambda>s. Some (plain_enc s)) (\<lambda>c. c) [(''mgmt:50051'', [[1]])]
       (\<lparr>ts_WGPrivateKey = Std_EncodeToString (replicate 32 7), ts_ServerFingerprints = []\<rparr>,
        Some (plain_enc \<lparr>ts_WGPrivateKey = Std_EncodeToString (replicate 32 7), ts_ServerFingerprints = []\<rparr>)) = (st', file')
     \<and> LoadOrCreate True file' plain_dec (\<lambda>s. Some (plain_enc s)) None = Inr ((st', replicate 32 7), None)"
proof -
  let ?st = "\<lparr>ts_WGPrivateKey = Std_EncodeToString (replicate 32 7), ts_ServerFingerprints = []\<rparr>"
  obtain st' file' where h: "handshakes (\<lambda>s. Some (plain_enc s)) (\<lambda>c. c) [(''mgmt:50051'', [[1]])] (?st, Some (plain_enc ?st))
      = (st', file')" by fastforce
  have l: "LoadOrCreate True None plain_dec (\<lambda>s. Some (plain_enc s)) (Some (replicate 32 7)) =
      Inr ((?st, replicate 32 7), Some (plain_enc ?st))"
    by (simp add: LoadOrCreate_def stored_key_def Let_def)
  have "LoadOrCreate True file' plain_dec (\<lambda>s. Some (plain_enc s)) None = Inr ((st', replicate 32 7), None)"
    by (rule identity_survives_restart [OF refl plain_round_trip _ _ l h, THEN conjunct2])
      (simp_all add: stored_key_def)
  with h show ?thesis by blast
qed

end
