(* ===== verification/Ice_Manager.thy ===== *)
theory Ice_Manager
  imports Wg_Peers "HOL-Library.Char_ord" "HOL-Library.List_Lexorder"
begin

text \<open>
  Negotiation of direct connections (\<^verbatim>\<open>client/internal/ice/manager.go\<close>). A \<^verbatim>\<open>peerConn\<close> is an object, numbered
  in the order of creation, with two channels of one place; a goroutine of \<^verbatim>\<open>runPeerWithRetry\<close> is a
  runner with the place it has reached, numbered likewise, and its context is cancelled or not. One
  step is what happens between two points where a goroutine can be held up: at a lock, a channel,
  a timer or a call of the ICE library, whose results are arguments, like the choice of \<^verbatim>\<open>select\<close>.
\<close>

section \<open>State\<close>

record iceExchange =
  ex_Ufrag :: string
  ex_Pwd :: string
  ex_Candidates :: "string list"

text \<open>\<^verbatim>\<open>cancel\<close> is the number of the goroutine whose context it cancels.\<close>

record peerConn =
  pc_offerCh :: "iceExchange option"
  pc_answerCh :: "iceExchange option"
  pc_cancel :: nat

definition newPeerConn :: "nat \<Rightarrow> peerConn" where
  "newPeerConn cancel = \<lparr>pc_offerCh = None, pc_answerCh = None, pc_cancel = cancel\<rparr>"

text \<open>
  The places of a goroutine: the head of the loop; in \<^verbatim>\<open>runPeer\<close> while candidates are gathered, while it
  waits for the exchange of the other side, in \<^verbatim>\<open>Dial\<close> or \<^verbatim>\<open>Accept\<close>, and while it holds a connection;
  behind \<^verbatim>\<open>runPeer\<close>; between the check that the peer is tracked and the new \<^verbatim>\<open>peerConn\<close>; in the wait
  before the next attempt; and behind the loop.
\<close>

datatype ice_phase =
    Top
  | Gather nat
  | Await nat iceExchange
  | Connect nat iceExchange iceExchange
  | Hold nat nat
  | Back nat
  | Replace nat
  | Sleep
  | Ended

record runner =
  rn_peer :: string
  rn_cancelled :: bool
  rn_backoff :: duration
  rn_phase :: ice_phase

datatype uri_scheme = STUN | STUNS | TURN | TURNS

record stun_URI =
  su_Scheme :: uri_scheme
  su_Host :: string
  su_Username :: string
  su_Password :: string

record ice_Manager =
  im_selfKey :: string
  im_stunURLs :: "stun_URI list"
  im_peers :: "(string, nat) gomap"
  im_conns :: "peerConn list"
  im_runs :: "runner list"

text \<open>\<open>parseURI\<close> is the parser of the STUN library; the fallback is a nil pointer when it cannot be parsed.\<close>

definition parseSTUNURLs :: "(string \<Rightarrow> stun_URI option) \<Rightarrow> string list \<Rightarrow> stun_URI option list" where
  "parseSTUNURLs parseURI hosts =
     (let urls = filter (\<lambda>u. u \<noteq> None) (map parseURI hosts)
      in if urls = [] then [parseURI ''stun:stun.l.google.com:19302''] else urls)"

definition set_credentials :: "string \<Rightarrow> string \<Rightarrow> stun_URI \<Rightarrow> stun_URI" where
  "set_credentials turnUser turnPass u =
     (if su_Scheme u = TURN \<or> su_Scheme u = TURNS then u\<lparr>su_Username := turnUser, su_Password := turnPass\<rparr> else u)"

text \<open>None is the panic on a nil pointer.\<close>

definition New_ice :: "(string \<Rightarrow> stun_URI option) \<Rightarrow> string \<Rightarrow> string list \<Rightarrow> string \<Rightarrow> string \<Rightarrow> ice_Manager option" where
  "New_ice parseURI selfKey stunHosts turnUser turnPass =
     map_option (\<lambda>urls. \<lparr>im_selfKey = selfKey, im_stunURLs = map (set_credentials turnUser turnPass) urls,
                        im_peers = [], im_conns = [], im_runs = []\<rparr>)
       (all_some (parseSTUNURLs parseURI stunHosts))"


section \<open>Operations\<close>

text \<open>A new \<^verbatim>\<open>peerConn\<close> with its context and goroutine.\<close>

definition launch :: "string \<Rightarrow> ice_Manager \<Rightarrow> ice_Manager" where
  "launch peerKey m =
     m\<lparr>im_peers := go_put peerKey (length (im_conns m)) (im_peers m),
       im_conns := im_conns m @ [newPeerConn (length (im_runs m))],
       im_runs := im_runs m @ [\<lparr>rn_peer = peerKey, rn_cancelled = False, rn_backoff = 5 * second, rn_phase = Top\<rparr>]\<rparr>"

definition StartConnect_ice :: "string \<Rightarrow> ice_Manager \<Rightarrow> ice_Manager" where
  "StartConnect_ice peerKey m = (if go_get (im_peers m) peerKey \<noteq> None then m else launch peerKey m)"

definition cancel_run :: "nat \<Rightarrow> ice_Manager \<Rightarrow> ice_Manager" where
  "cancel_run i m = m\<lparr>im_runs := (im_runs m)[i := (im_runs m ! i)\<lparr>rn_cancelled := True\<rparr>]\<rparr>"

definition ClosePeer_ice :: "string \<Rightarrow> ice_Manager \<Rightarrow> ice_Manager" where
  "ClosePeer_ice peerKey m =
     (case go_get (im_peers m) peerKey of
        None \<Rightarrow> m
      | Some pc \<Rightarrow> cancel_run (pc_cancel (im_conns m ! pc)) (m\<lparr>im_peers := go_del peerKey (im_peers m)\<rparr>))"

definition at_conn :: "nat \<Rightarrow> (peerConn \<Rightarrow> peerConn) \<Rightarrow> ice_Manager \<Rightarrow> ice_Manager" where
  "at_conn pc f m = m\<lparr>im_conns := (im_conns m)[pc := f (im_conns m ! pc)]\<rparr>"

text \<open>A send that never waits: a full channel drops the value.\<close>

definition offer_to :: "iceExchange \<Rightarrow> peerConn \<Rightarrow> peerConn" where
  "offer_to ex pc = (if pc_offerCh pc = None then pc\<lparr>pc_offerCh := Some ex\<rparr> else pc)"

definition answer_to :: "iceExchange \<Rightarrow> peerConn \<Rightarrow> peerConn" where
  "answer_to ex pc = (if pc_answerCh pc = None then pc\<lparr>pc_answerCh := Some ex\<rparr> else pc)"

definition HandleSignal :: "(string \<Rightarrow> iceExchange option) \<Rightarrow> sig_Message \<Rightarrow> ice_Manager \<Rightarrow> ice_Manager" where
  "HandleSignal unmarshal msg m =
     (case sm_Type msg of
        OFFER \<Rightarrow>
          (case unmarshal (sm_Payload msg) of
             None \<Rightarrow> m
           | Some ex \<Rightarrow>
               (let m1 = (if go_get (im_peers m) (sm_Key msg) = None then launch (sm_Key msg) m else m)
                in case go_get (im_peers m1) (sm_Key msg) of
                     None \<Rightarrow> m1
                   | Some pc \<Rightarrow> at_conn pc (offer_to ex) m1))
      | ANSWER \<Rightarrow>
          (case unmarshal (sm_Payload msg) of
             None \<Rightarrow> m
           | Some ex \<Rightarrow>
               (case go_get (im_peers m) (sm_Key msg) of
                  None \<Rightarrow> m
                | Some pc \<Rightarrow> at_conn pc (answer_to ex) m))
      | _ \<Rightarrow> m)"

definition at_run :: "nat \<Rightarrow> ice_phase \<Rightarrow> ice_Manager \<Rightarrow> ice_Manager" where
  "at_run i ph m = m\<lparr>im_runs := (im_runs m)[i := (im_runs m ! i)\<lparr>rn_phase := ph\<rparr>]\<rparr>"

definition isController :: "nat \<Rightarrow> ice_Manager \<Rightarrow> bool" where
  "isController i m \<longleftrightarrow> im_selfKey m < rn_peer (im_runs m ! i)"

text \<open>\<^verbatim>\<open>signal.Send\<close>: the body and the peer it is for, in the name of the device.\<close>

definition ice_msg :: "string \<Rightarrow> string \<Rightarrow> body_type \<Rightarrow> string \<Rightarrow> sig_Message" where
  "ice_msg from to typ payload =
     \<lparr>sm_Key = from, sm_RemoteKey = to, sm_Type = typ, sm_Payload = payload, sm_Data = []\<rparr>"

text \<open>
  A step of goroutine \<open>i\<close>: the state after it and the messages sent, or none when the goroutine is held
  up. The outcome of gathering is the local exchange, or none for each early return; the outcome of
  \<^verbatim>\<open>Dial\<close> and \<^verbatim>\<open>Accept\<close> is a connection or none; \<open>done\<close> says that \<^verbatim>\<open>select\<close> takes the branch of the
  context, which while waiting for the other side is also the time-out.
\<close>

record ice_outcome =
  oc_local :: "iceExchange option"
  oc_conn :: "nat option"
  oc_done :: bool

type_synonym ice_result = "(ice_Manager \<times> sig_Message list) option"

abbreviation go_to :: "nat \<Rightarrow> ice_phase \<Rightarrow> ice_Manager \<Rightarrow> ice_result" where
  "go_to i ph m \<equiv> Some (at_run i ph m, [])"

definition run_top :: "nat \<Rightarrow> ice_Manager \<Rightarrow> ice_result" where
  "run_top i m =
     (case go_get (im_peers m) (rn_peer (im_runs m ! i)) of None \<Rightarrow> go_to i Ended m | Some pc \<Rightarrow> go_to i (Gather pc) m)"

text \<open>Gathering, and the offer of the controlling side.\<close>

definition run_gather :: "(iceExchange \<Rightarrow> string) \<Rightarrow> ice_outcome \<Rightarrow> nat \<Rightarrow> nat \<Rightarrow> ice_Manager \<Rightarrow> ice_result" where
  "run_gather marshal oc pc i m =
     (case oc_local oc of
        None \<Rightarrow> go_to i (Back pc) m
      | Some ex \<Rightarrow>
          Some (at_run i (Await pc ex) m,
                if isController i m then [ice_msg (im_selfKey m) (rn_peer (im_runs m ! i)) OFFER (marshal ex)] else []))"

text \<open>The exchange of the other side, and the answer to an offer.\<close>

definition run_await ::
  "(iceExchange \<Rightarrow> string) \<Rightarrow> ice_outcome \<Rightarrow> nat \<Rightarrow> iceExchange \<Rightarrow> nat \<Rightarrow> ice_Manager \<Rightarrow> ice_result" where
  "run_await marshal oc pc ex i m =
     (if oc_done oc then go_to i (Back pc) m
      else if isController i m then
        (case pc_answerCh (im_conns m ! pc) of
           None \<Rightarrow> None
         | Some ans \<Rightarrow> Some (at_run i (Connect pc ex ans) (at_conn pc (\<lambda>c. c\<lparr>pc_answerCh := None\<rparr>) m), []))
      else
        (case pc_offerCh (im_conns m ! pc) of
           None \<Rightarrow> None
         | Some off \<Rightarrow>
             Some (at_run i (Connect pc ex off) (at_conn pc (\<lambda>c. c\<lparr>pc_offerCh := None\<rparr>) m),
                   [ice_msg (im_selfKey m) (rn_peer (im_runs m ! i)) ANSWER (marshal ex)])))"

definition run_connect :: "ice_outcome \<Rightarrow> nat \<Rightarrow> nat \<Rightarrow> ice_Manager \<Rightarrow> ice_result" where
  "run_connect oc pc i m =
     (case oc_conn oc of None \<Rightarrow> go_to i (Back pc) m | Some conn \<Rightarrow> go_to i (Hold pc conn) m)"

definition run_hold :: "nat \<Rightarrow> nat \<Rightarrow> ice_Manager \<Rightarrow> ice_result" where
  "run_hold pc i m = (if rn_cancelled (im_runs m ! i) then go_to i (Back pc) m else None)"

definition run_back :: "nat \<Rightarrow> nat \<Rightarrow> ice_Manager \<Rightarrow> ice_result" where
  "run_back pc i m =
     (if rn_cancelled (im_runs m ! i) then go_to i Ended m
      else (case go_get (im_peers m) (rn_peer (im_runs m ! i)) of None \<Rightarrow> go_to i Ended m | Some _ \<Rightarrow> go_to i (Replace pc) m))"

definition run_replace :: "nat \<Rightarrow> nat \<Rightarrow> ice_Manager \<Rightarrow> ice_result" where
  "run_replace pc i m =
     go_to i Sleep
       (m\<lparr>im_peers := go_put (rn_peer (im_runs m ! i)) (length (im_conns m)) (im_peers m),
          im_conns := im_conns m @ [newPeerConn (pc_cancel (im_conns m ! pc))]\<rparr>)"

definition run_sleep :: "ice_outcome \<Rightarrow> nat \<Rightarrow> ice_Manager \<Rightarrow> ice_result" where
  "run_sleep oc i m =
     (let r = im_runs m ! i in
      if oc_done oc then (if rn_cancelled r then go_to i Ended m else None)
      else Some (m\<lparr>im_runs := (im_runs m)[i := r\<lparr>rn_phase := Top, rn_backoff := min (rn_backoff r * 2) (60 * second)\<rparr>]\<rparr>, []))"

definition run_step :: "(iceExchange \<Rightarrow> string) \<Rightarrow> ice_outcome \<Rightarrow> nat \<Rightarrow> ice_Manager \<Rightarrow> ice_result" where
  "run_step marshal oc i m =
     (case rn_phase (im_runs m ! i) of
        Top \<Rightarrow> run_top i m
      | Gather pc \<Rightarrow> run_gather marshal oc pc i m
      | Await pc ex \<Rightarrow> run_await marshal oc pc ex i m
      | Connect pc ex remote \<Rightarrow> run_connect oc pc i m
      | Hold pc conn \<Rightarrow> run_hold pc i m
      | Back pc \<Rightarrow> run_back pc i m
      | Replace pc \<Rightarrow> run_replace pc i m
      | Sleep \<Rightarrow> run_sleep oc i m
      | Ended \<Rightarrow> None)"

lemmas run_step_defs =
  run_step_def run_top_def run_gather_def run_await_def run_connect_def run_hold_def run_back_def run_replace_def run_sleep_def

text \<open>\<^verbatim>\<open>OnConnected\<close> is called at the step into \<open>Hold\<close>, with the peer and the connection.\<close>

definition connected :: "ice_outcome \<Rightarrow> nat \<Rightarrow> ice_Manager \<Rightarrow> (string \<times> nat) option" where
  "connected oc i m =
     (case rn_phase (im_runs m ! i) of
        Connect pc ex remote \<Rightarrow> map_option (Pair (rn_peer (im_runs m ! i))) (oc_conn oc)
      | _ \<Rightarrow> None)"

lemmas ice_defs =
  newPeerConn_def parseSTUNURLs_def set_credentials_def New_ice_def launch_def StartConnect_ice_def cancel_run_def ClosePeer_ice_def at_conn_def
  offer_to_def answer_to_def HandleSignal_def at_run_def isController_def ice_msg_def run_step_defs connected_def

declare ice_defs [go_eval]

section \<open>Runs\<close>

definition in_window :: "string \<Rightarrow> runner \<Rightarrow> bool" where
  "in_window k r \<longleftrightarrow> rn_peer r = k \<and> (case rn_phase r of Replace _ \<Rightarrow> True | _ \<Rightarrow> False)"

text \<open>All interleavings; with \<open>calm\<close> those in which no peer is closed while its goroutine is between
  the check and the new \<^verbatim>\<open>peerConn\<close>.\<close>

inductive ice_step :: "bool \<Rightarrow> ice_Manager \<Rightarrow> ice_Manager \<Rightarrow> bool" for calm where
  ice_start: "ice_step calm m (StartConnect_ice k m)"
| ice_close: "(calm \<Longrightarrow> \<not> list_ex (in_window k) (im_runs m)) \<Longrightarrow> ice_step calm m (ClosePeer_ice k m)"
| ice_signal: "ice_step calm m (HandleSignal unmarshal msg m)"
| ice_run: "i < length (im_runs m) \<Longrightarrow> run_step marshal oc i m = Some (m', out) \<Longrightarrow> ice_step calm m m'"

definition ice_new :: "ice_Manager \<Rightarrow> bool" where
  "ice_new m \<longleftrightarrow> (\<exists>parseURI k hosts user pass. New_ice parseURI k hosts user pass = Some m)"

definition live :: "ice_Manager \<Rightarrow> nat \<Rightarrow> bool" where
  "live m i \<longleftrightarrow> i < length (im_runs m) \<and> \<not> rn_cancelled (im_runs m ! i) \<and> rn_phase (im_runs m ! i) \<noteq> Ended"

fun conn_of :: "ice_phase \<Rightarrow> nat option" where
  "conn_of (Gather pc) = Some pc"
| "conn_of (Await pc _) = Some pc"
| "conn_of (Connect pc _ _) = Some pc"
| "conn_of (Hold pc _) = Some pc"
| "conn_of (Back pc) = Some pc"
| "conn_of (Replace pc) = Some pc"
| "conn_of _ = None"

text \<open>The object at \<open>pc\<close> belongs to goroutine \<open>i\<close>.\<close>

definition owns :: "ice_Manager \<Rightarrow> nat \<Rightarrow> nat \<Rightarrow> bool" where
  "owns m i pc \<longleftrightarrow> pc < length (im_conns m) \<and> pc_cancel (im_conns m ! pc) = i"

text \<open>Every tracked object belongs to a live goroutine of its peer, the peer of every live goroutine is
  tracked with an object of that goroutine, and so is what it works on; nobody is cancelled in the
  window. The wait is between five and sixty seconds.\<close>

definition ice_inv :: "ice_Manager \<Rightarrow> bool" where
  "ice_inv m \<longleftrightarrow>
     (\<forall>k pc. go_get (im_peers m) k = Some pc \<longrightarrow> (\<exists>i. owns m i pc \<and> live m i \<and> rn_peer (im_runs m ! i) = k))
     \<and> (\<forall>i. live m i \<longrightarrow> (\<exists>pc. go_get (im_peers m) (rn_peer (im_runs m ! i)) = Some pc \<and> owns m i pc)
          \<and> (\<forall>pc. conn_of (rn_phase (im_runs m ! i)) = Some pc \<longrightarrow> owns m i pc))
     \<and> (\<forall>i pc. i < length (im_runs m) \<longrightarrow> rn_phase (im_runs m ! i) = Replace pc \<longrightarrow> live m i)
     \<and> (\<forall>r \<in> set (im_runs m). 5 * second \<le> rn_backoff r \<and> rn_backoff r \<le> 60 * second)"

section \<open>The invariant is kept\<close>

lemma ice_invD:
  assumes "ice_inv m"
  shows tracked_live: "go_get (im_peers m) k = Some pc \<Longrightarrow> \<exists>i. owns m i pc \<and> live m i \<and> rn_peer (im_runs m ! i) = k"
    and live_tracked: "live m i \<Longrightarrow> \<exists>pc. go_get (im_peers m) (rn_peer (im_runs m ! i)) = Some pc \<and> owns m i pc"
    and live_owns: "live m i \<Longrightarrow> conn_of (rn_phase (im_runs m ! i)) = Some pc \<Longrightarrow> owns m i pc"
    and window_live: "i < length (im_runs m) \<Longrightarrow> rn_phase (im_runs m ! i) = Replace pc \<Longrightarrow> live m i"
    and backoff_bounds: "r \<in> set (im_runs m) \<Longrightarrow> 5 * second \<le> rn_backoff r \<and> rn_backoff r \<le> 60 * second"
  using assms unfolding ice_inv_def by blast+

lemma live_unique:
  assumes "ice_inv m" "live m i" "live m j" "rn_peer (im_runs m ! i) = rn_peer (im_runs m ! j)"
  shows "i = j"
proof -
  obtain pc where "go_get (im_peers m) (rn_peer (im_runs m ! j)) = Some pc" "pc_cancel (im_conns m ! pc) = i"
    using live_tracked [OF assms(1,2)] unfolding assms(4) owns_def by blast
  moreover obtain pc' where "go_get (im_peers m) (rn_peer (im_runs m ! j)) = Some pc'" "pc_cancel (im_conns m ! pc') = j"
    using live_tracked [OF assms(1,3)] unfolding owns_def by blast
  ultimately show ?thesis by simp
qed

lemma ice_inv_at_conn:
  assumes "ice_inv m" "\<And>c. pc_cancel (f c) = pc_cancel c"
  shows "ice_inv (at_conn pc f m)"
proof -
  have "owns (at_conn pc f m) = owns m"
  proof (intro ext)
    fix i p show "owns (at_conn pc f m) i p = owns m i p"
      by (cases "p = pc"; cases "pc < length (im_conns m)") (simp_all add: owns_def at_conn_def assms(2))
  qed
  moreover have "live (at_conn pc f m) = live m" by (intro ext) (simp add: live_def at_conn_def)
  ultimately show ?thesis using assms(1) unfolding ice_inv_def by (simp add: at_conn_def)
qed

lemma ice_inv_at_run:
  assumes "ice_inv m" "i < length (im_runs m)" "rn_phase (im_runs m ! i) \<noteq> Ended"
    "ph = Ended \<Longrightarrow> \<not> live m i" "\<And>pc. conn_of ph = Some pc \<Longrightarrow> live m i \<Longrightarrow> owns m i pc"
    "\<And>pc. ph = Replace pc \<Longrightarrow> live m i" "5 * second \<le> b \<and> b \<le> 60 * second"
  shows "ice_inv (m\<lparr>im_runs := (im_runs m)[i := (im_runs m ! i)\<lparr>rn_phase := ph, rn_backoff := b\<rparr>]\<rparr>)" (is "ice_inv ?m")
proof -
  have l: "live ?m j = live m j" for j
    using assms(2-4) by (auto simp: live_def nth_list_update)
  have o: "owns ?m = owns m" by (intro ext) (simp add: owns_def)
  have p: "rn_peer (im_runs ?m ! j) = rn_peer (im_runs m ! j)" for j
    using assms(2) by (cases "j = i") simp_all
  have ph: "rn_phase (im_runs ?m ! j) = (if j = i then ph else rn_phase (im_runs m ! j))" for j
    using assms(2) by simp
  have b: "5 * second \<le> rn_backoff r \<and> rn_backoff r \<le> 60 * second" if "r \<in> set (im_runs ?m)" for r
    using that backoff_bounds [OF assms(1)] assms(7) set_update_subset_insert [of "im_runs m" i] by fastforce
  show ?thesis
    unfolding ice_inv_def l o p ph
    using tracked_live [OF assms(1)] live_tracked [OF assms(1)] live_owns [OF assms(1)] window_live [OF assms(1)] assms(5,6) b
    by (auto split: if_splits)
qed

lemma ice_inv_launch:
  assumes "ice_inv m" "go_get (im_peers m) k = None"
  shows "ice_inv (launch k m)" (is "ice_inv ?m")
proof -
  let ?n = "length (im_runs m)" and ?c = "length (im_conns m)"
  let ?r = "\<lparr>rn_peer = k, rn_cancelled = False, rn_backoff = 5 * second, rn_phase = Top\<rparr>"
  have runs: "im_runs ?m = im_runs m @ [?r]" by (simp add: launch_def)
  have old: "j < ?n \<Longrightarrow> im_runs ?m ! j = im_runs m ! j" and new: "im_runs ?m ! ?n = ?r" for j
    by (simp_all add: runs nth_append)
  have l: "live ?m j \<longleftrightarrow> live m j \<or> j = ?n" for j
    by (auto simp: live_def runs nth_append)
  have lt: "live m j \<Longrightarrow> j < ?n" for j by (simp add: live_def)
  have o: "owns m j pc \<Longrightarrow> owns ?m j pc" "owns ?m ?n ?c" for j pc
    by (auto simp: owns_def launch_def newPeerConn_def nth_append)
  have g: "go_get (im_peers ?m) k' = (if k' = k then Some ?c else go_get (im_peers m) k')" for k'
    by (simp add: launch_def go_get_put)
  have 1: "\<exists>i. owns ?m i pc \<and> live ?m i \<and> rn_peer (im_runs ?m ! i) = k'" if a: "go_get (im_peers ?m) k' = Some pc" for k' pc
  proof (cases "k' = k")
    case True
    then show ?thesis using a o(2) by (intro exI [of _ ?n]) (simp add: g l new)
  next
    case False
    then have "go_get (im_peers m) k' = Some pc" using a by (simp add: g)
    then obtain i where i: "owns m i pc" "live m i" "rn_peer (im_runs m ! i) = k'" using tracked_live [OF assms(1)] by blast
    then show ?thesis using o(1) by (intro exI [of _ i]) (simp add: l old [OF lt])
  qed
  have 2: "\<exists>pc. go_get (im_peers ?m) (rn_peer (im_runs ?m ! i)) = Some pc \<and> owns ?m i pc" if a: "live ?m i" for i
  proof (cases "i = ?n")
    case True
    then show ?thesis using o(2) by (simp add: new g)
  next
    case False
    then have i: "live m i" using a by (simp add: l)
    from live_tracked [OF assms(1) this] obtain pc where
      pc: "go_get (im_peers m) (rn_peer (im_runs m ! i)) = Some pc" "owns m i pc" by blast
    then have "rn_peer (im_runs m ! i) \<noteq> k" using assms(2) by auto
    then show ?thesis using pc o(1) by (intro exI [of _ pc]) (simp add: old [OF lt [OF i]] g)
  qed
  have 3: "owns ?m i pc" if a: "live ?m i" "conn_of (rn_phase (im_runs ?m ! i)) = Some pc" for i pc
  proof (cases "i = ?n")
    case True
    then show ?thesis using a(2) by (simp add: new)
  next
    case False
    then have i: "live m i" using a by (simp add: l)
    then show ?thesis using live_owns [OF assms(1) i] a(2) o(1) by (simp add: old [OF lt [OF i]])
  qed
  have 4: "live ?m i" if a: "i < length (im_runs ?m)" "rn_phase (im_runs ?m ! i) = Replace pc" for i pc
  proof (cases "i = ?n")
    case False
    then have i: "i < ?n" using a(1) by (simp add: runs)
    then show ?thesis using window_live [OF assms(1) i] a(2) by (simp add: old l)
  qed (simp add: l)
  have 5: "5 * second \<le> rn_backoff r \<and> rn_backoff r \<le> 60 * second" if "r \<in> set (im_runs ?m)" for r
    using that backoff_bounds [OF assms(1), of r] by (auto simp: runs second_def)
  show ?thesis unfolding ice_inv_def using 1 2 3 4 5 by blast
qed

lemma ice_inv_close:
  assumes "ice_inv m" "\<not> list_ex (in_window k) (im_runs m)"
  shows "ice_inv (ClosePeer_ice k m)"
proof (cases "go_get (im_peers m) k")
  case None
  then show ?thesis using assms(1) by (simp add: ClosePeer_ice_def)
next
  case (Some pc)
  obtain i where i: "owns m i pc" "live m i" "rn_peer (im_runs m ! i) = k" using tracked_live [OF assms(1) Some] by blast
  let ?m = "ClosePeer_ice k m"
  have m: "?m = m\<lparr>im_peers := go_del k (im_peers m), im_runs := (im_runs m)[i := (im_runs m ! i)\<lparr>rn_cancelled := True\<rparr>]\<rparr>"
    using i(1) by (simp add: ClosePeer_ice_def Some cancel_run_def owns_def)
  have lt: "i < length (im_runs m)" using i(2) by (simp add: live_def)
  have l: "live ?m j \<longleftrightarrow> live m j \<and> j \<noteq> i" for j using lt by (auto simp: live_def m nth_list_update)
  have o: "owns ?m = owns m" by (intro ext) (simp add: owns_def m)
  have r: "rn_peer (im_runs ?m ! j) = rn_peer (im_runs m ! j)" "rn_phase (im_runs ?m ! j) = rn_phase (im_runs m ! j)" for j
    using lt by (auto simp: m nth_list_update)
  have w: "rn_phase (im_runs m ! i) \<noteq> Replace p" for p
    using assms(2) lt i(3) by (auto simp: list_ex_length in_window_def)
  have ne: "live m j \<Longrightarrow> j \<noteq> i \<Longrightarrow> rn_peer (im_runs m ! j) \<noteq> k" for j
    using live_unique [OF assms(1) _ i(2)] i(3) by auto
  have b: "5 * second \<le> rn_backoff q \<and> rn_backoff q \<le> 60 * second" if "q \<in> set (im_runs ?m)" for q
    using that backoff_bounds [OF assms(1)] lt set_update_subset_insert [of "im_runs m" i] by (fastforce simp: m)
  show ?thesis
    unfolding ice_inv_def l o r
    using tracked_live [OF assms(1)] live_tracked [OF assms(1)] live_owns [OF assms(1)] window_live [OF assms(1)] w ne b i(3)
    by (auto simp: m go_get_del split: if_splits) blast+
qed

lemma ice_inv_phase:
  assumes "ice_inv m" "i < length (im_runs m)" "rn_phase (im_runs m ! i) \<noteq> Ended"
    "ph = Ended \<Longrightarrow> \<not> live m i" "\<And>pc. conn_of ph = Some pc \<Longrightarrow> live m i \<Longrightarrow> owns m i pc"
    "\<And>pc. ph = Replace pc \<Longrightarrow> live m i"
  shows "ice_inv (at_run i ph m)"
proof -
  have b: "5 * second \<le> rn_backoff (im_runs m ! i) \<and> rn_backoff (im_runs m ! i) \<le> 60 * second"
    by (rule backoff_bounds [OF assms(1)]) (simp add: assms(2))
  from ice_inv_at_run [OF assms this] show ?thesis by (simp add: at_run_def)
qed

lemma ice_inv_replace:
  assumes "ice_inv m" "i < length (im_runs m)" "rn_phase (im_runs m ! i) = Replace pc"
    "n = m\<lparr>im_peers := go_put (rn_peer (im_runs m ! i)) (length (im_conns m)) (im_peers m),
       im_conns := im_conns m @ [newPeerConn (pc_cancel (im_conns m ! pc))]\<rparr>"
  shows "ice_inv (at_run i Sleep n)"
proof (rule ice_inv_phase)
  let ?k = "rn_peer (im_runs m ! i)" and ?c = "length (im_conns m)"
  have lv: "live m i" using window_live [OF assms(1-3)] .
  have i: "pc_cancel (im_conns m ! pc) = i" using live_owns [OF assms(1) lv, of pc] assms(3) by (simp add: owns_def)
  have l: "live n = live m" by (intro ext) (simp add: live_def assms(4))
  have o: "owns m j p \<Longrightarrow> owns n j p" "owns n i ?c" for j p
    by (auto simp: assms(4) owns_def newPeerConn_def i nth_append)
  have g: "go_get (im_peers n) k' = (if k' = ?k then Some ?c else go_get (im_peers m) k')" for k'
    by (simp add: assms(4) go_get_put)
  have r: "im_runs n = im_runs m" by (simp add: assms(4))
  have 1: "\<exists>j. owns n j p \<and> live m j \<and> rn_peer (im_runs m ! j) = k'" if a: "go_get (im_peers n) k' = Some p" for k' p
  proof (cases "k' = ?k")
    case True
    then show ?thesis using a o(2) lv by (intro exI [of _ i]) (simp add: g)
  next
    case False
    then have "go_get (im_peers m) k' = Some p" using a by (simp add: g)
    then show ?thesis using tracked_live [OF assms(1), of k' p] o(1) by blast
  qed
  have 2: "\<exists>p. go_get (im_peers n) (rn_peer (im_runs m ! j)) = Some p \<and> owns n j p" if a: "live m j" for j
  proof (cases "rn_peer (im_runs m ! j) = ?k")
    case True
    then have "j = i" using live_unique [OF assms(1) a lv] by blast
    then show ?thesis using o(2) by (simp add: g)
  next
    case False
    then show ?thesis using live_tracked [OF assms(1) a] o(1) by (simp add: g) blast
  qed
  show "ice_inv n"
    unfolding ice_inv_def l r
    using 1 2 live_owns [OF assms(1)] window_live [OF assms(1)] backoff_bounds [OF assms(1)] o(1) by blast
qed (use assms in simp_all)

lemma ice_inv_run:
  assumes "ice_inv m" "i < length (im_runs m)" "run_step marshal oc i m = Some (m', out)"
  shows "ice_inv m'"
proof -
  let ?r = "im_runs m ! i"
  note ph = ice_inv_phase [OF assms(1,2)]
  have own: "live m i \<Longrightarrow> owns m i pc" if "conn_of (rn_phase ?r) = Some pc" for pc
    using live_owns [OF assms(1) _ that] .
  have stay: "ice_inv (at_run i q m)"
    if "conn_of (rn_phase ?r) = Some pc" "conn_of q = Some pc" "\<And>p. q = Replace p \<Longrightarrow> live m i" for q pc
    by (rule ph) (use that own in auto)
  have tr: "live m i \<Longrightarrow> \<exists>pc. go_get (im_peers m) (rn_peer ?r) = Some pc \<and> owns m i pc" using live_tracked [OF assms(1)] .
  show ?thesis
  proof (cases "rn_phase ?r")
    case Top
    show ?thesis
    proof (cases "go_get (im_peers m) (rn_peer ?r)")
      case None
      then have "m' = at_run i Ended m" using assms(3) Top by (simp add: run_step_defs Let_def)
      then show ?thesis using ph [of Ended] tr None Top by auto
    next
      case (Some pc)
      then have "m' = at_run i (Gather pc) m" using assms(3) Top by (simp add: run_step_defs Let_def)
      then show ?thesis using ph [of "Gather pc"] tr Some Top by auto
    qed
  next
    case (Gather pc)
    then have "m' = at_run i (Back pc) m \<or> (\<exists>ex. m' = at_run i (Await pc ex) m)"
      using assms(3) by (auto simp: run_step_defs Let_def split: option.splits)
    then show ?thesis using Gather by (auto intro: stay)
  next
    case (Await pc ex)
    then consider "m' = at_run i (Back pc) m"
      | rm where "m' = at_run i (Connect pc ex rm) (at_conn pc (\<lambda>c. c\<lparr>pc_answerCh := None\<rparr>) m)"
      | rm where "m' = at_run i (Connect pc ex rm) (at_conn pc (\<lambda>c. c\<lparr>pc_offerCh := None\<rparr>) m)"
      using assms(3) by (auto simp: run_step_defs Let_def split: option.splits if_splits)
    note cases = this
    have go: "ice_inv (at_run i (Connect pc ex rm) (at_conn pc f m))" if f: "\<And>c. pc_cancel (f c) = pc_cancel c" for rm f
    proof (rule ice_inv_phase [OF ice_inv_at_conn [OF assms(1) f]])
      show "owns (at_conn pc f m) i p" if "conn_of (Connect pc ex rm) = Some p" "live (at_conn pc f m) i" for p
        using live_owns [OF ice_inv_at_conn [OF assms(1) f] that(2)] that(1) Await by (simp add: at_conn_def)
    qed (use assms(2) Await in \<open>simp_all add: at_conn_def\<close>)
    from cases show ?thesis by cases (use Await in \<open>auto intro: stay go\<close>)
  next
    case (Connect pc ex rm)
    then have "m' = at_run i (Back pc) m \<or> (\<exists>conn. m' = at_run i (Hold pc conn) m)"
      using assms(3) by (auto simp: run_step_defs Let_def split: option.splits)
    then show ?thesis using Connect by (auto intro: stay)
  next
    case (Hold pc conn)
    then have "m' = at_run i (Back pc) m" using assms(3) by (auto simp: run_step_defs Let_def split: if_splits)
    then show ?thesis using Hold by (auto intro: stay)
  next
    case (Back pc)
    then have "m' = at_run i Ended m \<and> \<not> live m i \<or> m' = at_run i (Replace pc) m \<and> \<not> rn_cancelled ?r"
      using assms(3) tr by (auto simp: run_step_defs Let_def live_def split: option.splits if_splits)
    then show ?thesis using ph [of Ended] stay [of pc "Replace pc"] Back assms(2) by (auto simp: live_def)
  next
    case (Replace pc)
    then show ?thesis using ice_inv_replace [OF assms(1,2) Replace refl] assms(3) by (simp add: run_step_defs Let_def)
  next
    case Sleep
    have b: "5 * second \<le> rn_backoff ?r \<and> rn_backoff ?r \<le> 60 * second"
      by (rule backoff_bounds [OF assms(1)]) (simp add: assms(2))
    from Sleep have "m' = at_run i Ended m \<and> \<not> live m i
      \<or> m' = m\<lparr>im_runs := (im_runs m)[i := ?r\<lparr>rn_phase := Top, rn_backoff := min (rn_backoff ?r * 2) (60 * second)\<rparr>]\<rparr>"
      using assms(3) by (auto simp: run_step_defs Let_def live_def split: if_splits)
    moreover have "5 * second \<le> min (rn_backoff ?r * 2) (60 * second) \<and> min (rn_backoff ?r * 2) (60 * second) \<le> 60 * second"
      using b by (auto simp: second_def)
    ultimately show ?thesis using ph [of Ended] ice_inv_at_run [OF assms(1,2), of Top "min (rn_backoff ?r * 2) (60 * second)"] Sleep by auto
  next
    case Ended
    then show ?thesis using assms(3) by (simp add: run_step_defs Let_def)
  qed
qed

lemma ice_inv_signal:
  assumes "ice_inv m"
  shows "ice_inv (HandleSignal unmarshal msg m)"
proof -
  have c: "pc_cancel (offer_to ex c) = pc_cancel c" "pc_cancel (answer_to ex c) = pc_cancel c" for ex c
    by (simp_all add: offer_to_def answer_to_def)
  show ?thesis
    using assms ice_inv_launch [OF assms]
    by (auto simp: HandleSignal_def Let_def split: body_type.splits option.splits
        intro!: ice_inv_at_conn c)
qed

interpretation ice: invariant_system ice_new "ice_step True" ice_inv
proof unfold_locales
  show "ice_inv m" if "ice_new m" for m
    using that by (auto simp: ice_new_def New_ice_def ice_inv_def live_def)
  show "ice_inv m'" if "ice_step True m m'" "ice_inv m" for m m'
    using that
    by (cases rule: ice_step.cases)
      (auto simp: StartConnect_ice_def intro: ice_inv_launch ice_inv_close ice_inv_signal ice_inv_run)
qed

section \<open>Properties\<close>

definition no_outcome :: ice_outcome where
  "no_outcome = \<lparr>oc_local = None, oc_conn = None, oc_done = False\<rparr>"

definition example_ice :: "string \<Rightarrow> ice_Manager" where
  "example_ice k = \<lparr>im_selfKey = k,
     im_stunURLs = [\<lparr>su_Scheme = TURN, su_Host = ''relay'', su_Username = ''u'', su_Password = ''p''\<rparr>],
     im_peers = [], im_conns = [], im_runs = []\<rparr>"

lemma example_ice_new: "ice_new (example_ice k)"
  unfolding ice_new_def
  by (intro exI [of _ "\<lambda>s. Some \<lparr>su_Scheme = TURN, su_Host = ''relay'', su_Username = [], su_Password = []\<rparr>"]
      exI [of _ k] exI [of _ "[''turn:relay'']"] exI [of _ "''u''"] exI [of _ "''p''"])
    (simp add: New_ice_def parseSTUNURLs_def set_credentials_def example_ice_def)

text \<open>A goroutine of \<open>b\<close> that is about to try again.\<close>

definition example_window :: ice_Manager where
  "example_window = at_run 0 (Replace 0) (launch ''b'' (example_ice ''a''))"

lemma example_window_reach: "reach ice_new (ice_step True) example_window"
proof -
  let ?m = "launch ''b'' (example_ice ''a'')"
  have "reach ice_new (ice_step True) (StartConnect_ice ''b'' (example_ice ''a''))"
    by (rule reach_step, rule reach_init) (auto intro: example_ice_new ice_start)
  then have "reach ice_new (ice_step True) ?m" by (simp add: StartConnect_ice_def example_ice_def)
  moreover have "ice_step True ?m (at_run 0 (Gather 0) ?m)"
    by (rule ice_run [of 0 _ _ no_outcome]) (simp_all add: ice_defs example_ice_def Let_def go_get_put)
  moreover have "ice_step True (at_run 0 (Gather 0) ?m) (at_run 0 (Back 0) ?m)"
    by (rule ice_run [of 0 _ _ no_outcome]) (simp_all add: ice_defs example_ice_def Let_def no_outcome_def)
  moreover have "ice_step True (at_run 0 (Back 0) ?m) example_window"
    by (rule ice_run [of 0 _ _ no_outcome]) (simp_all add: ice_defs example_ice_def Let_def go_get_put example_window_def)
  ultimately show ?thesis by (metis reach_step)
qed



text \<open>C33. A peer that is closed in that window is stranded: the goroutine puts it back as tracked, with a
  cancelled context, and no goroutine works for it; starting it again does nothing, and no message
  from it starts one.\<close>

theorem close_in_window_strands_peer:
  assumes "reach ice_new (ice_step True) m" "i < length (im_runs m)" "rn_phase (im_runs m ! i) = Replace pc"
    "rn_peer (im_runs m ! i) = k"
  shows "\<exists>n. run_step marshal oc i (ClosePeer_ice k m) = Some (n, []) \<and> go_get (im_peers n) k \<noteq> None
    \<and> \<not> (\<exists>j. live n j \<and> rn_peer (im_runs n ! j) = k)
    \<and> StartConnect_ice k n = n \<and> im_runs (HandleSignal unmarshal (ice_msg k to typ payload) n) = im_runs n"
proof -
  note inv = ice.reachable_inv [OF assms(1)]
  have lv: "live m i" using window_live [OF inv assms(2,3)] .
  obtain c where c: "go_get (im_peers m) k = Some c" "owns m i c" using live_tracked [OF inv lv] assms(4) by blast
  let ?m = "m\<lparr>im_peers := go_del k (im_peers m), im_runs := (im_runs m)[i := (im_runs m ! i)\<lparr>rn_cancelled := True\<rparr>]\<rparr>"
  let ?n = "at_run i Sleep (?m\<lparr>im_peers := go_put k (length (im_conns m)) (im_peers ?m),
      im_conns := im_conns m @ [newPeerConn (pc_cancel (im_conns m ! pc))]\<rparr>)"
  have close: "ClosePeer_ice k m = ?m" using c by (simp add: ClosePeer_ice_def cancel_run_def owns_def)
  have run: "run_step marshal oc i ?m = Some (?n, [])" using assms(2-4) by (simp add: run_step_defs Let_def)
  have t: "go_get (im_peers ?n) k = Some (length (im_conns m))" by (simp add: at_run_def go_get_put)
  have "\<not> (live ?n j \<and> rn_peer (im_runs ?n ! j) = k)" for j
  proof (cases "j = i")
    case True
    then show ?thesis using assms(2) by (simp add: live_def at_run_def)
  next
    case False
    then have "live ?n j \<Longrightarrow> live m j" "im_runs ?n ! j = im_runs m ! j" by (auto simp: live_def at_run_def)
    then show ?thesis using live_unique [OF inv _ lv] assms(4) False by metis
  qed
  moreover have "StartConnect_ice k ?n = ?n" using t by (simp add: StartConnect_ice_def)
  moreover have "im_runs (HandleSignal unmarshal (ice_msg k to typ payload) ?n) = im_runs ?n"
    using t by (simp add: HandleSignal_def ice_msg_def at_conn_def Let_def split: body_type.splits option.splits)
  ultimately show ?thesis unfolding close using run t by (intro exI [of _ ?n]) simp
qed

theorem close_in_window_strands_peer_witness:
  "\<exists>n. run_step ex_Ufrag no_outcome 0 (ClosePeer_ice ''b'' example_window) = Some (n, [])
    \<and> go_get (im_peers n) ''b'' \<noteq> None \<and> \<not> (\<exists>j. live n j \<and> rn_peer (im_runs n ! j) = ''b'')
    \<and> StartConnect_ice ''b'' n = n"
proof -
  have "0 < length (im_runs example_window)" "rn_phase (im_runs example_window ! 0) = Replace 0"
    "rn_peer (im_runs example_window ! 0) = ''b''"
    by (simp_all add: example_window_def at_run_def launch_def example_ice_def)
  from close_in_window_strands_peer [OF example_window_reach this, of ex_Ufrag no_outcome "\<lambda>_. None"]
  show ?thesis by blast
qed

text \<open>C24. The two sides of a negotiation use each other's credentials: exactly one of them offers, the other
  answers, and after the two messages are delivered each connects with its own exchange and the one
  the other side sent. An offer or answer that was left in the channel by an earlier attempt is used
  instead of the new one.\<close>

theorem negotiation_exchanges_credentials:
  assumes "\<And>ex. unmarshal (marshal ex) = Some ex" "im_selfKey A = a" "im_selfKey B = b" "a < b"
    "i < length (im_runs A)" "rn_peer (im_runs A ! i) = b" "rn_phase (im_runs A ! i) = Gather p"
    "go_get (im_peers A) b = Some p" "p < length (im_conns A)"
    "j < length (im_runs B)" "rn_peer (im_runs B ! j) = a" "rn_phase (im_runs B ! j) = Await q lb"
    "go_get (im_peers B) a = Some q" "q < length (im_conns B)" "oc_local oc = Some la" "\<not> oc_done oc"
  shows "\<exists>A1 off B2 ans A3.
      run_step marshal oc i A = Some (A1, [off]) \<and> sm_Key off = a \<and> sm_RemoteKey off = b
    \<and> run_step marshal oc j (HandleSignal unmarshal off B) = Some (B2, [ans]) \<and> sm_Key ans = b \<and> sm_RemoteKey ans = a
    \<and> run_step marshal oc i (HandleSignal unmarshal ans A1) = Some (A3, [])
    \<and> rn_phase (im_runs B2 ! j) = Connect q lb (case pc_offerCh (im_conns B ! q) of None \<Rightarrow> la | Some old \<Rightarrow> old)
    \<and> rn_phase (im_runs A3 ! i) = Connect p la (case pc_answerCh (im_conns A ! p) of None \<Rightarrow> lb | Some old \<Rightarrow> old)"
proof -
  let ?off = "ice_msg a b OFFER (marshal la)" and ?ans = "ice_msg b a ANSWER (marshal lb)"
  let ?A1 = "at_run i (Await p la) A"
  let ?o = "case pc_offerCh (im_conns B ! q) of None \<Rightarrow> la | Some old \<Rightarrow> old"
  let ?a = "case pc_answerCh (im_conns A ! p) of None \<Rightarrow> lb | Some old \<Rightarrow> old"
  have ca: "isController i A" and cb: "\<not> isController j B" using assms(2-4,6,11) by (auto simp: isController_def)
  have 1: "run_step marshal oc i A = Some (?A1, [?off])"
    using assms(2,6,7,15) ca by (simp add: run_step_defs Let_def)
  let ?B1 = "at_conn q (offer_to la) B"
  have b1: "HandleSignal unmarshal ?off B = ?B1" using assms(1,13) by (simp add: HandleSignal_def ice_msg_def)
  have "pc_offerCh (im_conns ?B1 ! q) = Some ?o"
    using assms(14) by (simp add: at_conn_def offer_to_def split: option.splits)
  moreover have "im_runs ?B1 = im_runs B" "im_selfKey ?B1 = b" using assms(3) by (simp_all add: at_conn_def)
  ultimately have 2: "run_step marshal oc j ?B1 = Some (at_run j (Connect q lb ?o) (at_conn q (\<lambda>c. c\<lparr>pc_offerCh := None\<rparr>) ?B1), [?ans])"
    using assms(3,11,12,16) cb by (simp add: run_step_defs Let_def isController_def)
  let ?A2 = "at_conn p (answer_to lb) ?A1"
  have a2: "HandleSignal unmarshal ?ans ?A1 = ?A2" using assms(1,8) by (simp add: HandleSignal_def ice_msg_def at_run_def)
  have "pc_answerCh (im_conns ?A2 ! p) = Some ?a"
    using assms(9) by (simp add: at_conn_def at_run_def answer_to_def split: option.splits)
  moreover have "im_runs ?A2 = im_runs ?A1" "im_selfKey ?A2 = a" "rn_phase (im_runs ?A1 ! i) = Await p la"
    "rn_peer (im_runs ?A1 ! i) = b"
    using assms(2,5,6) by (simp_all add: at_conn_def at_run_def)
  ultimately have 3: "run_step marshal oc i ?A2 = Some (at_run i (Connect p la ?a) (at_conn p (\<lambda>c. c\<lparr>pc_answerCh := None\<rparr>) ?A2), [])"
    using assms(4,16) by (simp add: run_step_defs Let_def isController_def)
  show ?thesis
    using 1 2 3 b1 a2 assms(5,10)
    by (intro exI [of _ ?A1] exI [of _ ?off] exI conjI) (auto simp: ice_msg_def at_run_def at_conn_def)
qed

definition example_exchange :: "string \<Rightarrow> iceExchange" where
  "example_exchange u = \<lparr>ex_Ufrag = u, ex_Pwd = [], ex_Candidates = []\<rparr>"

text \<open>A faithful codec for the exchanges, from the escaped strings of the state file of the agent.\<close>

definition plain_marshal :: "iceExchange \<Rightarrow> string" where
  "plain_marshal ex = concat (map enc_str (ex_Ufrag ex # ex_Pwd ex # ex_Candidates ex))"

definition plain_unmarshal :: "string \<Rightarrow> iceExchange option" where
  "plain_unmarshal s = (case dec_all (length s) s of
     u # p # cs \<Rightarrow> Some \<lparr>ex_Ufrag = u, ex_Pwd = p, ex_Candidates = cs\<rparr> | _ \<Rightarrow> None)"

lemma plain_exchange: "plain_unmarshal (plain_marshal ex) = Some ex"
  unfolding plain_unmarshal_def plain_marshal_def dec_all_enc [OF length_enc_all] by simp

theorem negotiation_exchanges_credentials_witness:
  "\<exists>A1 off B2 ans A3.
      run_step plain_marshal (no_outcome\<lparr>oc_local := Some (example_exchange ''ua'')\<rparr>) 0
        (at_run 0 (Gather 0) (launch ''b'' (example_ice ''a''))) = Some (A1, [off])
    \<and> run_step plain_marshal (no_outcome\<lparr>oc_local := Some (example_exchange ''ua'')\<rparr>) 0
        (HandleSignal plain_unmarshal off (at_run 0 (Await 0 (example_exchange ''ub'')) (launch ''a'' (example_ice ''b'')))) = Some (B2, [ans])
    \<and> run_step plain_marshal (no_outcome\<lparr>oc_local := Some (example_exchange ''ua'')\<rparr>) 0
        (HandleSignal plain_unmarshal ans A1) = Some (A3, [])
    \<and> rn_phase (im_runs B2 ! 0) = Connect 0 (example_exchange ''ub'') (example_exchange ''ua'')
    \<and> rn_phase (im_runs A3 ! 0) = Connect 0 (example_exchange ''ua'') (example_exchange ''ub'')"
proof -
  let ?A = "at_run 0 (Gather 0) (launch ''b'' (example_ice ''a''))"
    and ?B = "at_run 0 (Await 0 (example_exchange ''ub'')) (launch ''a'' (example_ice ''b''))"
  have c: "pc_offerCh (im_conns ?B ! 0) = None" "pc_answerCh (im_conns ?A ! 0) = None"
    by (simp_all add: at_run_def launch_def example_ice_def newPeerConn_def)
  have "im_selfKey ?A = ''a''" "im_selfKey ?B = ''b''" "''a'' < ''b''"
    "0 < length (im_runs ?A)" "rn_peer (im_runs ?A ! 0) = ''b''" "rn_phase (im_runs ?A ! 0) = Gather 0"
    "go_get (im_peers ?A) ''b'' = Some 0" "0 < length (im_conns ?A)"
    "0 < length (im_runs ?B)" "rn_peer (im_runs ?B ! 0) = ''a''" "rn_phase (im_runs ?B ! 0) = Await 0 (example_exchange ''ub'')"
    "go_get (im_peers ?B) ''a'' = Some 0" "0 < length (im_conns ?B)"
    by (simp_all add: at_run_def launch_def example_ice_def newPeerConn_def go_get_put less_char_def)
  from negotiation_exchanges_credentials [OF plain_exchange this, of "no_outcome\<lparr>oc_local := Some (example_exchange ''ua'')\<rparr>"
      "example_exchange ''ua''"]
  show ?thesis unfolding c by (simp add: no_outcome_def) blast
qed

text \<open>A goroutine that holds a connection takes no further offer: it goes on only when it is cancelled,
  and messages from the peer do not change that.\<close>

lemma held_ignores_offers:
  assumes "i < length (im_runs m)" "rn_phase (im_runs m ! i) = Hold pc conn" "\<not> rn_cancelled (im_runs m ! i)"
  shows "run_step marshal oc i (HandleSignal unmarshal msg m) = None"
proof -
  have "im_runs (HandleSignal unmarshal msg m) ! i = im_runs m ! i"
    using assms(1) by (auto simp: HandleSignal_def Let_def launch_def at_conn_def nth_append split: body_type.splits option.splits)
  then show ?thesis using assms(2,3) by (simp add: run_step_defs Let_def)
qed


end
