(* ===== verification/Acl.thy ===== *)
theory Acl
  imports Domain
begin

text \<open>
  Access control on the agent. The policy is a list of rules in order of priority, groups
  already expanded; the first enabled rule that matches decides and no match means deny.
  The contract is the locale \<open>first_match\<close>; the userspace router
  (\<^verbatim>\<open>aclAllows\<close> of \<^verbatim>\<open>client/internal/wgmgr/nsrouter.go\<close>) and the packet filter for Windows
  (\<^verbatim>\<open>client/internal/wgmgr/aclfilter.go\<close>) are interpretations of it here, the iptables chain for
  Linux is one in \<^verbatim>\<open>Acl_Linux\<close>.
\<close>

section \<open>The contract\<close>

locale first_match =
  fixes decide :: "'r list \<Rightarrow> 'p \<Rightarrow> bool"
    and applies :: "'r \<Rightarrow> 'p \<Rightarrow> bool"
    and permits :: "'r \<Rightarrow> bool"
  assumes decide_Nil: "decide [] p = False"
    and decide_Cons: "decide (r # rs) p = (if applies r p then permits r else decide rs p)"
begin

lemma decide_find: "decide rs p = (case find (\<lambda>r. applies r p) rs of None \<Rightarrow> False | Some r \<Rightarrow> permits r)"
  by (induction rs) (auto simp: decide_Nil decide_Cons)

lemma decide_iff:
  "decide rs p \<longleftrightarrow>
     (\<exists>i < length rs. applies (rs ! i) p \<and> permits (rs ! i) \<and> (\<forall>j < i. \<not> applies (rs ! j) p))"
proof -
  have "decide rs p \<longleftrightarrow> (\<exists>r. find (\<lambda>r. applies r p) rs = Some r \<and> permits r)"
    by (auto simp: decide_find split: option.splits)
  then show ?thesis unfolding find_Some_iff by blast
qed

lemma default_deny: "(\<And>r. r \<in> set rs \<Longrightarrow> \<not> applies r p) \<Longrightarrow> \<not> decide rs p"
  by (auto simp: decide_find find_None_iff split: option.splits dest!: find_Some_iff [THEN iffD1])

lemma decide_append:
  "decide (rs @ ss) p = (if \<exists>r \<in> set rs. applies r p then decide rs p else decide ss p)"
  by (induction rs) (auto simp: decide_Nil decide_Cons)

lemma decide_filter:
  "(\<And>r. r \<in> set rs \<Longrightarrow> \<not> keep r \<Longrightarrow> \<not> applies r p) \<Longrightarrow> decide (filter keep rs) p = decide rs p"
  by (induction rs) (auto simp: decide_Nil decide_Cons)

end

text \<open>Two implementations that agree on each rule agree on each policy.\<close>

locale same_policy = a: first_match decide1 applies1 permits1 + b: first_match decide2 applies2 permits2
  for decide1 :: "'r list \<Rightarrow> 'p \<Rightarrow> bool" and applies1 permits1
    and decide2 :: "'s list \<Rightarrow> 'q \<Rightarrow> bool" and applies2 permits2
begin

lemma decide_agree:
  assumes "\<And>r. r \<in> set rs \<Longrightarrow> applies1 r p \<longleftrightarrow> applies2 (f r) q"
    and "\<And>r. r \<in> set rs \<Longrightarrow> permits1 r \<longleftrightarrow> permits2 (f r)"
  shows "decide1 rs p \<longleftrightarrow> decide2 (map f rs) q"
  using assms
  by (induction rs) (simp_all add: a.decide_Nil a.decide_Cons b.decide_Nil b.decide_Cons)

end


section \<open>Matching\<close>

definition aclHostMatch :: "string \<Rightarrow> addr \<Rightarrow> bool" where
  "aclHostMatch field ip =
     (if field = [] \<or> field = ''*'' then True
      else (case parse_prefix field of
              Some p \<Rightarrow> prefix_contains p ip
            | None \<Rightarrow> (case parse_addr field of Some a \<Rightarrow> a = ip | None \<Rightarrow> False)))"

text \<open>A connection: source, destination, protocol name and destination port.\<close>

type_synonym flow = "addr \<times> addr \<times> string \<times> u16"

text \<open>When a rule applies to a connection.\<close>

definition rule_matches :: "pb_Rule \<Rightarrow> flow \<Rightarrow> bool" where
  "rule_matches r fl =
     (case fl of (src, dst, proto, dport) \<Rightarrow>
        ru_Enabled r \<and> aclHostMatch (ru_Src r) src \<and> aclHostMatch (ru_Dst r) dst
        \<and> (let p = to_lower (ru_Protocol r) in
           if p \<noteq> [] \<and> p \<noteq> ''all'' then
             p = proto \<and> \<not> (0 < ru_Port r \<and> (p = ''tcp'' \<or> p = ''udp'') \<and> uint16 (ru_Port r) \<noteq> dport)
           else True))"

fun aclAllows :: "pb_Rule list \<Rightarrow> addr \<Rightarrow> addr \<Rightarrow> string \<Rightarrow> u16 \<Rightarrow> bool" where
  "aclAllows [] src dst proto dport = False"
| "aclAllows (r # rules) src dst proto dport =
     (if \<not> ru_Enabled r then aclAllows rules src dst proto dport
      else if \<not> aclHostMatch (ru_Src r) src \<or> \<not> aclHostMatch (ru_Dst r) dst
      then aclAllows rules src dst proto dport
      else
        (let p = to_lower (ru_Protocol r) in
         if p \<noteq> [] \<and> p \<noteq> ''all'' then
           (if p \<noteq> proto then aclAllows rules src dst proto dport
            else if 0 < ru_Port r \<and> (p = ''tcp'' \<or> p = ''udp'') \<and> uint16 (ru_Port r) \<noteq> dport
            then aclAllows rules src dst proto dport
            else ru_Action r = ''allow'')
         else ru_Action r = ''allow''))"

lemma aclAllows_Cons:
  "aclAllows (r # rules) src dst proto dport =
     (if rule_matches r (src, dst, proto, dport) then ru_Action r = ''allow''
      else aclAllows rules src dst proto dport)"
  by (simp add: rule_matches_def Let_def) blast

declare aclAllows.simps(2) [simp del]

definition netstack_decides :: "pb_Rule list \<Rightarrow> flow \<Rightarrow> bool" where
  "netstack_decides rules fl = (case fl of (src, dst, proto, dport) \<Rightarrow> aclAllows rules src dst proto dport)"

definition rule_allows :: "pb_Rule \<Rightarrow> bool" where
  "rule_allows r \<longleftrightarrow> ru_Action r = ''allow''"

interpretation netstack: first_match netstack_decides rule_matches rule_allows
  by unfold_locales
     (auto simp: netstack_decides_def rule_allows_def aclAllows_Cons split: prod.splits)


section \<open>Packets\<close>

text \<open>Two and four bytes in network order. An index is only used below a length that has been
  checked, as in the source.\<close>

definition be16 :: "byte list \<Rightarrow> nat \<Rightarrow> u16" where
  "be16 pkt i = push_bit 8 (ucast (pkt ! i)) OR ucast (pkt ! (i + 1))"

definition be32 :: "byte list \<Rightarrow> nat \<Rightarrow> u32" where
  "be32 pkt i =
     push_bit 24 (ucast (pkt ! i)) OR push_bit 16 (ucast (pkt ! (i + 1)))
     OR push_bit 8 (ucast (pkt ! (i + 2))) OR ucast (pkt ! (i + 3))"

definition ip_version :: "byte list \<Rightarrow> byte" where
  "ip_version pkt = drop_bit 4 (pkt ! 0)"

definition header_len :: "byte list \<Rightarrow> nat" where
  "header_len pkt = unat (pkt ! 0 AND 0x0f) * 4"

definition proto_name :: "byte \<Rightarrow> string" where
  "proto_name b = (if b = 6 then ''tcp'' else if b = 17 then ''udp'' else if b = 1 then ''icmp'' else [])"

definition packet_flow :: "byte list \<Rightarrow> flow" where
  "packet_flow pkt =
     (let ihl = header_len pkt; proto = proto_name (pkt ! 9) in
      (V4 (be32 pkt 12), V4 (be32 pkt 16), proto,
       if (proto = ''tcp'' \<or> proto = ''udp'') \<and> ihl + 4 \<le> length pkt then be16 pkt (ihl + 2) else 0))"

fun filter_rules :: "pb_Rule list \<Rightarrow> addr \<Rightarrow> addr \<Rightarrow> string \<Rightarrow> u16 \<Rightarrow> bool" where
  "filter_rules [] src dst proto dport = False"
| "filter_rules (r # rules) src dst proto dport =
     (if \<not> ru_Enabled r then filter_rules rules src dst proto dport
      else if \<not> aclHostMatch (ru_Src r) src \<or> \<not> aclHostMatch (ru_Dst r) dst
      then filter_rules rules src dst proto dport
      else
        (let p = to_lower (ru_Protocol r) in
         if p \<noteq> [] \<and> p \<noteq> ''all'' then
           (if p \<noteq> proto then filter_rules rules src dst proto dport
            else if 0 < ru_Port r \<and> (p = ''tcp'' \<or> p = ''udp'') \<and> uint16 (ru_Port r) \<noteq> dport
            then filter_rules rules src dst proto dport
            else ru_Action r = ''allow'')
         else ru_Action r = ''allow''))"

lemma filter_rules_Cons:
  "filter_rules (r # rules) src dst proto dport =
     (if rule_matches r (src, dst, proto, dport) then ru_Action r = ''allow''
      else filter_rules rules src dst proto dport)"
  by (simp add: rule_matches_def Let_def) blast

declare filter_rules.simps(2) [simp del]

text \<open>The set of local addresses is empty where the code passes nil.\<close>

definition aclFilterAllowsFor :: "byte list \<Rightarrow> pb_Rule list \<Rightarrow> addr set \<Rightarrow> bool" where
  "aclFilterAllowsFor pkt rules locals =
     (if length pkt < 20 \<or> ip_version pkt \<noteq> 4 then True
      else
        (let ihl = header_len pkt in
         if ihl < 20 \<or> length pkt < ihl then True
         else
           (case packet_flow pkt of (src, dst, proto, dport) \<Rightarrow>
              if locals \<noteq> {} \<and> dst \<notin> locals then True
              else filter_rules rules src dst proto dport)))"

definition aclFilterAllows :: "byte list \<Rightarrow> pb_Rule list \<Rightarrow> bool" where
  "aclFilterAllows pkt rules = aclFilterAllowsFor pkt rules {}"

text \<open>The packets that are policed: a complete IPv4 header, addressed to this host.\<close>

definition ipv4_packet :: "byte list \<Rightarrow> bool" where
  "ipv4_packet pkt \<longleftrightarrow> 20 \<le> length pkt \<and> ip_version pkt = 4 \<and> 20 \<le> header_len pkt \<and> header_len pkt \<le> length pkt"

definition policed :: "addr set \<Rightarrow> byte list \<Rightarrow> bool" where
  "policed locals pkt \<longleftrightarrow> ipv4_packet pkt \<and> (locals = {} \<or> fst (snd (packet_flow pkt)) \<in> locals)"

declare
  aclHostMatch_def [go_eval] rule_matches_def [go_eval] be16_def [go_eval] be32_def [go_eval]
  ip_version_def [go_eval] header_len_def [go_eval] proto_name_def [go_eval]
  packet_flow_def [go_eval] aclFilterAllowsFor_def [go_eval] aclFilterAllows_def [go_eval]
  uint16_def [go_eval] int32_def [go_eval] aclAllows.simps [go_eval] filter_rules.simps [go_eval]

definition filter_decides :: "addr set \<Rightarrow> pb_Rule list \<Rightarrow> byte list \<Rightarrow> bool" where
  "filter_decides locals rules pkt \<longleftrightarrow> policed locals pkt \<and> aclFilterAllowsFor pkt rules locals"

interpretation winfilter: first_match "filter_decides locals"
  "\<lambda>r pkt. policed locals pkt \<and> rule_matches r (packet_flow pkt)" rule_allows for locals
  by unfold_locales
     (auto simp: filter_decides_def aclFilterAllowsFor_def policed_def ipv4_packet_def rule_allows_def
       filter_rules_Cons Let_def split: prod.splits)

interpretation both: same_policy netstack_decides rule_matches rule_allows "filter_decides locals"
  "\<lambda>r pkt. policed locals pkt \<and> rule_matches r (packet_flow pkt)" rule_allows for locals
  by unfold_locales


definition example_acl_rule :: "string \<Rightarrow> pb_Rule" where
  "example_acl_rule act = \<lparr>ru_Id = ''1'', ru_Name = [], ru_Src = [], ru_Dst = [], ru_Protocol = ''tcp'',
     ru_Port = 22, ru_Action = act, ru_Enabled = True, ru_Priority = 0\<rparr>"

section \<open>Properties\<close>

text \<open>C3. Enforcement is first match with default deny: traffic is allowed exactly when some
  enabled rule that matches it allows it and no enabled rule before that one matches. In
  particular a deny rule above an allow rule wins, and without rules nothing is allowed.\<close>

theorem aclAllows_first_match:
  "aclAllows rules src dst proto dport \<longleftrightarrow>
     (\<exists>i < length rules.
        rule_matches (rules ! i) (src, dst, proto, dport) \<and> ru_Action (rules ! i) = ''allow''
        \<and> (\<forall>j < i. \<not> rule_matches (rules ! j) (src, dst, proto, dport)))"
  using netstack.decide_iff [of rules "(src, dst, proto, dport)"]
  by (simp add: netstack_decides_def rule_allows_def)

theorem aclAllows_first_match_witness:
  "\<not> aclAllows [example_acl_rule ''deny'', example_acl_rule ''allow''] (V4 1) (V4 2) ''tcp'' 22
   \<and> aclAllows [example_acl_rule ''allow'', example_acl_rule ''deny''] (V4 1) (V4 2) ''tcp'' 22"
  unfolding aclAllows_first_match
  by (auto simp: example_acl_rule_def rule_matches_def aclHostMatch_def go_eval less_Suc_eq nth_Cons')


end
