(* ===== verification/Acl_Linux.thy ===== *)
theory Acl_Linux
  imports Acl
begin

text \<open>
  The iptables chain of Linux peers (\<^verbatim>\<open>client/internal/acl/acl_linux.go\<close>). The program
  \<^verbatim>\<open>iptables\<close> is an argument: \<open>run\<close> takes its arguments and the state of the packet
  filter and returns success and the new state. What the code relies on is stated in
  \<open>chain_laws\<close> (append, flush) and \<open>match_laws\<close> (the meaning of the match options).
\<close>

section \<open>Model\<close>

definition chain :: string where "chain = ''BLINEX-ACL''"

type_synonym 'fw iptables = "string list \<Rightarrow> 'fw \<Rightarrow> bool \<times> 'fw"

definition ruleExists :: "'fw iptables \<Rightarrow> string list \<Rightarrow> 'fw \<Rightarrow> bool \<times> 'fw" where
  "ruleExists run args fw = run (map (\<lambda>a. if a = ''-A'' then ''-C'' else a) args) fw"

definition ensure_jump :: "'fw iptables \<Rightarrow> string list \<Rightarrow> 'fw \<Rightarrow> bool \<times> 'fw" where
  "ensure_jump run args fw =
     (let (present, fw1) = ruleExists run args fw in if present then (True, fw1) else run args fw1)"

definition EnsureChain :: "'fw iptables \<Rightarrow> string \<Rightarrow> 'fw \<Rightarrow> bool \<times> 'fw" where
  "EnsureChain run iface fw =
     (let (_, fw1) = run [''-N'', chain] fw;
          (ok1, fw2) = ensure_jump run [''-A'', ''INPUT'', ''-i'', iface, ''-j'', chain] fw1
      in if \<not> ok1 then (False, fw2)
         else ensure_jump run [''-A'', ''FORWARD'', ''-i'', iface, ''-j'', chain] fw2)"

definition fmt_port :: "int \<Rightarrow> string" where
  "fmt_port p = itoa (nat p)"

definition buildIPTablesArgs :: "pb_Rule \<Rightarrow> string \<Rightarrow> string list" where
  "buildIPTablesArgs r iface =
     (let proto = to_lower (ru_Protocol r) in
      [''-A'', chain, ''-i'', iface]
      @ (if ru_Src r \<noteq> [] \<and> ru_Src r \<noteq> ''*'' then [''-s'', ru_Src r] else [])
      @ (if ru_Dst r \<noteq> [] \<and> ru_Dst r \<noteq> ''*'' then [''-d'', ru_Dst r] else [])
      @ (if proto \<noteq> [] \<and> proto \<noteq> ''all''
         then [''-p'', proto] @
              (if 0 < ru_Port r \<and> (proto = ''tcp'' \<or> proto = ''udp'')
               then [''--dport'', fmt_port (ru_Port r)] else [])
         else [])
      @ [''-j'', if ru_Action r = ''deny'' then ''DROP'' else ''ACCEPT''])"

definition conntrack_accept :: "string list" where
  "conntrack_accept =
     [''-A'', chain, ''-m'', ''conntrack'', ''--ctstate'', ''ESTABLISHED,RELATED'', ''-j'', ''ACCEPT'']"

text \<open>The loop over the rules: a rule that cannot be installed is logged and skipped.\<close>

definition install_rules :: "'fw iptables \<Rightarrow> pb_Rule list \<Rightarrow> string \<Rightarrow> 'fw \<Rightarrow> 'fw" where
  "install_rules run rules iface fw =
     fold (\<lambda>r fw. if \<not> ru_Enabled r then fw else snd (run (buildIPTablesArgs r iface) fw)) rules fw"

definition ApplyRules :: "'fw iptables \<Rightarrow> pb_Rule list \<Rightarrow> string \<Rightarrow> 'fw \<Rightarrow> bool \<times> 'fw" where
  "ApplyRules run rules iface fw =
     (let (flushed, fw1) = run [''-F'', chain] fw in
      if \<not> flushed then (False, fw1)
      else
        (let fw2 = snd (run conntrack_accept fw1);
             fw3 = install_rules run rules iface fw2
         in (True, snd (run [''-A'', chain, ''-j'', ''DROP''] fw3))))"

definition RemoveChain :: "'fw iptables \<Rightarrow> string \<Rightarrow> 'fw \<Rightarrow> 'fw" where
  "RemoveChain run iface fw =
     (let fw1 = snd (run [''-D'', ''INPUT'', ''-i'', iface, ''-j'', chain] fw);
          fw2 = snd (run [''-D'', ''FORWARD'', ''-i'', iface, ''-j'', chain] fw1);
          fw3 = snd (run [''-F'', chain] fw2)
      in snd (run [''-X'', chain] fw3))"

declare
  chain_def [go_eval] ruleExists_def [go_eval] ensure_jump_def [go_eval] EnsureChain_def [go_eval]
  fmt_port_def [go_eval] buildIPTablesArgs_def [go_eval] conntrack_accept_def [go_eval]
  install_rules_def [go_eval] ApplyRules_def [go_eval] RemoveChain_def [go_eval]


section \<open>What the code relies on\<close>

text \<open>The commands that succeed (\<open>ok\<close>) and their effect on the rules of the chain: \<^verbatim>\<open>-F\<close> empties
  the chain, \<^verbatim>\<open>-A\<close> appends a rule, a failing command changes nothing.\<close>

definition chain_laws :: "'fw iptables \<Rightarrow> (string list \<Rightarrow> bool) \<Rightarrow> ('fw \<Rightarrow> string list list) \<Rightarrow> bool" where
  "chain_laws run ok chain_of \<longleftrightarrow>
     (\<forall>args fw. fst (run args fw) = ok args)
     \<and> (\<forall>fw. ok [''-F'', chain] \<longrightarrow> chain_of (snd (run [''-F'', chain] fw)) = [])
     \<and> (\<forall>args spec fw. args = ''-A'' # chain # spec \<and> ok args \<longrightarrow>
          chain_of (snd (run args fw)) = chain_of fw @ [spec])
     \<and> (\<forall>args fw. \<not> ok args \<longrightarrow> chain_of (snd (run args fw)) = chain_of fw)"

text \<open>A packet at the chain: the interface it came in on, whether it belongs or relates to an
  established connection, and its flow.\<close>

record kernel_packet =
  kp_iface :: string
  kp_established :: bool
  kp_flow :: flow

text \<open>The meaning of the match options; \<open>host\<close> is how \<^verbatim>\<open>-s\<close> and \<^verbatim>\<open>-d\<close> read an address.\<close>

definition match_laws ::
  "(string \<Rightarrow> addr \<Rightarrow> bool) \<Rightarrow> (string list \<Rightarrow> kernel_packet \<Rightarrow> bool) \<Rightarrow> bool" where
  "match_laws host matches \<longleftrightarrow>
     (\<forall>pkt src dst proto dport x rest. kp_flow pkt = (src, dst, proto, dport) \<longrightarrow>
        (matches (''-i'' # x # rest) pkt \<longleftrightarrow> kp_iface pkt = x \<and> matches rest pkt)
        \<and> (matches (''-s'' # x # rest) pkt \<longleftrightarrow> host x src \<and> matches rest pkt)
        \<and> (matches (''-d'' # x # rest) pkt \<longleftrightarrow> host x dst \<and> matches rest pkt)
        \<and> (matches (''-p'' # x # rest) pkt \<longleftrightarrow> proto = x \<and> matches rest pkt)
        \<and> (matches (''--dport'' # x # rest) pkt \<longleftrightarrow> itoa (unat dport) = x \<and> matches rest pkt)
        \<and> (matches (''-m'' # ''conntrack'' # ''--ctstate'' # ''ESTABLISHED,RELATED'' # rest) pkt
             \<longleftrightarrow> kp_established pkt \<and> matches rest pkt)
        \<and> matches [''-j'', x] pkt)"

text \<open>The verdict of a chain: the target of the first rule that matches.\<close>

definition chain_accepts ::
  "(string list \<Rightarrow> kernel_packet \<Rightarrow> bool) \<Rightarrow> string list list \<Rightarrow> kernel_packet \<Rightarrow> bool" where
  "chain_accepts matches specs pkt =
     (case find (\<lambda>s. matches s pkt) specs of None \<Rightarrow> False | Some s \<Rightarrow> last s = ''ACCEPT'')"

interpretation iptables: first_match "chain_accepts matches" matches "\<lambda>s. last s = ''ACCEPT''" for matches
  by unfold_locales (simp_all add: chain_accepts_def)

interpretation kernel: same_policy netstack_decides rule_matches rule_allows
  "chain_accepts matches" matches "\<lambda>s. last s = ''ACCEPT''" for matches
  by unfold_locales


section \<open>Lemmas\<close>

definition rule_spec :: "string \<Rightarrow> pb_Rule \<Rightarrow> string list" where
  "rule_spec iface r = drop 2 (buildIPTablesArgs r iface)"

lemma buildIPTablesArgs_spec: "buildIPTablesArgs r iface = ''-A'' # chain # rule_spec iface r"
  by (simp add: rule_spec_def buildIPTablesArgs_def Let_def)

lemma install_chain:
  assumes "chain_laws run ok chain_of"
  shows "chain_of (install_rules run rules iface fw) =
    chain_of fw @ map (rule_spec iface)
      (filter (\<lambda>r. ru_Enabled r \<and> ok (buildIPTablesArgs r iface)) rules)"
proof (induction rules arbitrary: fw)
  case (Cons r rules)
  have "chain_of (snd (run (buildIPTablesArgs r iface) fw)) =
      (if ok (buildIPTablesArgs r iface) then chain_of fw @ [rule_spec iface r] else chain_of fw)"
    using assms buildIPTablesArgs_spec [of r iface] unfolding chain_laws_def by metis
  moreover have "install_rules run (r # rules) iface fw = install_rules run rules iface
      (if \<not> ru_Enabled r then fw else snd (run (buildIPTablesArgs r iface) fw))"
    by (simp add: install_rules_def)
  ultimately show ?case using Cons.IH by simp
qed (simp add: install_rules_def)

text \<open>The chain after \<^verbatim>\<open>ApplyRules\<close>: whatever could be installed, in order.\<close>

lemma ApplyRules_chain:
  assumes "chain_laws run ok chain_of" "ok [''-F'', chain]"
  shows "fst (ApplyRules run rules iface fw)"
    and "chain_of (snd (ApplyRules run rules iface fw)) =
      (if ok conntrack_accept then [drop 2 conntrack_accept] else [])
      @ map (rule_spec iface) (filter (\<lambda>r. ru_Enabled r \<and> ok (buildIPTablesArgs r iface)) rules)
      @ (if ok [''-A'', chain, ''-j'', ''DROP''] then [[''-j'', ''DROP'']] else [])"
proof -
  let ?fw1 = "snd (run [''-F'', chain] fw)"
  let ?fw2 = "snd (run conntrack_accept ?fw1)"
  let ?fw3 = "install_rules run rules iface ?fw2"
  have split: "ApplyRules run rules iface fw = (True, snd (run [''-A'', chain, ''-j'', ''DROP''] ?fw3))"
  proof -
    have "fst (run [''-F'', chain] fw)" using assms by (simp add: chain_laws_def)
    then show ?thesis by (cases "run [''-F'', chain] fw") (simp add: ApplyRules_def Let_def)
  qed
  then show "fst (ApplyRules run rules iface fw)" by simp
  have "chain_of ?fw1 = []" using assms by (simp add: chain_laws_def)
  then have "chain_of ?fw2 = (if ok conntrack_accept then [drop 2 conntrack_accept] else [])"
    using assms(1) unfolding chain_laws_def conntrack_accept_def by auto
  moreover have "chain_of (snd (run [''-A'', chain, ''-j'', ''DROP''] ?fw3)) =
      chain_of ?fw3 @ (if ok [''-A'', chain, ''-j'', ''DROP''] then [[''-j'', ''DROP'']] else [])"
    using assms(1) unfolding chain_laws_def by auto
  ultimately show "chain_of (snd (ApplyRules run rules iface fw)) =
      (if ok conntrack_accept then [drop 2 conntrack_accept] else [])
      @ map (rule_spec iface) (filter (\<lambda>r. ru_Enabled r \<and> ok (buildIPTablesArgs r iface)) rules)
      @ (if ok [''-A'', chain, ''-j'', ''DROP''] then [[''-j'', ''DROP'']] else [])"
    using install_chain [OF assms(1), of rules iface ?fw2] split by simp
qed

lemma match_lawsD:
  assumes "match_laws host matches" "kp_flow pkt = (src, dst, proto, dport)"
  shows "matches (''-i'' # x # rest) pkt \<longleftrightarrow> kp_iface pkt = x \<and> matches rest pkt"
    and "matches (''-s'' # x # rest) pkt \<longleftrightarrow> host x src \<and> matches rest pkt"
    and "matches (''-d'' # x # rest) pkt \<longleftrightarrow> host x dst \<and> matches rest pkt"
    and "matches (''-p'' # x # rest) pkt \<longleftrightarrow> proto = x \<and> matches rest pkt"
    and "matches (''--dport'' # x # rest) pkt \<longleftrightarrow> itoa (unat dport) = x \<and> matches rest pkt"
    and "matches (''-m'' # ''conntrack'' # ''--ctstate'' # ''ESTABLISHED,RELATED'' # rest) pkt
      \<longleftrightarrow> kp_established pkt \<and> matches rest pkt"
    and "matches [''-j'', x] pkt"
  using assms(1) [unfolded match_laws_def, rule_format, OF assms(2), of x rest] by - (elim conjE, assumption)+

lemma port_agrees:
  assumes "0 < p" "p \<le> 65535"
  shows "itoa (unat dport) = fmt_port p \<longleftrightarrow> uint16 p = dport"
proof -
  have u: "uint (word_of_int p :: u16) = p"
    unfolding uint_word_of_int using assms by (intro mod_pos_pos_trivial) simp_all
  have "unat dport = nat p \<longleftrightarrow> uint dport = p"
    unfolding unat_eq_nat_uint using assms(1) by (intro eq_nat_nat_iff) simp_all
  also have "\<dots> \<longleftrightarrow> uint (word_of_int p :: u16) = uint dport" using u by auto
  also have "\<dots> \<longleftrightarrow> word_of_int p = dport" by (simp only: word_uint_eq_iff [symmetric])
  finally show ?thesis unfolding fmt_port_def uint16_def itoa_inject .
qed

lemma rule_spec_matches:
  assumes laws: "match_laws host matches" and fl: "kp_flow pkt = (src, dst, proto, dport)"
    and iface: "kp_iface pkt = iface" and en: "ru_Enabled r" and port: "0 \<le> ru_Port r" "ru_Port r \<le> 65535"
    and hs: "\<And>ip. ru_Src r \<noteq> [] \<Longrightarrow> ru_Src r \<noteq> ''*'' \<Longrightarrow> host (ru_Src r) ip = aclHostMatch (ru_Src r) ip"
    and hd: "\<And>ip. ru_Dst r \<noteq> [] \<Longrightarrow> ru_Dst r \<noteq> ''*'' \<Longrightarrow> host (ru_Dst r) ip = aclHostMatch (ru_Dst r) ip"
  shows "matches (rule_spec iface r) pkt \<longleftrightarrow> rule_matches r (kp_flow pkt)"
proof -
  define p where "p = to_lower (ru_Protocol r)"
  define P where "P = (if p \<noteq> [] \<and> p \<noteq> ''all''
    then [''-p'', p] @ (if 0 < ru_Port r \<and> (p = ''tcp'' \<or> p = ''udp'') then [''--dport'', fmt_port (ru_Port r)] else [])
    else [])"
  define J where "J = [''-j'', if ru_Action r = ''deny'' then ''DROP'' else ''ACCEPT'']"
  note m = match_lawsD [OF laws fl]
  have any: "aclHostMatch [] ip" "aclHostMatch ''*'' ip" for ip by (simp_all add: aclHostMatch_def)
  have S: "matches ((if ru_Src r \<noteq> [] \<and> ru_Src r \<noteq> ''*'' then [''-s'', ru_Src r] else []) @ rest) pkt
      \<longleftrightarrow> aclHostMatch (ru_Src r) src \<and> matches rest pkt" for rest
    using hs any by (cases "ru_Src r \<noteq> [] \<and> ru_Src r \<noteq> ''*''") (auto simp: m(2))
  have D: "matches ((if ru_Dst r \<noteq> [] \<and> ru_Dst r \<noteq> ''*'' then [''-d'', ru_Dst r] else []) @ rest) pkt
      \<longleftrightarrow> aclHostMatch (ru_Dst r) dst \<and> matches rest pkt" for rest
    using hd any by (cases "ru_Dst r \<noteq> [] \<and> ru_Dst r \<noteq> ''*''") (auto simp: m(3))
  have P: "matches (P @ J) pkt \<longleftrightarrow> (if p \<noteq> [] \<and> p \<noteq> ''all'' then
      p = proto \<and> \<not> (0 < ru_Port r \<and> (p = ''tcp'' \<or> p = ''udp'') \<and> uint16 (ru_Port r) \<noteq> dport) else True)"
    using port port_agrees [of "ru_Port r" dport] by (auto simp: P_def J_def m(4,5,7))
  have "rule_spec iface r = ''-i'' # iface
      # ((if ru_Src r \<noteq> [] \<and> ru_Src r \<noteq> ''*'' then [''-s'', ru_Src r] else [])
         @ (if ru_Dst r \<noteq> [] \<and> ru_Dst r \<noteq> ''*'' then [''-d'', ru_Dst r] else []) @ P @ J)"
    by (simp add: rule_spec_def buildIPTablesArgs_def P_def J_def p_def Let_def)
  then have "matches (rule_spec iface r) pkt \<longleftrightarrow>
      aclHostMatch (ru_Src r) src \<and> aclHostMatch (ru_Dst r) dst \<and> matches (P @ J) pkt"
    by (simp only: m(1) iface S D simp_thms)
  then show ?thesis unfolding P by (simp add: rule_matches_def fl en p_def Let_def)
qed

lemma last_rule_spec: "last (rule_spec iface r) = (if ru_Action r = ''deny'' then ''DROP'' else ''ACCEPT'')"
  by (simp add: rule_spec_def buildIPTablesArgs_def Let_def)

text \<open>The rules a management server sends: actions and ports it validated.\<close>

definition rule_valid :: "pb_Rule \<Rightarrow> bool" where
  "rule_valid r \<longleftrightarrow> ru_Action r \<in> {''allow'', ''deny''} \<and> 0 \<le> ru_Port r \<and> ru_Port r \<le> 65535"

lemma specs_agree:
  assumes "match_laws aclHostMatch matches" "kp_iface pkt = iface" "\<forall>r \<in> set rules. rule_valid r"
  shows "chain_accepts matches (map (rule_spec iface) (filter ru_Enabled rules)) pkt \<longleftrightarrow>
    netstack_decides rules (kp_flow pkt)"
proof -
  obtain src dst proto dport where fl: "kp_flow pkt = (src, dst, proto, dport)" by (cases "kp_flow pkt")
  let ?rs = "filter ru_Enabled rules"
  have "netstack_decides ?rs (kp_flow pkt) \<longleftrightarrow> chain_accepts matches (map (rule_spec iface) ?rs) pkt"
  proof (rule kernel.decide_agree)
    fix r
    assume "r \<in> set ?rs"
    with assms(3) have "ru_Enabled r" "rule_valid r" by auto
    then show "rule_matches r (kp_flow pkt) \<longleftrightarrow> matches (rule_spec iface r) pkt"
      using rule_spec_matches [OF assms(1) fl assms(2)] by (simp add: rule_valid_def)
    show "rule_allows r \<longleftrightarrow> last (rule_spec iface r) = ''ACCEPT''"
      using \<open>rule_valid r\<close> by (auto simp: rule_valid_def rule_allows_def last_rule_spec)
  qed
  moreover have "netstack_decides ?rs (kp_flow pkt) = netstack_decides rules (kp_flow pkt)"
    by (rule netstack.decide_filter) (auto simp: rule_matches_def fl)
  ultimately show ?thesis by simp
qed

text \<open>A failure to append the terminal rule goes unnoticed: the caller is told that the policy
  is in place, and the chain has no rule that drops what no other rule matched.\<close>

lemma missing_drop_unnoticed:
  assumes "chain_laws run ok chain_of" "ok [''-F'', chain]" "\<not> ok [''-A'', chain, ''-j'', ''DROP'']"
  shows "fst (ApplyRules run rules iface fw)
    \<and> [''-j'', ''DROP''] \<notin> set (chain_of (snd (ApplyRules run rules iface fw)))"
proof -
  have "[''-j'', ''DROP''] \<notin> range (rule_spec iface)"
    by (auto simp: rule_spec_def buildIPTablesArgs_def Let_def)
  moreover have "[''-j'', ''DROP''] \<noteq> drop 2 conntrack_accept" by (simp add: conntrack_accept_def)
  ultimately have "[''-j'', ''DROP''] \<notin> set (chain_of (snd (ApplyRules run rules iface fw)))"
    unfolding ApplyRules_chain(2) [OF assms(1,2)] using assms(3) by auto
  then show ?thesis using ApplyRules_chain(1) [OF assms(1,2)] by simp
qed


section \<open>Properties\<close>

lemma chain_decides:
  assumes "chain_laws run (\<lambda>_. True) chain_of" "match_laws aclHostMatch matches"
    "\<forall>r \<in> set rules. rule_valid r" "kp_iface pkt = iface"
    "kp_flow pkt = (src, dst, proto, dport)"
  shows "chain_accepts matches (chain_of (snd (ApplyRules run rules iface fw))) pkt \<longleftrightarrow>
    kp_established pkt \<or> aclAllows rules src dst proto dport"
proof -
  note m = match_lawsD [OF assms(2,5)]
  have chain: "chain_of (snd (ApplyRules run rules iface fw)) =
      drop 2 conntrack_accept # (map (rule_spec iface) (filter ru_Enabled rules) @ [[''-j'', ''DROP'']])"
    using ApplyRules_chain(2) [OF assms(1)] by simp
  have ct: "matches (drop 2 conntrack_accept) pkt \<longleftrightarrow> kp_established pkt"
    using m(6) [of "[''-j'', ''ACCEPT'']"] m(7) [of "''ACCEPT''"] by (simp add: conntrack_accept_def)
  have last: "last (drop 2 conntrack_accept) = ''ACCEPT''" by (simp add: conntrack_accept_def)
  have drop: "\<not> chain_accepts matches [[''-j'', ''DROP'']] pkt" by (simp add: chain_accepts_def)
  let ?specs = "map (rule_spec iface) (filter ru_Enabled rules)"
  have "chain_accepts matches (?specs @ [[''-j'', ''DROP'']]) pkt = chain_accepts matches ?specs pkt"
    using drop iptables.decide_append [of matches ?specs "[[''-j'', ''DROP'']]" pkt]
      iptables.default_deny [of ?specs matches pkt] by auto
  then show ?thesis
    unfolding chain iptables.decide_Cons ct last
    using specs_agree [OF assms(2,4,3)] by (simp add: netstack_decides_def assms(5))
qed


text \<open>A packet filter with these laws: the state is the chain, and options are read one by one.\<close>

fun list_run :: "string list list iptables" where
  "list_run (a # b # spec) c =
     (True, if a = ''-F'' then [] else if a = ''-A'' \<and> b = chain then c @ [spec] else c)"
| "list_run args c = (True, c)"

fun spec_matches :: "string list \<Rightarrow> kernel_packet \<Rightarrow> bool" where
  "spec_matches (o1 # x # rest) pkt =
     (case kp_flow pkt of (src, dst, proto, dport) \<Rightarrow>
        if o1 = ''-i'' then kp_iface pkt = x \<and> spec_matches rest pkt
        else if o1 = ''-s'' then aclHostMatch x src \<and> spec_matches rest pkt
        else if o1 = ''-d'' then aclHostMatch x dst \<and> spec_matches rest pkt
        else if o1 = ''-p'' then proto = x \<and> spec_matches rest pkt
        else if o1 = ''--dport'' then itoa (unat dport) = x \<and> spec_matches rest pkt
        else if o1 = ''-m'' then spec_matches rest pkt
        else if o1 = ''--ctstate'' then kp_established pkt \<and> spec_matches rest pkt
        else True)"
| "spec_matches _ pkt = True"

lemma list_run_laws: "chain_laws list_run (\<lambda>_. True) id"
proof -
  have "fst (list_run args c)" for args c by (cases "(args, c)" rule: list_run.cases) auto
  then show ?thesis by (simp add: chain_laws_def)
qed

lemma spec_matches_laws: "match_laws aclHostMatch spec_matches"
  by (simp add: match_laws_def)


end
