(* ===== verification/Netstack_Router.thy ===== *)
theory Netstack_Router
  imports Acl
begin

text \<open>
  The userspace subnet router (\<^verbatim>\<open>client/internal/wgmgr/nsrouter.go\<close>): which destinations it
  proxies to the real network, how it decides on TCP and UDP connections and on pings, and
  the bounds on its concurrency. The gVisor stack is not modelled: a handler is given the
  identity of the connection and the outcome of \<^verbatim>\<open>CreateEndpoint\<close>, and yields what the code
  does with the connection. A semaphore is the number of tokens in its channel.
\<close>

section \<open>Model\<close>

definition maxConcurrentForwards :: nat where "maxConcurrentForwards = 1024"
definition maxConcurrentICMP :: nat where "maxConcurrentICMP = 64"

record RoutingNet =
  rn_localAddr :: addr
  rn_sem :: nat
  rn_icmpSem :: nat
  rn_subnets :: "prefix list"
  rn_aclRules :: "pb_Rule list"

definition createRoutingNet :: "addr \<Rightarrow> RoutingNet" where
  "createRoutingNet localAddr =
     \<lparr>rn_localAddr = localAddr, rn_sem = 0, rn_icmpSem = 0, rn_subnets = [], rn_aclRules = []\<rparr>"

definition acquire :: "RoutingNet \<Rightarrow> bool \<times> RoutingNet" where
  "acquire n = (if rn_sem n < maxConcurrentForwards then (True, n\<lparr>rn_sem := rn_sem n + 1\<rparr>) else (False, n))"

text \<open>A receive from an empty channel blocks: no next state.\<close>

definition release :: "RoutingNet \<Rightarrow> RoutingNet option" where
  "release n = (if rn_sem n = 0 then None else Some (n\<lparr>rn_sem := rn_sem n - 1\<rparr>))"

definition acquireICMP :: "RoutingNet \<Rightarrow> bool \<times> RoutingNet" where
  "acquireICMP n =
     (if rn_icmpSem n < maxConcurrentICMP then (True, n\<lparr>rn_icmpSem := rn_icmpSem n + 1\<rparr>) else (False, n))"

definition releaseICMP :: "RoutingNet \<Rightarrow> RoutingNet option" where
  "releaseICMP n = (if rn_icmpSem n = 0 then None else Some (n\<lparr>rn_icmpSem := rn_icmpSem n - 1\<rparr>))"

definition SetSubnets :: "prefix list \<Rightarrow> RoutingNet \<Rightarrow> RoutingNet" where
  "SetSubnets subnets n = n\<lparr>rn_subnets := subnets\<rparr>"

definition SetACLRules :: "pb_Rule list \<Rightarrow> RoutingNet \<Rightarrow> RoutingNet" where
  "SetACLRules rules n = n\<lparr>rn_aclRules := rules\<rparr>"

definition meshExclude :: prefix where
  "meshExclude = Prefix (V4 0x64400000) 10"

definition prefix_bits :: "prefix \<Rightarrow> nat" where
  "prefix_bits p = (case p of Prefix _ n \<Rightarrow> n)"

definition shouldForward :: "addr \<Rightarrow> RoutingNet \<Rightarrow> bool" where
  "shouldForward dst n =
     (if is_loopback dst \<or> is_unspecified dst \<or> is_link_local_unicast dst \<or> is_multicast dst
         \<or> prefix_contains meshExclude dst then False
      else list_ex (\<lambda>s. prefix_contains s dst \<and> \<not> (prefix_bits s = 0 \<and> is_private dst)) (rn_subnets n))"

text \<open>The identity of a connection as gVisor reports it.\<close>

record conn_id =
  ci_RemoteAddress :: addr
  ci_LocalAddress :: addr
  ci_LocalPort :: u16

datatype tcp_action = SendRST | DialTCP addr u16
datatype udp_action = DropUDP | DialUDP addr u16

definition handleTCP :: "conn_id \<Rightarrow> bool \<Rightarrow> RoutingNet \<Rightarrow> tcp_action \<times> RoutingNet" where
  "handleTCP i endpoint_ok n =
     (let dst = ci_LocalAddress i; toLocalService = (dst = rn_localAddr n) in
      if \<not> toLocalService \<and> \<not> shouldForward dst n then (SendRST, n)
      else if \<not> aclAllows (rn_aclRules n) (ci_RemoteAddress i) dst ''tcp'' (ci_LocalPort i) then (SendRST, n)
      else
        (let (got, n1) = acquire n in
         if \<not> got then (SendRST, n1)
         else if \<not> endpoint_ok then (SendRST, the (release n1))
         else (DialTCP (if toLocalService then V4 0x7f000001 else dst) (ci_LocalPort i), n1)))"

definition handleUDP :: "conn_id \<Rightarrow> bool \<Rightarrow> RoutingNet \<Rightarrow> udp_action \<times> RoutingNet" where
  "handleUDP i endpoint_ok n =
     (let dst = ci_LocalAddress i in
      if \<not> shouldForward dst n then (DropUDP, n)
      else if \<not> aclAllows (rn_aclRules n) (ci_RemoteAddress i) dst ''udp'' (ci_LocalPort i) then (DropUDP, n)
      else
        (let (got, n1) = acquire n in
         if \<not> got then (DropUDP, n1)
         else if \<not> endpoint_ok then (DropUDP, the (release n1))
         else (DialUDP dst (ci_LocalPort i), n1)))"

text \<open>A packet is passed on to the stack, consumed, or pinged from the host.\<close>

datatype icmp_action = NotConsumed | Consumed | Ping addr addr "byte list"

definition interceptICMPv4 :: "byte list \<Rightarrow> RoutingNet \<Rightarrow> icmp_action \<times> RoutingNet" where
  "interceptICMPv4 packet n =
     (if length packet < 20 \<or> ip_version packet \<noteq> 4 then (NotConsumed, n)
      else if packet ! 9 \<noteq> 1 then (NotConsumed, n)
      else
        (let ihl = header_len packet in
         if ihl < 20 \<or> length packet < ihl + 8 then (NotConsumed, n)
         else if packet ! ihl \<noteq> 8 then (NotConsumed, n)
         else
           (let dst = V4 (be32 packet 16); src = V4 (be32 packet 12) in
            if \<not> shouldForward dst n then (NotConsumed, n)
            else if \<not> aclAllows (rn_aclRules n) src dst ''icmp'' 0 then (Consumed, n)
            else
              (let (got, n1) = acquireICMP n in
               if \<not> got then (Consumed, n1) else (Ping src dst (drop ihl packet), n1)))))"

text \<open>One packet of \<^verbatim>\<open>Write\<close>: consumed, injected as IPv4 or IPv6, or the error EAFNOSUPPORT.\<close>

datatype write_action = Skip | Intercepted icmp_action | InjectV4 | InjectV6 | Unsupported

definition Write_packet :: "byte list \<Rightarrow> RoutingNet \<Rightarrow> write_action \<times> RoutingNet" where
  "Write_packet packet n =
     (if packet = [] then (Skip, n)
      else
        (case interceptICMPv4 packet n of
           (NotConsumed, n1) \<Rightarrow>
             (if ip_version packet = 4 then InjectV4 else if ip_version packet = 6 then InjectV6
              else Unsupported, n1)
         | (act, n1) \<Rightarrow> (Intercepted act, n1)))"

text \<open>The packets of one call, up to the first that is neither IPv4 nor IPv6.\<close>

fun Write :: "byte list list \<Rightarrow> RoutingNet \<Rightarrow> (write_action list \<times> bool) \<times> RoutingNet" where
  "Write [] n = (([], True), n)"
| "Write (b # bs) n =
     (case Write_packet b n of
        (Unsupported, n1) \<Rightarrow> (([Unsupported], False), n1)
      | (act, n1) \<Rightarrow> (case Write bs n1 of ((acts, ok), n2) \<Rightarrow> ((act # acts, ok), n2)))"

lemmas router_defs =
  maxConcurrentForwards_def maxConcurrentICMP_def createRoutingNet_def acquire_def release_def
  acquireICMP_def releaseICMP_def SetSubnets_def SetACLRules_def meshExclude_def prefix_bits_def
  shouldForward_def handleTCP_def handleUDP_def interceptICMPv4_def Write_packet_def

declare router_defs [go_eval]


section \<open>Lemmas\<close>

text \<open>The destinations that may leave through this host.\<close>

definition egress_ok :: "addr \<Rightarrow> RoutingNet \<Rightarrow> bool" where
  "egress_ok dst n \<longleftrightarrow>
     \<not> is_loopback dst \<and> \<not> is_unspecified dst \<and> \<not> is_link_local_unicast dst \<and> \<not> is_multicast dst
     \<and> \<not> prefix_contains meshExclude dst
     \<and> (\<exists>s \<in> set (rn_subnets n). prefix_contains s dst \<and> (is_private dst \<longrightarrow> prefix_bits s \<noteq> 0))"

lemma shouldForward_iff: "shouldForward dst n \<longleftrightarrow> egress_ok dst n"
  by (auto simp: shouldForward_def egress_ok_def list_ex_iff)

lemma acquire_cases:
  obtains "acquire n = (True, n\<lparr>rn_sem := rn_sem n + 1\<rparr>)" "rn_sem n < maxConcurrentForwards"
  | "acquire n = (False, n)"
  by (cases "rn_sem n < maxConcurrentForwards") (simp_all add: acquire_def)

lemma acquireICMP_cases:
  obtains "acquireICMP n = (True, n\<lparr>rn_icmpSem := rn_icmpSem n + 1\<rparr>)" "rn_icmpSem n < maxConcurrentICMP"
  | "acquireICMP n = (False, n)"
  by (cases "rn_icmpSem n < maxConcurrentICMP") (simp_all add: acquireICMP_def)

lemma handleTCP_dial:
  "handleTCP i ok n = (DialTCP a p, n') \<longleftrightarrow>
     ok \<and> (ci_LocalAddress i = rn_localAddr n \<or> egress_ok (ci_LocalAddress i) n)
     \<and> aclAllows (rn_aclRules n) (ci_RemoteAddress i) (ci_LocalAddress i) ''tcp'' (ci_LocalPort i)
     \<and> rn_sem n < maxConcurrentForwards \<and> n' = n\<lparr>rn_sem := rn_sem n + 1\<rparr> \<and> p = ci_LocalPort i
     \<and> a = (if ci_LocalAddress i = rn_localAddr n then V4 0x7f000001 else ci_LocalAddress i)"
  by (cases n rule: acquire_cases)
     (auto simp: handleTCP_def shouldForward_iff Let_def acquire_def split: if_splits)

lemma handleTCP_state: "handleTCP i ok n = (SendRST, n') \<Longrightarrow> n' = n"
  by (auto simp: handleTCP_def Let_def acquire_def release_def split: if_splits)

lemma handleUDP_dial:
  "handleUDP i ok n = (DialUDP a p, n') \<longleftrightarrow>
     ok \<and> egress_ok (ci_LocalAddress i) n
     \<and> aclAllows (rn_aclRules n) (ci_RemoteAddress i) (ci_LocalAddress i) ''udp'' (ci_LocalPort i)
     \<and> rn_sem n < maxConcurrentForwards \<and> n' = n\<lparr>rn_sem := rn_sem n + 1\<rparr> \<and> p = ci_LocalPort i
     \<and> a = ci_LocalAddress i"
  by (auto simp: handleUDP_def shouldForward_iff Let_def acquire_def split: if_splits)

lemma handleUDP_state: "handleUDP i ok n = (DropUDP, n') \<Longrightarrow> n' = n"
  by (auto simp: handleUDP_def Let_def acquire_def release_def split: if_splits)

lemma interceptICMPv4_ping:
  assumes "interceptICMPv4 pkt n = (Ping src dst m, n')"
  shows "egress_ok dst n" "aclAllows (rn_aclRules n) src dst ''icmp'' 0"
    "rn_icmpSem n < maxConcurrentICMP" "n' = n\<lparr>rn_icmpSem := rn_icmpSem n + 1\<rparr>"
    "src = V4 (be32 pkt 12)" "dst = V4 (be32 pkt 16)"
  using assms
  by (auto simp: interceptICMPv4_def shouldForward_iff Let_def acquireICMP_def split: if_splits)

lemma interceptICMPv4_state:
  "interceptICMPv4 pkt n = (act, n') \<Longrightarrow> \<forall>s d m. act \<noteq> Ping s d m \<Longrightarrow> n' = n"
  by (auto simp: interceptICMPv4_def Let_def acquireICMP_def split: if_splits)


section \<open>Concurrency\<close>

text \<open>The router with the numbers of proxied flows and of pings in flight. A flow ends by
  releasing its token, once.\<close>

type_synonym router_state = "RoutingNet \<times> nat \<times> nat"

inductive router_step :: "router_state \<Rightarrow> router_state \<Rightarrow> bool" where
  tcp_dial: "handleTCP i ok n = (DialTCP a p, n') \<Longrightarrow> router_step (n, f, g) (n', f + 1, g)"
| tcp_rst: "handleTCP i ok n = (SendRST, n') \<Longrightarrow> router_step (n, f, g) (n', f, g)"
| udp_dial: "handleUDP i ok n = (DialUDP a p, n') \<Longrightarrow> router_step (n, f, g) (n', f + 1, g)"
| udp_drop: "handleUDP i ok n = (DropUDP, n') \<Longrightarrow> router_step (n, f, g) (n', f, g)"
| ping: "interceptICMPv4 pkt n = (Ping s d m, n') \<Longrightarrow> router_step (n, f, g) (n', f, g + 1)"
| no_ping: "interceptICMPv4 pkt n = (act, n') \<Longrightarrow> \<forall>s d m. act \<noteq> Ping s d m \<Longrightarrow>
    router_step (n, f, g) (n', f, g)"
| flow_ends: "0 < f \<Longrightarrow> release n = Some n' \<Longrightarrow> router_step (n, f, g) (n', f - 1, g)"
| ping_ends: "0 < g \<Longrightarrow> releaseICMP n = Some n' \<Longrightarrow> router_step (n, f, g) (n', f, g - 1)"
| subnets: "router_step (n, f, g) (SetSubnets ps n, f, g)"
| rules: "router_step (n, f, g) (SetACLRules rs n, f, g)"

definition router_init :: "router_state \<Rightarrow> bool" where
  "router_init s \<longleftrightarrow> (\<exists>a. s = (createRoutingNet a, 0, 0))"

definition router_inv :: "router_state \<Rightarrow> bool" where
  "router_inv s \<longleftrightarrow>
     (case s of (n, f, g) \<Rightarrow> rn_sem n = f \<and> rn_icmpSem n = g \<and> f \<le> maxConcurrentForwards \<and> g \<le> maxConcurrentICMP)"

lemma router_inv_init: "router_init s \<Longrightarrow> router_inv s"
  by (auto simp: router_init_def router_inv_def createRoutingNet_def)

lemma router_inv_step: "router_step s t \<Longrightarrow> router_inv s \<Longrightarrow> router_inv t"
  by (induction rule: router_step.induct)
     (auto simp: router_inv_def handleTCP_dial handleUDP_dial release_def releaseICMP_def SetSubnets_def
       SetACLRules_def split: if_splits
       dest: handleTCP_state handleUDP_state interceptICMPv4_state interceptICMPv4_ping(3,4))

interpretation router: invariant_system router_init router_step router_inv
  by unfold_locales (fact router_inv_init router_inv_step)+



section \<open>Properties\<close>

definition example_router :: RoutingNet where
  "example_router =
     SetACLRules [\<lparr>ru_Id = [], ru_Name = [], ru_Src = ''100.64.0.0/10'', ru_Dst = ''192.168.0.0/16'',
        ru_Protocol = ''TCP'', ru_Port = 22, ru_Action = ''allow'', ru_Enabled = True, ru_Priority = 1\<rparr>]
       (SetSubnets [Prefix (V4 3232235776) 24] (createRoutingNet (V4 1681915906)))"

definition example_conn :: conn_id where
  "example_conn =
     \<lparr>ci_RemoteAddress = V4 1681915905, ci_LocalAddress = V4 3232235777, ci_LocalPort = 22\<rparr>"

lemma example_dial:
  "handleTCP example_conn True example_router =
     (DialTCP (V4 3232235777) 22, snd (handleTCP example_conn True example_router))"
proof -
  have "fst (handleTCP example_conn True example_router) = DialTCP (V4 3232235777) 22"
    by (simp add: example_conn_def example_router_def go_eval)
  then show ?thesis by (metis prod.collapse)
qed



text \<open>Forwarding is bounded and tokens are not lost: in every state the router can reach, the
  number of proxied flows is the number of tokens taken and at most 1024, the number of pings in
  flight is likewise at most 64, and a flow or ping that ends can always return its token.\<close>

theorem router_concurrency_bounded:
  assumes "reach router_init router_step (n, f, g)"
  shows "f \<le> 1024 \<and> g \<le> 64 \<and> rn_sem n = f \<and> rn_icmpSem n = g
    \<and> (f > 0 \<longrightarrow> release n \<noteq> None) \<and> (g > 0 \<longrightarrow> releaseICMP n \<noteq> None)"
  using router.reachable_inv [OF assms]
  by (auto simp: router_inv_def maxConcurrentForwards_def maxConcurrentICMP_def release_def releaseICMP_def)

theorem router_concurrency_bounded_witness:
  "rn_sem (snd (handleTCP example_conn True example_router)) = 1"
proof -
  have "router_step (createRoutingNet (V4 1681915906), 0, 0)
      (SetSubnets [Prefix (V4 3232235776) 24] (createRoutingNet (V4 1681915906)), 0, 0)"
    by (rule subnets)
  moreover have "router_step (SetSubnets [Prefix (V4 3232235776) 24] (createRoutingNet (V4 1681915906)), 0, 0)
      (example_router, 0, 0)"
    unfolding example_router_def by (rule rules)
  moreover have "router_step (example_router, 0, 0) (snd (handleTCP example_conn True example_router), 0 + 1, 0)"
    by (rule tcp_dial) (rule example_dial)
  moreover have "router_init (createRoutingNet (V4 1681915906), 0, 0)" by (auto simp: router_init_def)
  ultimately have "reach router_init router_step (snd (handleTCP example_conn True example_router), 0 + 1, 0)"
    by (meson reach.intros)
  from router_concurrency_bounded [OF this] show ?thesis by simp
qed

end
