(* ===== verification/Conntrack.thy ===== *)
theory Conntrack
  imports Acl
begin

text \<open>
  The stateful packet filter of Windows peers: the table of flows the host started
  (\<^verbatim>\<open>client/internal/wgmgr/conntrack.go\<close>), the wrapper around the tunnel device
  (\<^verbatim>\<open>client/internal/wgmgr/aclfilter_windows.go\<close>) and the registry that connects it to the engine
  (\<^verbatim>\<open>client/internal/acl/acl_windows.go\<close>). Buffers are the packets after the offset; one clock
  reading serves a batch. The addresses of the interfaces are an argument, absent when the
  system cannot list them.
\<close>

section \<open>Flows\<close>

record flowKey =
  fk_proto :: byte
  fk_src :: addr
  fk_dst :: addr
  fk_sport :: u16
  fk_dport :: u16

definition reverse :: "flowKey \<Rightarrow> flowKey" where
  "reverse k =
     \<lparr>fk_proto = fk_proto k, fk_src = fk_dst k, fk_dst = fk_src k, fk_sport = fk_dport k,
      fk_dport = fk_sport k\<rparr>"

definition parseFlowKey :: "byte list \<Rightarrow> flowKey option" where
  "parseFlowKey pkt =
     (if length pkt < 20 \<or> ip_version pkt \<noteq> 4 then None
      else
        (let ihl = header_len pkt in
         if ihl < 20 \<or> length pkt < ihl then None
         else
           (let src = V4 (be32 pkt 12); dst = V4 (be32 pkt 16); proto = pkt ! 9 in
            if proto = 6 \<or> proto = 17 then
              (if length pkt < ihl + 4 then None
               else Some \<lparr>fk_proto = proto, fk_src = src, fk_dst = dst, fk_sport = be16 pkt ihl,
                          fk_dport = be16 pkt (ihl + 2)\<rparr>)
            else if proto = 1 then
              (if length pkt < ihl + 6 then None
               else if pkt ! ihl \<noteq> 8 \<and> pkt ! ihl \<noteq> 0 then None
               else
                 (let i = be16 pkt (ihl + 4) in
                  Some \<lparr>fk_proto = proto, fk_src = src, fk_dst = dst, fk_sport = i, fk_dport = i\<rparr>))
            else None)))"

definition conntrackTTL :: duration where "conntrackTTL = 2 * minute"
definition conntrackMax :: nat where "conntrackMax = 8192"

type_synonym conntrack = "(flowKey, gtime) gomap"

definition newConntrack :: conntrack where "newConntrack = []"

definition observeOutbound :: "gtime \<Rightarrow> byte list \<Rightarrow> conntrack \<Rightarrow> conntrack" where
  "observeOutbound now pkt c =
     (case parseFlowKey pkt of
        None \<Rightarrow> c
      | Some k \<Rightarrow> go_put (reverse k) now (if conntrackMax \<le> length c then [] else c))"

definition allowInbound :: "gtime \<Rightarrow> byte list \<Rightarrow> conntrack \<Rightarrow> bool \<times> conntrack" where
  "allowInbound now pkt c =
     (case parseFlowKey pkt of
        None \<Rightarrow> (False, c)
      | Some k \<Rightarrow>
          (case go_get c k of
             None \<Rightarrow> (False, c)
           | Some seen \<Rightarrow> if time_sub now seen > conntrackTTL then (False, go_del k c) else (True, c)))"


section \<open>The filter\<close>

record aclFilterTUN =
  ft_rules :: "pb_Rule list"
  ft_rulesSet :: bool
  ft_localCache :: "addr set option"
  ft_localAt :: gtime
  ft_ct :: conntrack

definition newACLFilterTUN :: aclFilterTUN where
  "newACLFilterTUN =
     \<lparr>ft_rules = [], ft_rulesSet = False, ft_localCache = None, ft_localAt = 0, ft_ct = newConntrack\<rparr>"

definition Read_filter :: "gtime \<Rightarrow> byte list list \<Rightarrow> aclFilterTUN \<Rightarrow> aclFilterTUN" where
  "Read_filter now pkts f =
     (if \<not> ft_rulesSet f then f
      else f\<lparr>ft_ct := fold (\<lambda>p c. if p = [] then c else observeOutbound now p c) pkts (ft_ct f)\<rparr>)"

definition SetRules :: "pb_Rule list \<Rightarrow> aclFilterTUN \<Rightarrow> aclFilterTUN" where
  "SetRules rules f = f\<lparr>ft_rules := rules, ft_rulesSet := True\<rparr>"

definition ClearRules :: "aclFilterTUN \<Rightarrow> aclFilterTUN" where
  "ClearRules f = f\<lparr>ft_rules := [], ft_rulesSet := False\<rparr>"

definition localAddrsTTL :: duration where "localAddrsTTL = 10 * second"

definition localAddrs :: "gtime \<Rightarrow> addr list option \<Rightarrow> aclFilterTUN \<Rightarrow> addr set \<times> aclFilterTUN" where
  "localAddrs now ifaddrs f =
     (case ft_localCache f of
        Some cached \<Rightarrow>
          if time_sub now (ft_localAt f) < localAddrsTTL then (cached, f)
          else (case ifaddrs of
                  None \<Rightarrow> ({}, f)
                | Some l \<Rightarrow>
                    (let s = set (List.map_filter (\<lambda>a. map_option V4 (to4 a)) l)
                     in (s, f\<lparr>ft_localCache := Some s, ft_localAt := now\<rparr>)))
      | None \<Rightarrow>
          (case ifaddrs of
             None \<Rightarrow> ({}, f)
           | Some l \<Rightarrow>
               (let s = set (List.map_filter (\<lambda>a. map_option V4 (to4 a)) l)
                in (s, f\<lparr>ft_localCache := Some s, ft_localAt := now\<rparr>))))"

text \<open>The loop of \<^verbatim>\<open>Write\<close> over a batch: the packets that are let through, and the table.\<close>

fun write_loop ::
  "gtime \<Rightarrow> pb_Rule list \<Rightarrow> addr set \<Rightarrow> byte list list \<Rightarrow> conntrack \<Rightarrow> byte list list \<times> conntrack" where
  "write_loop now rules locals [] c = ([], c)"
| "write_loop now rules locals (b # bs) c =
     (if b = [] then write_loop now rules locals bs c
      else
        (let (reply, c1) = allowInbound now b c;
             (rest, c2) = write_loop now rules locals bs c1
         in (if reply \<or> aclFilterAllowsFor b rules locals then b # rest else rest, c2)))"

definition Write_filter ::
  "gtime \<Rightarrow> addr list option \<Rightarrow> byte list list \<Rightarrow> aclFilterTUN \<Rightarrow> byte list list \<times> aclFilterTUN" where
  "Write_filter now ifaddrs bufs f =
     (if \<not> ft_rulesSet f then (bufs, f)
      else
        (let (locals, f1) = localAddrs now ifaddrs f;
             (allowed, c) = write_loop now (ft_rules f) locals bufs (ft_ct f1)
         in (allowed, f1\<lparr>ft_ct := c\<rparr>)))"


section \<open>The registry\<close>

type_synonym filters = "(string, aclFilterTUN) gomap"

definition RegisterFilter :: "string \<Rightarrow> aclFilterTUN \<Rightarrow> filters \<Rightarrow> filters" where
  "RegisterFilter iface f fs = go_put iface f fs"

definition UnregisterFilter :: "string \<Rightarrow> filters \<Rightarrow> filters" where
  "UnregisterFilter iface fs = go_del iface fs"

definition ApplyRules_windows :: "pb_Rule list \<Rightarrow> string \<Rightarrow> filters \<Rightarrow> filters option" where
  "ApplyRules_windows rules iface fs =
     (case go_get fs iface of None \<Rightarrow> None | Some f \<Rightarrow> Some (go_put iface (SetRules rules f) fs))"

definition RemoveChain_windows :: "string \<Rightarrow> filters \<Rightarrow> filters" where
  "RemoveChain_windows iface fs =
     (case go_get fs iface of None \<Rightarrow> fs | Some f \<Rightarrow> go_put iface (ClearRules f) fs)"

lemmas filter_defs =
  reverse_def parseFlowKey_def conntrackTTL_def conntrackMax_def newConntrack_def
  observeOutbound_def allowInbound_def newACLFilterTUN_def Read_filter_def SetRules_def
  ClearRules_def localAddrsTTL_def localAddrs_def Write_filter_def RegisterFilter_def
  UnregisterFilter_def ApplyRules_windows_def RemoveChain_windows_def

declare filter_defs [go_eval] write_loop.simps [go_eval]


section \<open>Lemmas\<close>

lemma reverse_reverse [simp]: "reverse (reverse k) = k"
  by (simp add: reverse_def)

text \<open>Admitting is a matter of the clock and the table; an expired entry that was removed would
  not have admitted anything at the same time.\<close>

lemma allowInbound_stable:
  "go_wf c \<Longrightarrow> fst (allowInbound now q (snd (allowInbound now p c))) = fst (allowInbound now q c)"
  by (auto simp: allowInbound_def go_get_del split: option.splits)

lemma allowInbound_wf: "go_wf c \<Longrightarrow> go_wf (snd (allowInbound now p c))"
  by (auto simp: allowInbound_def split: option.splits)

lemma write_loop_filter:
  "go_wf c \<Longrightarrow> fst (write_loop now rules locals bufs c) =
     filter (\<lambda>p. p \<noteq> [] \<and> (fst (allowInbound now p c) \<or> aclFilterAllowsFor p rules locals)) bufs"
proof (induction now rules locals bufs c rule: write_loop.induct)
  case (2 now rules locals b bs c)
  show ?case
  proof (cases "b = []")
    case False
    obtain reply c1 where a: "allowInbound now b c = (reply, c1)" by force
    then have "fst (allowInbound now p c1) = fst (allowInbound now p c)" for p
      using allowInbound_stable [OF "2.prems", of now p b] by simp
    moreover have "go_wf c1" using allowInbound_wf [OF "2.prems", of now b] a by simp
    ultimately show ?thesis
      using "2.IH"(2) [OF False a [symmetric] refl] False a by (simp add: split_def)
  qed (use 2 in simp)
qed simp

text \<open>The table only holds what was sent, with the time it was last sent.\<close>

datatype ct_event = Sent gtime "byte list" | Received gtime "byte list"

fun ct_run :: "ct_event list \<Rightarrow> conntrack \<Rightarrow> conntrack" where
  "ct_run [] c = c"
| "ct_run (Sent t p # es) c = ct_run es (observeOutbound t p c)"
| "ct_run (Received t p # es) c = ct_run es (snd (allowInbound t p c))"

lemma ct_run_append: "ct_run (es @ fs) c = ct_run fs (ct_run es c)"
  by (induction es c rule: ct_run.induct) auto

lemma ct_run_sent:
  "go_get (ct_run es newConntrack) k = Some t \<Longrightarrow>
     \<exists>p k'. Sent t p \<in> set es \<and> parseFlowKey p = Some k' \<and> k = reverse k'"
proof (induction es rule: rev_induct)
  case (snoc e es)
  then show ?case
    by (cases e)
       (auto simp: ct_run_append observeOutbound_def allowInbound_def go_get_put go_get_del
         split: option.splits if_splits)
qed (simp add: newConntrack_def)

lemma length_go_del_le: "length (go_del k m) \<le> length m"
  by (simp add: go_del_def AList.delete_eq)

lemma ct_run_bounded: "length (ct_run es newConntrack) \<le> conntrackMax"
proof (induction es rule: rev_induct)
  case (snoc e es)
  let ?c = "ct_run es newConntrack"
  show ?case
  proof (cases e)
    case (Sent t p)
    have "length (observeOutbound t p ?c) \<le> conntrackMax"
    proof (cases "parseFlowKey p")
      case None
      with snoc show ?thesis by (simp add: observeOutbound_def)
    next
      case (Some k)
      with snoc length_go_put_le [of "reverse k" t ?c] length_go_put_le [of "reverse k" t "[]"]
      show ?thesis by (simp add: observeOutbound_def conntrackMax_def)
    qed
    with Sent show ?thesis by (simp add: ct_run_append)
  next
    case (Received t p)
    then show ?thesis
      using snoc length_go_del_le [of _ ?c]
      by (auto simp: ct_run_append allowInbound_def split: option.splits intro: order_trans)
  qed
qed (simp add: newConntrack_def conntrackMax_def)

lemma ct_run_wf: "go_wf (ct_run es newConntrack)"
proof (induction es rule: rev_induct)
  case (snoc e es)
  then show ?case
    by (cases e) (auto simp: ct_run_append observeOutbound_def allowInbound_wf split: option.splits)
qed (simp add: newConntrack_def)


section \<open>Properties\<close>

text \<open>C36. Only replies get past the policy: whatever was sent and received before, a packet is
  admitted without a rule only if the host itself sent a packet of the reverse flow no more
  than two minutes ago, and the table never holds more than 8192 flows.\<close>

theorem conntrack_admits_only_replies:
  assumes "fst (allowInbound now pkt (ct_run es newConntrack))"
  shows "(\<exists>t p k. Sent t p \<in> set es \<and> parseFlowKey p = Some k \<and> parseFlowKey pkt = Some (reverse k)
      \<and> time_sub now t \<le> 2 * minute)
    \<and> length (ct_run es newConntrack) \<le> 8192"
proof -
  obtain k t where k: "parseFlowKey pkt = Some k" "go_get (ct_run es newConntrack) k = Some t"
    and t: "time_sub now t \<le> 2 * minute"
    using assms by (auto simp: allowInbound_def conntrackTTL_def not_less split: option.splits if_splits)
  from ct_run_sent [OF k(2)] obtain p k' where "Sent t p \<in> set es" "parseFlowKey p = Some k'" "k = reverse k'"
    by blast
  with k(1) t show ?thesis using ct_run_bounded [of es] by (auto simp: conntrackMax_def)
qed

text \<open>Packet number 9 is UDP from 100.64.0.1 port 1 to 8.8.8.8 port 53, and its reply.\<close>

definition example_out :: "byte list" where
  "example_out = [0x45, 0, 0, 28, 0, 0, 0, 0, 64, 17, 0, 0, 100, 64, 0, 1, 8, 8, 8, 8, 0, 1, 0, 53, 0, 8, 0, 0]"

definition example_in :: "byte list" where
  "example_in = [0x45, 0, 0, 28, 0, 0, 0, 0, 64, 17, 0, 0, 8, 8, 8, 8, 100, 64, 0, 1, 0, 53, 0, 1, 0, 8, 0, 0]"

theorem conntrack_admits_only_replies_witness:
  "\<exists>t p k. Sent t p \<in> set [Sent 5 example_out] \<and> parseFlowKey p = Some k \<and> parseFlowKey example_in = Some (reverse k)
     \<and> time_sub (60 * second) t \<le> 2 * minute"
proof -
  have "fst (allowInbound (60 * second) example_in (ct_run [Sent 5 example_out] newConntrack))"
    by (simp add: example_out_def example_in_def go_eval time_sub_def time_defs)
  from conntrack_admits_only_replies [OF this] show ?thesis by blast
qed

text \<open>The filter delivers exactly what it should: once a policy is installed, a batch is cut down
  to the packets that are replies to tracked flows or that the policy allows, in order; before
  that everything passes.\<close>

theorem Write_filter_exact:
  assumes "go_wf (ft_ct f)"
  shows "fst (Write_filter now ifaddrs bufs f) =
    (if \<not> ft_rulesSet f then bufs
     else filter (\<lambda>p. p \<noteq> [] \<and> (fst (allowInbound now p (ft_ct f))
        \<or> aclFilterAllowsFor p (ft_rules f) (fst (localAddrs now ifaddrs f)))) bufs)"
proof -
  obtain locals f1 where l: "localAddrs now ifaddrs f = (locals, f1)" by force
  then have "ft_ct f1 = ft_ct f" by (auto simp: localAddrs_def Let_def split: option.splits if_splits)
  then show ?thesis
    using l write_loop_filter [OF assms] by (simp add: Write_filter_def split_def)
qed

theorem Write_filter_exact_witness:
  "fst (Write_filter (60 * second) None [example_in, example_out]
     (Read_filter 5 [example_out] (SetRules [] newACLFilterTUN))) = [example_in]"
proof -
  let ?f = "Read_filter 5 [example_out] (SetRules [] newACLFilterTUN)"
  have "go_wf (ft_ct ?f)"
    by (simp add: Read_filter_def SetRules_def newACLFilterTUN_def newConntrack_def observeOutbound_def
        conntrackMax_def split: option.splits)
  moreover have "allowInbound (60 * second) example_in (ft_ct ?f) = (True, ft_ct ?f)"
    "allowInbound (60 * second) example_out (ft_ct ?f) = (False, ft_ct ?f)"
    "ft_rules ?f = []" "ft_rulesSet ?f" "fst (localAddrs (60 * second) None ?f) = {}"
    "\<not> aclFilterAllowsFor example_out [] {}" "example_in \<noteq> []"
    by (simp_all add: example_out_def example_in_def go_eval time_sub_def time_defs)
  ultimately show ?thesis
    using Write_filter_exact [of ?f "60 * second" None "[example_in, example_out]"]
    by simp
qed

end
