(* ===== verification/Spec2Isabelle.thy ===== *)
theory Spec2Isabelle
  imports Mgmt_System Store_Postgres Agent_Routes Agent_Trust Ice_Manager Acl_Linux Netstack_Router Conntrack
begin

text \<open>
  \<^bold>\<open>Bline-X\<close>, a WireGuard mesh VPN: a management server that enrols devices and tells each of them its
  peers, routes and access rules; a signal server that carries negotiation messages and relayed
  packets; and an agent on every device. Paths are relative to \<^verbatim>\<open>src/\<close>.

  \<^bold>\<open>How the program is modelled.\<close> A Go string is a \<^typ>\<open>string\<close> of bytes, a Go map an association list
  (\<open>gomap\<close>, with \<open>go_get\<close>, \<open>go_put\<close>, \<open>go_del\<close>), a struct a record, an \<^verbatim>\<open>int32\<close> or \<^verbatim>\<open>uint32\<close> keeps its
  width, a time is an integer number of nanoseconds with Go's saturating subtraction. The clock,
  random identifiers, the outcomes of network and operating-system calls and the choices of
  \<^verbatim>\<open>select\<close> are arguments. A failure is a value of a sum or option type, one per branch of the code.
  A loop over a stream is a step per iteration; components that run on are inductive step relations
  with an invariant, proved by interpreting the locale \<open>invariant_system\<close> of the prelude.

  \<^bold>\<open>Shared theories.\<close>
  \<^item> \<open>Blinex_Prelude\<close>: Go maps, strings, time, reachability.
  \<^item> \<open>Net_Addr\<close>: \<^verbatim>\<open>netip\<close> and \<^verbatim>\<open>net\<close> parsing, prefixes, address classes; printing and parsing round trips.
  \<^item> \<open>Domain\<close>: \<^verbatim>\<open>management/internal/domain\<close> and the protobuf messages; \<open>ToDNSLabel\<close>.

  \<^bold>\<open>Management server\<close> (\<^verbatim>\<open>management/\<close>).
  \<^item> \<open>Store_Api\<close>: the store interface as a record with the laws \<open>store_laws\<close>; the in-memory store
    discharges them. Peers are shared pointers, so an assignment to a looked-up peer is visible.
  \<^item> \<open>Store_Postgres\<close>: the store on a database, whose library is a parameter with laws; it keeps the same
    contract, so statements proved from the contract hold for both stores; data migration at the start.
  \<^item> \<open>Ipam\<close>: address allocation on 32-bit words; addresses are exclusive and inside the network.
  \<^item> \<open>Rate_Limit\<close>: the token bucket of the login; a bound for every window.
  \<^item> \<open>Mgmt_Auth\<close>: tokens, revocation and the gRPC interceptors; the JWT library is a parameter.
  \<^item> \<open>Blocklist\<close>: the domain feed; equal versions mean equal sets.
  \<^item> \<open>Mgmt_Grpc\<close>, \<open>Mgmt_Session\<close>: every RPC of the gRPC service; no take-over of a key, tokens open their
    own stream only, updates stay inside the account, subscriptions and group rules.
  \<^item> \<open>Http_Api\<close>, \<open>Http_Edits\<close>, \<open>Http_Security\<close>: the dashboard API, an abstract relation of the edits each
    handler may make, and tenant isolation, roles, lock-out and route checks on top of it.
  \<^item> \<open>Mgmt_System\<close>: configuration, start-up and all of the server as one step relation with the
    invariant \<open>mgmt_inv\<close>.

  \<^bold>\<open>Signal server\<close> (\<^verbatim>\<open>signal/\<close>).
  \<^item> \<open>Signal_Auth\<close>: HS256 verification with base64 written out.
  \<^item> \<open>Signal_Server\<close>: registration, routing and held signalling; nobody is impersonated.

  \<^bold>\<open>Agent\<close> (\<^verbatim>\<open>client/\<close>).
  \<^item> \<open>Acl\<close>, \<open>Acl_Linux\<close>: rule evaluation in the router and the Windows filter, the iptables chain; the
    three enforce one policy (locales \<open>first_match\<close> and \<open>same_policy\<close>).
  \<^item> \<open>Netstack_Router\<close>: what the userspace router dials, and how many connections it holds.
  \<^item> \<open>Conntrack\<close>: connection tracking and the Windows packet filter.
  \<^item> \<open>Dns_Resolver\<close>: mesh names, blocked names, forwarding.
  \<^item> \<open>Peer_Link\<close>: promotion and demotion of a direct path.
  \<^item> \<open>Wg_Peers\<close>: signal client, relay connection, the bind that WireGuard sends through and the
    configuration texts; the device is a parameter with the laws \<open>wg_uapi\<close>.
  \<^item> \<open>Agent_Engine\<close>: the engine, which turns updates into commands, and the set of known peers.
  \<^item> \<open>Agent_Paths\<close>: the invariant \<open>agent_inv\<close> of the reachable engine states; every known peer has a
    path that the bind uses.
  \<^item> \<open>Agent_Device\<close>: the WireGuard device behind the log of commands. After any run of updates its peers are
    those of the last update; withdrawn networks stay, and the choice of an exit node has no effect on
    the device. A reference device discharges the laws \<open>wg_uapi\<close>.
  \<^item> \<open>Agent_Routes\<close>: operating-system routes and the exit node; enrolment with retries.
  \<^item> \<open>Agent_Trust\<close>: configuration, state file and pinned server certificates.
  \<^item> \<open>Ice_Manager\<close>: negotiation of direct connections as interleaved goroutines with the invariant \<open>ice_inv\<close>;
    one negotiation per peer, the window in which a closing breaks this, and the exchange between two
    managers.

  \<^bold>\<open>Across components\<close> (this theory). Four statements follow one thing from end to end: the domains of the
  feed through the server (\<open>Run\<close>, \<open>GetBlocklist\<close>) and the polls of an agent (\<open>fetch_blocklist\<close>) to the
  answers of its resolver; the rules stored by the dashboard through \<open>sync_message\<close> to the iptables
  chain of a device; the address of a device over a restart of the server on its database; and a
  packet from the bind of one agent through the signal server to the bind of another.

  \<^bold>\<open>Bounds.\<close> No fuel is used: every loop of the model is structural or runs over a given list of
  outcomes, and \<open>v6_loop\<close> counts the eight groups of an IPv6 address. The statement on paths is limited
  to 65536 paths, the number of distinct relay endpoints the code can make.

  \<^bold>\<open>Not modelled.\<close> Generated protobuf code, the dashboard (TypeScript), connecting to the database and
  changes of its schema, TLS libraries and listeners, the TURN relay process, the ICE library behind
  \<^verbatim>\<open>client/internal/ice\<close> (the manager around it is modelled), creation of TUN devices, operating-system
  DNS and route commands of \<^verbatim>\<open>dnsconfig\<close> and \<^verbatim>\<open>routing\<close>, services, installers and command-line entry
  points: they are input and output, or calls into libraries whose source is not part of the
  repository. Files and their JSON decoding are arguments of the definitions that use them. What the
  rest of the program relies on enters as an argument or a named hypothesis.
\<close>

section \<open>Domain filter: from the feed to the device\<close>

text \<open>One poll of an agent against the server, which has seen the outcomes \<open>resps\<close> of the feed so far;
  the answer may be lost.\<close>

definition poll_round ::
  "(string \<Rightarrow> string) \<Rightarrow> string \<Rightarrow> Claims option \<Rightarrow> string \<Rightarrow> 'st Server
   \<Rightarrow> (nat \<times> string) option list \<times> bool \<Rightarrow> string \<times> Resolver \<Rightarrow> string \<times> Resolver" where
  "poll_round sha url cl key s = (\<lambda>(resps, lost) st.
     fetch_blocklist
       (if lost then None
        else case GetBlocklist cl key (fst st) (s\<lparr>sv_blocklist := Some (Run sha url resps NewStore)\<rparr>) of
               Inl _ \<Rightarrow> None | Inr r \<Rightarrow> Some r) st)"

definition feed_text :: "string list \<Rightarrow> string" where
  "feed_text ds = concat (map (\<lambda>d. d @ [newline]) (sort ds))"

definition feeds :: "((nat \<times> string) option list \<times> bool) list \<Rightarrow> string list set" where
  "feeds polls = {ds. \<exists>x \<in> set polls. Some ds \<in> fetch ` set (fst x)}"

lemma SetBlocklist_twice [simp]: "SetBlocklist ds (SetBlocklist es r) = SetBlocklist ds r"
  by (simp add: SetBlocklist_def)

lemma feeds_parse: "ds \<in> feeds polls \<Longrightarrow> \<exists>body. parse body = Some ds"
  by (auto simp: feeds_def fetch_def split: option.splits if_splits)

lemma last_good_feed:
  "List.map_filter fetch (rev resps) = ds # older \<Longrightarrow> (resps, lost) \<in> set polls \<Longrightarrow> ds \<in> feeds polls"
proof -
  assume a: "List.map_filter fetch (rev resps) = ds # older" and p: "(resps, lost) \<in> set polls"
  have "ds \<in> set (List.map_filter fetch (rev resps))" by (simp add: a)
  then obtain r where "r \<in> set resps" "fetch r = Some ds" by (force simp: List.map_filter_def)
  then show ?thesis using p unfolding feeds_def by force
qed

lemma poll_round_cases:
  assumes "sf = poll_round sha url cl key s (resps, lost) st"
  shows "sf = st \<or> (\<exists>ds older. List.map_filter fetch (rev resps) = ds # older
    \<and> sf = (hashDomains sha ds, SetBlocklist ds (snd st)))"
proof -
  have "Snapshot (Run sha url resps NewStore) = ([], []) \<or>
      (\<exists>ds older. List.map_filter fetch (rev resps) = ds # older
        \<and> Snapshot (Run sha url resps NewStore) = (ds, hashDomains sha ds))"
    by (simp add: Run_serves_last_good split: list.splits)
  then show ?thesis
    using assms by (cases st) (auto simp: poll_round_def fetch_blocklist_def GetBlocklist_def Let_def split: if_splits)
qed

text \<open>After any polls the resolver has the domains of one of the feeds and knows its version.\<close>

lemma polled:
  assumes "set hist \<subseteq> set polls"
  shows "fold (poll_round sha url cl key s) hist ([], dns) = ([], dns) \<or>
    (\<exists>ds \<in> feeds polls. fold (poll_round sha url cl key s) hist ([], dns) = (hashDomains sha ds, SetBlocklist ds dns))"
  using assms
proof (induction hist rule: rev_induct)
  case (snoc x hist)
  obtain resps lost where x: "x = (resps, lost)" by (cases x)
  let ?st = "fold (poll_round sha url cl key s) hist ([], dns)"
  have st: "?st = ([], dns) \<or> (\<exists>ds \<in> feeds polls. ?st = (hashDomains sha ds, SetBlocklist ds dns))"
    using snoc by simp
  have f: "ds \<in> feeds polls" if "List.map_filter fetch (rev resps) = ds # older" for ds older
    by (rule last_good_feed [OF that]) (use snoc.prems x in auto)
  from poll_round_cases [OF refl, of sha url cl key s resps lost ?st]
  show ?case
  proof
    assume "poll_round sha url cl key s (resps, lost) ?st = ?st"
    then show ?thesis using st by (simp add: x)
  next
    assume "\<exists>ds older. List.map_filter fetch (rev resps) = ds # older
      \<and> poll_round sha url cl key s (resps, lost) ?st = (hashDomains sha ds, SetBlocklist ds (snd ?st))"
    then obtain ds older where "List.map_filter fetch (rev resps) = ds # older"
      "poll_round sha url cl key s (resps, lost) ?st = (hashDomains sha ds, SetBlocklist ds (snd ?st))" by blast
    moreover have "SetBlocklist ds (snd ?st) = SetBlocklist ds dns" using st by auto
    ultimately show ?thesis using f by (auto simp: x)
  qed
qed simp

text \<open>C8. What the feed blocks is blocked on the devices: whatever an agent polled before, and whichever
  answers were lost, after one poll that is answered its resolver blocks exactly the domains of the
  last feed the server could read, and their subdomains. The version that saves the transfer never
  hides a change, as long as the hash does not collide on the feeds seen.\<close>

theorem feed_blocks_on_devices:
  assumes "url \<noteq> []" "List.map_filter fetch (rev resps) = ds # older"
    "key \<noteq> []" "case cl of None \<Rightarrow> True | Some c \<Rightarrow> cl_WGPubKey c = key"
    "\<And>x. sha x \<noteq> []" "inj_on sha (feed_text ` feeds (polls @ [(resps, False)]))"
    "st = fold (poll_round sha url cl key s) (polls @ [(resps, False)]) ([], dns)"
    "unpack raw = Some msg" "dm_Questions msg = q # qs"
    "to_lower (q_Name q) = n @ ''.''" "go_get (rs_records dns) (n @ ''.'') = None"
  shows "handle unpack pack exchange raw (snd st) =
    (if \<exists>d \<in> set ds. normal_domain d \<noteq> [] \<and> under n (normal_domain d)
     then respondCode pack msg RCodeNameError else forward pack exchange raw msg dns)"
proof -
  let ?all = "polls @ [(resps, False)]"
  let ?old = "fold (poll_round sha url cl key s) polls ([], dns)"
  have ds: "ds \<in> feeds ?all" using last_good_feed [OF assms(2), of False ?all] by simp
  have v: "hashDomains sha x \<noteq> []" for x using assms(5) by (simp add: hashDomains_def)
  have snap: "Snapshot (Run sha url resps NewStore) = (ds, hashDomains sha ds)"
    using assms(1,2) by (simp add: Run_serves_last_good)
  have st: "st = (if fst ?old = hashDomains sha ds then ?old else (hashDomains sha ds, SetBlocklist ds (snd ?old)))"
    using assms(3,4,7) v snap
    by (cases ?old) (auto simp: poll_round_def fetch_blocklist_def GetBlocklist_def Let_def split: option.splits)
  have old: "?old = ([], dns) \<or> (\<exists>es \<in> feeds ?all. ?old = (hashDomains sha es, SetBlocklist es dns))"
    by (rule polled) auto
  have "\<exists>es. set es = set ds \<and> snd st = SetBlocklist es dns"
  proof (cases "fst ?old = hashDomains sha ds")
    case True
    then have "?old \<noteq> ([], dns)" using v [of ds] by auto
    with old obtain es where es: "es \<in> feeds ?all" "?old = (hashDomains sha es, SetBlocklist es dns)" by blast
    obtain b b' where p: "parse b = Some es" "parse b' = Some ds" using feeds_parse es(1) ds by blast
    have "set es = set ds"
    proof (rule version_identifies_domains [OF p, THEN iffD1])
      show "hashDomains sha es = hashDomains sha ds" using True es(2) by simp
      show "m = m'" if "m = concat (map (\<lambda>d. d @ [newline]) (sort es))"
        "m' = concat (map (\<lambda>d. d @ [newline]) (sort ds))" "sha m = sha m'" for m m'
        using that es(1) ds inj_onD [OF assms(6), of m m'] by (auto simp: feed_text_def)
    qed
    then show ?thesis using es(2) True st by auto
  next
    case False
    then show ?thesis using st old by auto
  qed
  then obtain es where "set es = set ds" "snd st = SetBlocklist es dns" by blast
  then show ?thesis
    using handle_blocks_exactly [of unpack raw msg q qs n dns pack exchange es, OF assms(8-11)] by simp
qed

theorem feed_blocks_on_devices_witness:
  "handle (\<lambda>n. Some (example_query n)) show_reply (\<lambda>_ _. None) ''A.Evil.Example.''
     (snd (fold (poll_round ((@) ''v'') ''https://feed'' None ''k1'' (hs_grpc example_running))
        ([([Some (200, ''old.example'')], False), ([], True)] @ [([Some (200, ''0.0.0.0 evil.example''), None], False)])
        ([], New_Resolver ''blinex'' ''8.8.8.8:53''))) = Some ''NXDOMAIN''"
proof -
  have m: "List.map_filter fetch (rev [Some (200, ''0.0.0.0 evil.example''), None]) = [[''evil.example'']]"
    by (simp add: List.map_filter_def go_eval)
  have low: "to_lower ''A.Evil.Example.'' = ''a.evil.example'' @ ''.''" "normal_domain ''evil.example'' = ''evil.example''"
    by (simp_all add: go_eval)
  have u: "under ''a.evil.example'' ''evil.example''"
    unfolding under_def by (intro disjI2 exI [of _ "''a''"]) simp
  show ?thesis
    by (subst feed_blocks_on_devices [OF _ m _ _ _ _ refl, where n = "''a.evil.example''" and qs = "[]"
        and msg = "example_query ''A.Evil.Example.''"
        and q = "\<lparr>q_Name = ''A.Evil.Example.'', q_Type = TypeA\<rparr>"])
      (use low u in \<open>simp_all add: inj_on_def example_query_def New_Resolver_def show_reply_def respondCode_def\<close>)
qed


section \<open>Restart of the management server\<close>

text \<open>The start with a database (\<^verbatim>\<open>management/cmd/server/main.go\<close>).\<close>

definition start_pg :: "gorm \<Rightarrow> gtime \<Rightarrow> string \<Rightarrow> Config \<Rightarrow> pg_store \<Rightarrow> pg_store http_Server option" where
  "start_pg g now version cfg s =
     (if cf_DatabaseURL cfg = [] then None
      else (case pg_New g s of
              None \<Rightarrow> None
            | Some s1 \<Rightarrow>
                (case Seed g now ''default'' (cf_DefaultKey cfg) s1 of
                   None \<Rightarrow> None
                 | Some s2 \<Rightarrow> start_servers (pg_ops g) now version cfg s2)))"



section \<open>Access rules: from the dashboard to the kernel\<close>

lemma sent_rules_valid:
  assumes "mgmt_inv g" "sync_message mem_ops now a k g = Some m"
  shows "\<forall>r \<in> set (sr_Rules m). rule_valid r"
proof
  fix r assume "r \<in> set (sr_Rules m)"
  then obtain q s d where q: "q \<in> set (go_values (ms_rules (sv_store g)))" "r = rule_to_pb (q\<lparr>r_Src := s, r_Dst := d\<rparr>)"
    using assms(2) by (auto simp: sync_message_mem buildSyncResponse_def Let_def set_expandGroupRule)
  have "rule_ok q" using assms(1) q(1) by (auto simp: mgmt_inv_def rules_ok_def mem_inv_def keyed_wf go_values_iff)
  then show "rule_valid r"
    by (auto simp: q(2) rule_valid_def rule_to_pb_def rule_ok_def bad_action_def validateRuleFields_def
        split: option.splits if_splits)
qed




section \<open>Relayed packets: from device to device\<close>


definition example_other :: Engine where
  "example_other = applySync example_agent_env (example_resp [example_pb ''QQ=='' [''100.64.0.1/32'']] [] [])
     (New_Engine ''Qg=='' False ''blinex0'' ''mgmt:50051'' ''127.0.0.1:10000'' ''8.8.8.8:53'')"

lemma example_other_facts:
  "reach agent_start agent_step example_other" "eg_selfKey example_other = ''Qg==''"
  "go_get (eg_peers example_other) ''QQ=='' \<noteq> None" "length (eg_objects example_other) \<le> 65536"
proof -
  let ?new = "New_Engine ''Qg=='' False ''blinex0'' ''mgmt:50051'' ''127.0.0.1:10000'' ''8.8.8.8:53''"
  have s: "agent_start ?new" unfolding agent_start_def by blast
  note i = agent_inv_start [OF s]
  show "reach agent_start agent_step example_other"
    unfolding example_other_def by (rule reach_step, rule reach_init, rule s, rule agent_sync)
  show "eg_selfKey example_other = ''Qg==''" "go_get (eg_peers example_other) ''QQ=='' \<noteq> None"
    unfolding example_other_def applySync_inv(2,3) [OF i]
    by (simp_all add: New_Engine_def example_resp_def example_pb_def incomingMap_def go_eval)
  show "length (eg_objects example_other) \<le> 65536"
    using applySync_length [of example_agent_env "example_resp [example_pb ''QQ=='' [''100.64.0.1/32'']] [] []" ?new]
    by (simp add: example_other_def example_resp_def New_Engine_def)
qed


end
